(* ===== verification/Kernel_Abi.thy ===== *)
theory Kernel_Abi
  imports Main
begin

text \<open>
  The kernel's interface as the headers declare it: the number and prototype by which a program
  calls each helper (bpf_helper_defs.h), and the kernel's own enumeration of the helpers
  (\<open>bpf_func_id\<close> in vmlinux.h). A program calls a helper by its number alone, so the two headers
  have to agree.
\<close>

datatype c_type =
    Void | Int_t | Long_t | Ulong_t | U16_t | U32_t | U64_t | S32_t | S64_t | Be16_t | Be32_t | Wsum_t
  | Char_t | U8_t | Bool_t | Struct string | Code | Ptr c_type | Const c_type | Varargs

text \<open>A declaration: name (after \<open>bpf_\<close>), number, result, parameters.\<close>

type_synonym helper_decl = "string \<times> nat \<times> c_type \<times> c_type list"

section \<open>The declarations\<close>

definition helper_decls_1 :: "helper_decl list" where
  "helper_decls_1 =
    [(''map_lookup_elem'', 1, Ptr Void, [Ptr Void, Ptr (Const Void)]),
     (''map_update_elem'', 2, Long_t, [Ptr Void, Ptr (Const Void), Ptr (Const Void), U64_t]),
     (''map_delete_elem'', 3, Long_t, [Ptr Void, Ptr (Const Void)]),
     (''probe_read'', 4, Long_t, [Ptr Void, U32_t, Ptr (Const Void)]),
     (''ktime_get_ns'', 5, U64_t, []),
     (''trace_printk'', 6, Long_t, [Ptr (Const Char_t), U32_t, Varargs]),
     (''get_prandom_u32'', 7, U32_t, [])]"

definition helper_decls_2 :: "helper_decl list" where
  "helper_decls_2 =
    [(''get_smp_processor_id'', 8, U32_t, []),
     (''skb_store_bytes'', 9, Long_t, [Ptr (Struct ''__sk_buff''), U32_t, Ptr (Const Void), U32_t, U64_t]),
     (''l3_csum_replace'', 10, Long_t, [Ptr (Struct ''__sk_buff''), U32_t, U64_t, U64_t, U64_t]),
     (''l4_csum_replace'', 11, Long_t, [Ptr (Struct ''__sk_buff''), U32_t, U64_t, U64_t, U64_t]),
     (''tail_call'', 12, Long_t, [Ptr Void, Ptr Void, U32_t])]"

definition helper_decls_3 :: "helper_decl list" where
  "helper_decls_3 =
    [(''clone_redirect'', 13, Long_t, [Ptr (Struct ''__sk_buff''), U32_t, U64_t]),
     (''get_current_pid_tgid'', 14, U64_t, []),
     (''get_current_uid_gid'', 15, U64_t, []),
     (''get_current_comm'', 16, Long_t, [Ptr Void, U32_t]),
     (''get_cgroup_classid'', 17, U32_t, [Ptr (Struct ''__sk_buff'')]),
     (''skb_vlan_push'', 18, Long_t, [Ptr (Struct ''__sk_buff''), Be16_t, U16_t]),
     (''skb_vlan_pop'', 19, Long_t, [Ptr (Struct ''__sk_buff'')])]"

definition helper_decls_4 :: "helper_decl list" where
  "helper_decls_4 =
    [(''skb_get_tunnel_key'', 20, Long_t, [Ptr (Struct ''__sk_buff''), Ptr (Struct ''bpf_tunnel_key''), U32_t, U64_t]),
     (''skb_set_tunnel_key'', 21, Long_t, [Ptr (Struct ''__sk_buff''), Ptr (Struct ''bpf_tunnel_key''), U32_t, U64_t]),
     (''perf_event_read'', 22, U64_t, [Ptr Void, U64_t])]"

definition helper_decls_5 :: "helper_decl list" where
  "helper_decls_5 =
    [(''redirect'', 23, Long_t, [U32_t, U64_t]),
     (''get_route_realm'', 24, U32_t, [Ptr (Struct ''__sk_buff'')]),
     (''perf_event_output'', 25, Long_t, [Ptr Void, Ptr Void, U64_t, Ptr Void, U64_t]),
     (''skb_load_bytes'', 26, Long_t, [Ptr (Const Void), U32_t, Ptr Void, U32_t])]"

definition helper_decls_6 :: "helper_decl list" where
  "helper_decls_6 =
    [(''get_stackid'', 27, Long_t, [Ptr Void, Ptr Void, U64_t]),
     (''csum_diff'', 28, S64_t, [Ptr Be32_t, U32_t, Ptr Be32_t, U32_t, Wsum_t]),
     (''skb_get_tunnel_opt'', 29, Long_t, [Ptr (Struct ''__sk_buff''), Ptr Void, U32_t]),
     (''skb_set_tunnel_opt'', 30, Long_t, [Ptr (Struct ''__sk_buff''), Ptr Void, U32_t]),
     (''skb_change_proto'', 31, Long_t, [Ptr (Struct ''__sk_buff''), Be16_t, U64_t])]"

definition helper_decls_7 :: "helper_decl list" where
  "helper_decls_7 =
    [(''skb_change_type'', 32, Long_t, [Ptr (Struct ''__sk_buff''), U32_t]),
     (''skb_under_cgroup'', 33, Long_t, [Ptr (Struct ''__sk_buff''), Ptr Void, U32_t]),
     (''get_hash_recalc'', 34, U32_t, [Ptr (Struct ''__sk_buff'')]),
     (''get_current_task'', 35, U64_t, []),
     (''probe_write_user'', 36, Long_t, [Ptr Void, Ptr (Const Void), U32_t]),
     (''current_task_under_cgroup'', 37, Long_t, [Ptr Void, U32_t]),
     (''skb_change_tail'', 38, Long_t, [Ptr (Struct ''__sk_buff''), U32_t, U64_t])]"

definition helper_decls_8 :: "helper_decl list" where
  "helper_decls_8 =
    [(''skb_pull_data'', 39, Long_t, [Ptr (Struct ''__sk_buff''), U32_t]),
     (''csum_update'', 40, S64_t, [Ptr (Struct ''__sk_buff''), Wsum_t]),
     (''set_hash_invalid'', 41, Void, [Ptr (Struct ''__sk_buff'')]),
     (''get_numa_node_id'', 42, Long_t, []),
     (''skb_change_head'', 43, Long_t, [Ptr (Struct ''__sk_buff''), U32_t, U64_t]),
     (''xdp_adjust_head'', 44, Long_t, [Ptr (Struct ''xdp_md''), Int_t]),
     (''probe_read_str'', 45, Long_t, [Ptr Void, U32_t, Ptr (Const Void)])]"

definition helper_decls_9 :: "helper_decl list" where
  "helper_decls_9 =
    [(''get_socket_cookie'', 46, U64_t, [Ptr Void]),
     (''get_socket_uid'', 47, U32_t, [Ptr (Struct ''__sk_buff'')]),
     (''set_hash'', 48, Long_t, [Ptr (Struct ''__sk_buff''), U32_t]),
     (''setsockopt'', 49, Long_t, [Ptr Void, Int_t, Int_t, Ptr Void, Int_t]),
     (''skb_adjust_room'', 50, Long_t, [Ptr (Struct ''__sk_buff''), S32_t, U32_t, U64_t])]"

definition helper_decls_10 :: "helper_decl list" where
  "helper_decls_10 =
    [(''redirect_map'', 51, Long_t, [Ptr Void, U64_t, U64_t]),
     (''sk_redirect_map'', 52, Long_t, [Ptr (Struct ''__sk_buff''), Ptr Void, U32_t, U64_t]),
     (''sock_map_update'', 53, Long_t, [Ptr (Struct ''bpf_sock_ops''), Ptr Void, Ptr Void, U64_t]),
     (''xdp_adjust_meta'', 54, Long_t, [Ptr (Struct ''xdp_md''), Int_t])]"

definition helper_decls_11 :: "helper_decl list" where
  "helper_decls_11 =
    [(''perf_event_read_value'', 55, Long_t, [Ptr Void, U64_t, Ptr (Struct ''bpf_perf_event_value''), U32_t]),
     (''perf_prog_read_value'', 56, Long_t, [Ptr (Struct ''bpf_perf_event_data''), Ptr (Struct ''bpf_perf_event_value''), U32_t]),
     (''getsockopt'', 57, Long_t, [Ptr Void, Int_t, Int_t, Ptr Void, Int_t]),
     (''override_return'', 58, Long_t, [Ptr (Struct ''pt_regs''), U64_t])]"

definition helper_decls_12 :: "helper_decl list" where
  "helper_decls_12 =
    [(''sock_ops_cb_flags_set'', 59, Long_t, [Ptr (Struct ''bpf_sock_ops''), Int_t]),
     (''msg_redirect_map'', 60, Long_t, [Ptr (Struct ''sk_msg_md''), Ptr Void, U32_t, U64_t]),
     (''msg_apply_bytes'', 61, Long_t, [Ptr (Struct ''sk_msg_md''), U32_t]),
     (''msg_cork_bytes'', 62, Long_t, [Ptr (Struct ''sk_msg_md''), U32_t])]"

definition helper_decls_13 :: "helper_decl list" where
  "helper_decls_13 =
    [(''msg_pull_data'', 63, Long_t, [Ptr (Struct ''sk_msg_md''), U32_t, U32_t, U64_t]),
     (''bind'', 64, Long_t, [Ptr (Struct ''bpf_sock_addr''), Ptr (Struct ''sockaddr''), Int_t]),
     (''xdp_adjust_tail'', 65, Long_t, [Ptr (Struct ''xdp_md''), Int_t]),
     (''skb_get_xfrm_state'', 66, Long_t, [Ptr (Struct ''__sk_buff''), U32_t, Ptr (Struct ''bpf_xfrm_state''), U32_t, U64_t]),
     (''get_stack'', 67, Long_t, [Ptr Void, Ptr Void, U32_t, U64_t])]"

definition helper_decls_14 :: "helper_decl list" where
  "helper_decls_14 =
    [(''skb_load_bytes_relative'', 68, Long_t, [Ptr (Const Void), U32_t, Ptr Void, U32_t, U32_t]),
     (''fib_lookup'', 69, Long_t, [Ptr Void, Ptr (Struct ''bpf_fib_lookup''), Int_t, U32_t]),
     (''sock_hash_update'', 70, Long_t, [Ptr (Struct ''bpf_sock_ops''), Ptr Void, Ptr Void, U64_t]),
     (''msg_redirect_hash'', 71, Long_t, [Ptr (Struct ''sk_msg_md''), Ptr Void, Ptr Void, U64_t]),
     (''sk_redirect_hash'', 72, Long_t, [Ptr (Struct ''__sk_buff''), Ptr Void, Ptr Void, U64_t])]"

definition helper_decls_15 :: "helper_decl list" where
  "helper_decls_15 =
    [(''lwt_push_encap'', 73, Long_t, [Ptr (Struct ''__sk_buff''), U32_t, Ptr Void, U32_t]),
     (''lwt_seg6_store_bytes'', 74, Long_t, [Ptr (Struct ''__sk_buff''), U32_t, Ptr (Const Void), U32_t]),
     (''lwt_seg6_adjust_srh'', 75, Long_t, [Ptr (Struct ''__sk_buff''), U32_t, S32_t]),
     (''lwt_seg6_action'', 76, Long_t, [Ptr (Struct ''__sk_buff''), U32_t, Ptr Void, U32_t]),
     (''rc_repeat'', 77, Long_t, [Ptr Void])]"

definition helper_decls_16 :: "helper_decl list" where
  "helper_decls_16 =
    [(''rc_keydown'', 78, Long_t, [Ptr Void, U32_t, U64_t, U32_t]),
     (''skb_cgroup_id'', 79, U64_t, [Ptr (Struct ''__sk_buff'')]),
     (''get_current_cgroup_id'', 80, U64_t, []),
     (''get_local_storage'', 81, Ptr Void, [Ptr Void, U64_t]),
     (''sk_select_reuseport'', 82, Long_t, [Ptr (Struct ''sk_reuseport_md''), Ptr Void, Ptr Void, U64_t]),
     (''skb_ancestor_cgroup_id'', 83, U64_t, [Ptr (Struct ''__sk_buff''), Int_t])]"

definition helper_decls_17 :: "helper_decl list" where
  "helper_decls_17 =
    [(''sk_lookup_tcp'', 84, Ptr (Struct ''bpf_sock''), [Ptr Void, Ptr (Struct ''bpf_sock_tuple''), U32_t, U64_t, U64_t]),
     (''sk_lookup_udp'', 85, Ptr (Struct ''bpf_sock''), [Ptr Void, Ptr (Struct ''bpf_sock_tuple''), U32_t, U64_t, U64_t]),
     (''sk_release'', 86, Long_t, [Ptr Void]),
     (''map_push_elem'', 87, Long_t, [Ptr Void, Ptr (Const Void), U64_t]),
     (''map_pop_elem'', 88, Long_t, [Ptr Void, Ptr Void]),
     (''map_peek_elem'', 89, Long_t, [Ptr Void, Ptr Void]),
     (''msg_push_data'', 90, Long_t, [Ptr (Struct ''sk_msg_md''), U32_t, U32_t, U64_t])]"

definition helper_decls_18 :: "helper_decl list" where
  "helper_decls_18 =
    [(''msg_pop_data'', 91, Long_t, [Ptr (Struct ''sk_msg_md''), U32_t, U32_t, U64_t]),
     (''rc_pointer_rel'', 92, Long_t, [Ptr Void, S32_t, S32_t]),
     (''spin_lock'', 93, Long_t, [Ptr (Struct ''bpf_spin_lock'')]),
     (''spin_unlock'', 94, Long_t, [Ptr (Struct ''bpf_spin_lock'')]),
     (''sk_fullsock'', 95, Ptr (Struct ''bpf_sock''), [Ptr (Struct ''bpf_sock'')]),
     (''tcp_sock'', 96, Ptr (Struct ''bpf_tcp_sock''), [Ptr (Struct ''bpf_sock'')]),
     (''skb_ecn_set_ce'', 97, Long_t, [Ptr (Struct ''__sk_buff'')]),
     (''get_listener_sock'', 98, Ptr (Struct ''bpf_sock''), [Ptr (Struct ''bpf_sock'')])]"

definition helper_decls_19 :: "helper_decl list" where
  "helper_decls_19 =
    [(''skc_lookup_tcp'', 99, Ptr (Struct ''bpf_sock''), [Ptr Void, Ptr (Struct ''bpf_sock_tuple''), U32_t, U64_t, U64_t]),
     (''tcp_check_syncookie'', 100, Long_t, [Ptr Void, Ptr Void, U32_t, Ptr (Struct ''tcphdr''), U32_t]),
     (''sysctl_get_name'', 101, Long_t, [Ptr (Struct ''bpf_sysctl''), Ptr Char_t, Ulong_t, U64_t]),
     (''sysctl_get_current_value'', 102, Long_t, [Ptr (Struct ''bpf_sysctl''), Ptr Char_t, Ulong_t]),
     (''sysctl_get_new_value'', 103, Long_t, [Ptr (Struct ''bpf_sysctl''), Ptr Char_t, Ulong_t]),
     (''sysctl_set_new_value'', 104, Long_t, [Ptr (Struct ''bpf_sysctl''), Ptr (Const Char_t), Ulong_t])]"

definition helper_decls_20 :: "helper_decl list" where
  "helper_decls_20 =
    [(''strtol'', 105, Long_t, [Ptr (Const Char_t), Ulong_t, U64_t, Ptr Long_t]),
     (''strtoul'', 106, Long_t, [Ptr (Const Char_t), Ulong_t, U64_t, Ptr Ulong_t]),
     (''sk_storage_get'', 107, Ptr Void, [Ptr Void, Ptr Void, Ptr Void, U64_t]),
     (''sk_storage_delete'', 108, Long_t, [Ptr Void, Ptr Void]),
     (''send_signal'', 109, Long_t, [U32_t])]"

definition helper_decls_21 :: "helper_decl list" where
  "helper_decls_21 =
    [(''tcp_gen_syncookie'', 110, S64_t, [Ptr Void, Ptr Void, U32_t, Ptr (Struct ''tcphdr''), U32_t]),
     (''skb_output'', 111, Long_t, [Ptr Void, Ptr Void, U64_t, Ptr Void, U64_t]),
     (''probe_read_user'', 112, Long_t, [Ptr Void, U32_t, Ptr (Const Void)]),
     (''probe_read_kernel'', 113, Long_t, [Ptr Void, U32_t, Ptr (Const Void)]),
     (''probe_read_user_str'', 114, Long_t, [Ptr Void, U32_t, Ptr (Const Void)]),
     (''probe_read_kernel_str'', 115, Long_t, [Ptr Void, U32_t, Ptr (Const Void)])]"

definition helper_decls_22 :: "helper_decl list" where
  "helper_decls_22 =
    [(''tcp_send_ack'', 116, Long_t, [Ptr Void, U32_t]),
     (''send_signal_thread'', 117, Long_t, [U32_t]),
     (''jiffies64'', 118, U64_t, []),
     (''read_branch_records'', 119, Long_t, [Ptr (Struct ''bpf_perf_event_data''), Ptr Void, U32_t, U64_t]),
     (''get_ns_current_pid_tgid'', 120, Long_t, [U64_t, U64_t, Ptr (Struct ''bpf_pidns_info''), U32_t]),
     (''xdp_output'', 121, Long_t, [Ptr Void, Ptr Void, U64_t, Ptr Void, U64_t]),
     (''get_netns_cookie'', 122, U64_t, [Ptr Void]),
     (''get_current_ancestor_cgroup_id'', 123, U64_t, [Int_t])]"

definition helper_decls_23 :: "helper_decl list" where
  "helper_decls_23 =
    [(''sk_assign'', 124, Long_t, [Ptr Void, Ptr Void, U64_t]),
     (''ktime_get_boot_ns'', 125, U64_t, []),
     (''seq_printf'', 126, Long_t, [Ptr (Struct ''seq_file''), Ptr (Const Char_t), U32_t, Ptr (Const Void), U32_t]),
     (''seq_write'', 127, Long_t, [Ptr (Struct ''seq_file''), Ptr (Const Void), U32_t]),
     (''sk_cgroup_id'', 128, U64_t, [Ptr Void]),
     (''sk_ancestor_cgroup_id'', 129, U64_t, [Ptr Void, Int_t])]"

definition helper_decls_24 :: "helper_decl list" where
  "helper_decls_24 =
    [(''ringbuf_output'', 130, Long_t, [Ptr Void, Ptr Void, U64_t, U64_t]),
     (''ringbuf_reserve'', 131, Ptr Void, [Ptr Void, U64_t, U64_t]),
     (''ringbuf_submit'', 132, Void, [Ptr Void, U64_t]),
     (''ringbuf_discard'', 133, Void, [Ptr Void, U64_t]),
     (''ringbuf_query'', 134, U64_t, [Ptr Void, U64_t]),
     (''csum_level'', 135, Long_t, [Ptr (Struct ''__sk_buff''), U64_t]),
     (''skc_to_tcp6_sock'', 136, Ptr (Struct ''tcp6_sock''), [Ptr Void]),
     (''skc_to_tcp_sock'', 137, Ptr (Struct ''tcp_sock''), [Ptr Void])]"

definition helper_decls_25 :: "helper_decl list" where
  "helper_decls_25 =
    [(''skc_to_tcp_timewait_sock'', 138, Ptr (Struct ''tcp_timewait_sock''), [Ptr Void]),
     (''skc_to_tcp_request_sock'', 139, Ptr (Struct ''tcp_request_sock''), [Ptr Void]),
     (''skc_to_udp6_sock'', 140, Ptr (Struct ''udp6_sock''), [Ptr Void]),
     (''get_task_stack'', 141, Long_t, [Ptr (Struct ''task_struct''), Ptr Void, U32_t, U64_t]),
     (''load_hdr_opt'', 142, Long_t, [Ptr (Struct ''bpf_sock_ops''), Ptr Void, U32_t, U64_t])]"

definition helper_decls_26 :: "helper_decl list" where
  "helper_decls_26 =
    [(''store_hdr_opt'', 143, Long_t, [Ptr (Struct ''bpf_sock_ops''), Ptr (Const Void), U32_t, U64_t]),
     (''reserve_hdr_opt'', 144, Long_t, [Ptr (Struct ''bpf_sock_ops''), U32_t, U64_t]),
     (''inode_storage_get'', 145, Ptr Void, [Ptr Void, Ptr Void, Ptr Void, U64_t]),
     (''inode_storage_delete'', 146, Int_t, [Ptr Void, Ptr Void]),
     (''d_path'', 147, Long_t, [Ptr (Struct ''path''), Ptr Char_t, U32_t]),
     (''copy_from_user'', 148, Long_t, [Ptr Void, U32_t, Ptr (Const Void)])]"

definition helper_decls_27 :: "helper_decl list" where
  "helper_decls_27 =
    [(''snprintf_btf'', 149, Long_t, [Ptr Char_t, U32_t, Ptr (Struct ''btf_ptr''), U32_t, U64_t]),
     (''seq_printf_btf'', 150, Long_t, [Ptr (Struct ''seq_file''), Ptr (Struct ''btf_ptr''), U32_t, U64_t]),
     (''skb_cgroup_classid'', 151, U64_t, [Ptr (Struct ''__sk_buff'')]),
     (''redirect_neigh'', 152, Long_t, [U32_t, Ptr (Struct ''bpf_redir_neigh''), Int_t, U64_t]),
     (''per_cpu_ptr'', 153, Ptr Void, [Ptr (Const Void), U32_t]),
     (''this_cpu_ptr'', 154, Ptr Void, [Ptr (Const Void)]),
     (''redirect_peer'', 155, Long_t, [U32_t, U64_t])]"

definition helper_decls_28 :: "helper_decl list" where
  "helper_decls_28 =
    [(''task_storage_get'', 156, Ptr Void, [Ptr Void, Ptr (Struct ''task_struct''), Ptr Void, U64_t]),
     (''task_storage_delete'', 157, Long_t, [Ptr Void, Ptr (Struct ''task_struct'')]),
     (''get_current_task_btf'', 158, Ptr (Struct ''task_struct''), []),
     (''bprm_opts_set'', 159, Long_t, [Ptr (Struct ''linux_binprm''), U64_t]),
     (''ktime_get_coarse_ns'', 160, U64_t, []),
     (''ima_inode_hash'', 161, Long_t, [Ptr (Struct ''inode''), Ptr Void, U32_t]),
     (''sock_from_file'', 162, Ptr (Struct ''socket''), [Ptr (Struct ''file'')])]"

definition helper_decls_29 :: "helper_decl list" where
  "helper_decls_29 =
    [(''check_mtu'', 163, Long_t, [Ptr Void, U32_t, Ptr U32_t, S32_t, U64_t]),
     (''for_each_map_elem'', 164, Long_t, [Ptr Void, Ptr Void, Ptr Void, U64_t]),
     (''snprintf'', 165, Long_t, [Ptr Char_t, U32_t, Ptr (Const Char_t), Ptr U64_t, U32_t]),
     (''sys_bpf'', 166, Long_t, [U32_t, Ptr Void, U32_t])]"

definition helper_decls_30 :: "helper_decl list" where
  "helper_decls_30 =
    [(''btf_find_by_name_kind'', 167, Long_t, [Ptr Char_t, Int_t, U32_t, Int_t]),
     (''sys_close'', 168, Long_t, [U32_t]),
     (''timer_init'', 169, Long_t, [Ptr (Struct ''bpf_timer''), Ptr Void, U64_t]),
     (''timer_set_callback'', 170, Long_t, [Ptr (Struct ''bpf_timer''), Ptr Void]),
     (''timer_start'', 171, Long_t, [Ptr (Struct ''bpf_timer''), U64_t, U64_t]),
     (''timer_cancel'', 172, Long_t, [Ptr (Struct ''bpf_timer'')]),
     (''get_func_ip'', 173, U64_t, [Ptr Void]),
     (''get_attach_cookie'', 174, U64_t, [Ptr Void])]"

definition helper_decls_31 :: "helper_decl list" where
  "helper_decls_31 =
    [(''task_pt_regs'', 175, Long_t, [Ptr (Struct ''task_struct'')]),
     (''get_branch_snapshot'', 176, Long_t, [Ptr Void, U32_t, U64_t]),
     (''trace_vprintk'', 177, Long_t, [Ptr (Const Char_t), U32_t, Ptr (Const Void), U32_t]),
     (''skc_to_unix_sock'', 178, Ptr (Struct ''unix_sock''), [Ptr Void]),
     (''kallsyms_lookup_name'', 179, Long_t, [Ptr (Const Char_t), Int_t, Int_t, Ptr U64_t]),
     (''find_vma'', 180, Long_t, [Ptr (Struct ''task_struct''), U64_t, Ptr Void, Ptr Void, U64_t]),
     (''loop'', 181, Long_t, [U32_t, Ptr Void, Ptr Void, U64_t]),
     (''strncmp'', 182, Long_t, [Ptr (Const Char_t), U32_t, Ptr (Const Char_t)])]"

definition helper_decls_32 :: "helper_decl list" where
  "helper_decls_32 =
    [(''get_func_arg'', 183, Long_t, [Ptr Void, U32_t, Ptr U64_t]),
     (''get_func_ret'', 184, Long_t, [Ptr Void, Ptr U64_t]),
     (''get_func_arg_cnt'', 185, Long_t, [Ptr Void]),
     (''get_retval'', 186, Int_t, []),
     (''set_retval'', 187, Int_t, [Int_t]),
     (''xdp_get_buff_len'', 188, U64_t, [Ptr (Struct ''xdp_md'')]),
     (''xdp_load_bytes'', 189, Long_t, [Ptr (Struct ''xdp_md''), U32_t, Ptr Void, U32_t]),
     (''xdp_store_bytes'', 190, Long_t, [Ptr (Struct ''xdp_md''), U32_t, Ptr Void, U32_t]),
     (''copy_from_user_task'', 191, Long_t, [Ptr Void, U32_t, Ptr (Const Void), Ptr (Struct ''task_struct''), U64_t])]"

definition helper_decls_33 :: "helper_decl list" where
  "helper_decls_33 =
    [(''skb_set_tstamp'', 192, Long_t, [Ptr (Struct ''__sk_buff''), U64_t, U32_t]),
     (''ima_file_hash'', 193, Long_t, [Ptr (Struct ''file''), Ptr Void, U32_t]),
     (''kptr_xchg'', 194, Ptr Void, [Ptr Void, Ptr Void]),
     (''map_lookup_percpu_elem'', 195, Ptr Void, [Ptr Void, Ptr (Const Void), U32_t]),
     (''skc_to_mptcp_sock'', 196, Ptr (Struct ''mptcp_sock''), [Ptr Void]),
     (''dynptr_from_mem'', 197, Long_t, [Ptr Void, U32_t, U64_t, Ptr (Struct ''bpf_dynptr'')]),
     (''ringbuf_reserve_dynptr'', 198, Long_t, [Ptr Void, U32_t, U64_t, Ptr (Struct ''bpf_dynptr'')]),
     (''ringbuf_submit_dynptr'', 199, Void, [Ptr (Struct ''bpf_dynptr''), U64_t]),
     (''ringbuf_discard_dynptr'', 200, Void, [Ptr (Struct ''bpf_dynptr''), U64_t])]"

definition helper_decls_34 :: "helper_decl list" where
  "helper_decls_34 =
    [(''dynptr_read'', 201, Long_t, [Ptr Void, U32_t, Ptr (Const (Struct ''bpf_dynptr'')), U32_t, U64_t]),
     (''dynptr_write'', 202, Long_t, [Ptr (Const (Struct ''bpf_dynptr'')), U32_t, Ptr Void, U32_t, U64_t]),
     (''dynptr_data'', 203, Ptr Void, [Ptr (Const (Struct ''bpf_dynptr'')), U32_t, U32_t]),
     (''tcp_raw_gen_syncookie_ipv4'', 204, S64_t, [Ptr (Struct ''iphdr''), Ptr (Struct ''tcphdr''), U32_t]),
     (''tcp_raw_gen_syncookie_ipv6'', 205, S64_t, [Ptr (Struct ''ipv6hdr''), Ptr (Struct ''tcphdr''), U32_t]),
     (''tcp_raw_check_syncookie_ipv4'', 206, Long_t, [Ptr (Struct ''iphdr''), Ptr (Struct ''tcphdr'')]),
     (''tcp_raw_check_syncookie_ipv6'', 207, Long_t, [Ptr (Struct ''ipv6hdr''), Ptr (Struct ''tcphdr'')])]"

definition helper_decls_35 :: "helper_decl list" where
  "helper_decls_35 =
    [(''ktime_get_tai_ns'', 208, U64_t, []),
     (''user_ringbuf_drain'', 209, Long_t, [Ptr Void, Ptr Void, Ptr Void, U64_t]),
     (''cgrp_storage_get'', 210, Ptr Void, [Ptr Void, Ptr (Struct ''cgroup''), Ptr Void, U64_t]),
     (''cgrp_storage_delete'', 211, Long_t, [Ptr Void, Ptr (Struct ''cgroup'')])]"

definition bpf_helpers :: "helper_decl list" where
  "bpf_helpers = concat [helper_decls_1, helper_decls_2, helper_decls_3, helper_decls_4, helper_decls_5, helper_decls_6, helper_decls_7, helper_decls_8, helper_decls_9, helper_decls_10, helper_decls_11, helper_decls_12, helper_decls_13, helper_decls_14, helper_decls_15, helper_decls_16, helper_decls_17, helper_decls_18, helper_decls_19, helper_decls_20, helper_decls_21, helper_decls_22, helper_decls_23, helper_decls_24, helper_decls_25, helper_decls_26, helper_decls_27, helper_decls_28, helper_decls_29, helper_decls_30, helper_decls_31, helper_decls_32, helper_decls_33, helper_decls_34, helper_decls_35]"

section \<open>The kernel's enumeration\<close>

definition bpf_func_id_1 :: "(string \<times> nat) list" where
  "bpf_func_id_1 =
    [(''unspec'', 0), (''map_lookup_elem'', 1), (''map_update_elem'', 2), (''map_delete_elem'', 3),
     (''probe_read'', 4), (''ktime_get_ns'', 5), (''trace_printk'', 6), (''get_prandom_u32'', 7),
     (''get_smp_processor_id'', 8), (''skb_store_bytes'', 9), (''l3_csum_replace'', 10),
     (''l4_csum_replace'', 11), (''tail_call'', 12), (''clone_redirect'', 13),
     (''get_current_pid_tgid'', 14), (''get_current_uid_gid'', 15), (''get_current_comm'', 16),
     (''get_cgroup_classid'', 17), (''skb_vlan_push'', 18), (''skb_vlan_pop'', 19),
     (''skb_get_tunnel_key'', 20), (''skb_set_tunnel_key'', 21), (''perf_event_read'', 22),
     (''redirect'', 23), (''get_route_realm'', 24), (''perf_event_output'', 25),
     (''skb_load_bytes'', 26), (''get_stackid'', 27), (''csum_diff'', 28),
     (''skb_get_tunnel_opt'', 29), (''skb_set_tunnel_opt'', 30), (''skb_change_proto'', 31),
     (''skb_change_type'', 32), (''skb_under_cgroup'', 33), (''get_hash_recalc'', 34),
     (''get_current_task'', 35), (''probe_write_user'', 36), (''current_task_under_cgroup'', 37),
     (''skb_change_tail'', 38), (''skb_pull_data'', 39), (''csum_update'', 40),
     (''set_hash_invalid'', 41), (''get_numa_node_id'', 42), (''skb_change_head'', 43),
     (''xdp_adjust_head'', 44), (''probe_read_str'', 45), (''get_socket_cookie'', 46),
     (''get_socket_uid'', 47), (''set_hash'', 48), (''setsockopt'', 49), (''skb_adjust_room'', 50),
     (''redirect_map'', 51), (''sk_redirect_map'', 52), (''sock_map_update'', 53),
     (''xdp_adjust_meta'', 54), (''perf_event_read_value'', 55), (''perf_prog_read_value'', 56),
     (''getsockopt'', 57), (''override_return'', 58), (''sock_ops_cb_flags_set'', 59),
     (''msg_redirect_map'', 60), (''msg_apply_bytes'', 61), (''msg_cork_bytes'', 62),
     (''msg_pull_data'', 63), (''bind'', 64), (''xdp_adjust_tail'', 65),
     (''skb_get_xfrm_state'', 66), (''get_stack'', 67), (''skb_load_bytes_relative'', 68),
     (''fib_lookup'', 69), (''sock_hash_update'', 70), (''msg_redirect_hash'', 71),
     (''sk_redirect_hash'', 72), (''lwt_push_encap'', 73), (''lwt_seg6_store_bytes'', 74),
     (''lwt_seg6_adjust_srh'', 75), (''lwt_seg6_action'', 76), (''rc_repeat'', 77),
     (''rc_keydown'', 78), (''skb_cgroup_id'', 79), (''get_current_cgroup_id'', 80),
     (''get_local_storage'', 81), (''sk_select_reuseport'', 82), (''skb_ancestor_cgroup_id'', 83),
     (''sk_lookup_tcp'', 84), (''sk_lookup_udp'', 85), (''sk_release'', 86),
     (''map_push_elem'', 87), (''map_pop_elem'', 88), (''map_peek_elem'', 89),
     (''msg_push_data'', 90), (''msg_pop_data'', 91), (''rc_pointer_rel'', 92),
     (''spin_lock'', 93), (''spin_unlock'', 94), (''sk_fullsock'', 95), (''tcp_sock'', 96),
     (''skb_ecn_set_ce'', 97), (''get_listener_sock'', 98), (''skc_lookup_tcp'', 99),
     (''tcp_check_syncookie'', 100), (''sysctl_get_name'', 101),
     (''sysctl_get_current_value'', 102), (''sysctl_get_new_value'', 103),
     (''sysctl_set_new_value'', 104), (''strtol'', 105)]"

definition bpf_func_id_2 :: "(string \<times> nat) list" where
  "bpf_func_id_2 =
    [(''strtoul'', 106), (''sk_storage_get'', 107), (''sk_storage_delete'', 108),
     (''send_signal'', 109), (''tcp_gen_syncookie'', 110), (''skb_output'', 111),
     (''probe_read_user'', 112), (''probe_read_kernel'', 113), (''probe_read_user_str'', 114),
     (''probe_read_kernel_str'', 115), (''tcp_send_ack'', 116), (''send_signal_thread'', 117),
     (''jiffies64'', 118), (''read_branch_records'', 119), (''get_ns_current_pid_tgid'', 120),
     (''xdp_output'', 121), (''get_netns_cookie'', 122), (''get_current_ancestor_cgroup_id'', 123),
     (''sk_assign'', 124), (''ktime_get_boot_ns'', 125), (''seq_printf'', 126),
     (''seq_write'', 127), (''sk_cgroup_id'', 128), (''sk_ancestor_cgroup_id'', 129),
     (''ringbuf_output'', 130), (''ringbuf_reserve'', 131), (''ringbuf_submit'', 132),
     (''ringbuf_discard'', 133), (''ringbuf_query'', 134), (''csum_level'', 135),
     (''skc_to_tcp6_sock'', 136), (''skc_to_tcp_sock'', 137), (''skc_to_tcp_timewait_sock'', 138),
     (''skc_to_tcp_request_sock'', 139), (''skc_to_udp6_sock'', 140), (''get_task_stack'', 141),
     (''load_hdr_opt'', 142), (''store_hdr_opt'', 143), (''reserve_hdr_opt'', 144),
     (''inode_storage_get'', 145), (''inode_storage_delete'', 146), (''d_path'', 147),
     (''copy_from_user'', 148), (''snprintf_btf'', 149), (''seq_printf_btf'', 150),
     (''skb_cgroup_classid'', 151), (''redirect_neigh'', 152), (''per_cpu_ptr'', 153),
     (''this_cpu_ptr'', 154), (''redirect_peer'', 155), (''task_storage_get'', 156),
     (''task_storage_delete'', 157), (''get_current_task_btf'', 158), (''bprm_opts_set'', 159),
     (''ktime_get_coarse_ns'', 160), (''ima_inode_hash'', 161), (''sock_from_file'', 162),
     (''check_mtu'', 163), (''for_each_map_elem'', 164), (''snprintf'', 165), (''sys_bpf'', 166),
     (''btf_find_by_name_kind'', 167), (''sys_close'', 168), (''timer_init'', 169),
     (''timer_set_callback'', 170), (''timer_start'', 171), (''timer_cancel'', 172),
     (''get_func_ip'', 173), (''get_attach_cookie'', 174), (''task_pt_regs'', 175),
     (''get_branch_snapshot'', 176), (''trace_vprintk'', 177), (''skc_to_unix_sock'', 178),
     (''kallsyms_lookup_name'', 179), (''find_vma'', 180), (''loop'', 181), (''strncmp'', 182),
     (''get_func_arg'', 183), (''get_func_ret'', 184), (''get_func_arg_cnt'', 185),
     (''get_retval'', 186), (''set_retval'', 187), (''xdp_get_buff_len'', 188),
     (''xdp_load_bytes'', 189), (''xdp_store_bytes'', 190), (''copy_from_user_task'', 191),
     (''skb_set_tstamp'', 192), (''ima_file_hash'', 193), (''kptr_xchg'', 194),
     (''map_lookup_percpu_elem'', 195), (''skc_to_mptcp_sock'', 196), (''dynptr_from_mem'', 197),
     (''ringbuf_reserve_dynptr'', 198), (''ringbuf_submit_dynptr'', 199),
     (''ringbuf_discard_dynptr'', 200), (''dynptr_read'', 201), (''dynptr_write'', 202),
     (''dynptr_data'', 203), (''tcp_raw_gen_syncookie_ipv4'', 204),
     (''tcp_raw_gen_syncookie_ipv6'', 205), (''tcp_raw_check_syncookie_ipv4'', 206),
     (''tcp_raw_check_syncookie_ipv6'', 207), (''ktime_get_tai_ns'', 208),
     (''user_ringbuf_drain'', 209), (''cgrp_storage_get'', 210), (''cgrp_storage_delete'', 211)]"

definition bpf_func_id :: "(string \<times> nat) list" where
  "bpf_func_id = bpf_func_id_1 @ bpf_func_id_2"

definition BPF_FUNC_MAX_ID :: nat where "BPF_FUNC_MAX_ID = 212"

section \<open>The table and the kernel agree\<close>

lemmas helper_decls_defs =
  helper_decls_1_def helper_decls_2_def helper_decls_3_def helper_decls_4_def
  helper_decls_5_def helper_decls_6_def helper_decls_7_def helper_decls_8_def
  helper_decls_9_def helper_decls_10_def helper_decls_11_def helper_decls_12_def
  helper_decls_13_def helper_decls_14_def helper_decls_15_def helper_decls_16_def
  helper_decls_17_def helper_decls_18_def helper_decls_19_def helper_decls_20_def
  helper_decls_21_def helper_decls_22_def helper_decls_23_def helper_decls_24_def
  helper_decls_25_def helper_decls_26_def helper_decls_27_def helper_decls_28_def
  helper_decls_29_def helper_decls_30_def helper_decls_31_def helper_decls_32_def
  helper_decls_33_def helper_decls_34_def helper_decls_35_def

definition helper_id :: "helper_decl \<Rightarrow> nat" where
  "helper_id = (\<lambda>(name, i, _). i)"

lemma helper_names: "map (\<lambda>(n, i, _). (n, i)) bpf_helpers = tl bpf_func_id"
  by (simp add: bpf_helpers_def helper_decls_defs bpf_func_id_def bpf_func_id_1_def bpf_func_id_2_def)

lemma helper_numbers: "map snd (tl bpf_func_id) = [1..<BPF_FUNC_MAX_ID]"
  by (simp add: bpf_func_id_def bpf_func_id_1_def bpf_func_id_2_def BPF_FUNC_MAX_ID_def upt_rec)


end
