(* ===== verification/Prelude.thy ===== *)
theory Prelude
  imports Main "HOL-Library.Word" "HOL-Library.Monad_Syntax"
begin

unbundle bit_operations_syntax

text \<open>
  What every component of the development shares: names for the machine integers of the C
  code, little-endian byte encoding of an integer in memory (the BPF object is built for the
  little-endian target, see gen.go), and the judgement \<open>succeeds\<close> about computations that
  may fault. A model function of type \<open>'a option\<close> returns \<open>None\<close> exactly where the C program
  would do something undefined or forbidden (an access outside the packet, a helper call under
  a spin lock); error returns of the code are ordinary values.
\<close>

type_synonym u8 = "8 word"
type_synonym u16 = "16 word"
type_synonym u32 = "32 word"
type_synonym u64 = "64 word"

named_theorems runs \<open>what a model function does, as rewrite rules\<close>

section \<open>Computations that may fault\<close>

definition succeeds :: "'a option \<Rightarrow> ('a \<Rightarrow> bool) \<Rightarrow> bool" where
  "succeeds c Q = (case c of None \<Rightarrow> False | Some x \<Rightarrow> Q x)"

lemma succeeds_Some [simp]: "succeeds (Some x) Q = Q x"
  by (simp add: succeeds_def)

lemma succeeds_None [simp]: "succeeds None Q = False"
  by (simp add: succeeds_def)

lemma succeeds_weaken: "succeeds c Q \<Longrightarrow> (\<And>x. Q x \<Longrightarrow> R x) \<Longrightarrow> succeeds c R"
  by (cases c) simp_all

lemma succeeds_iff: "succeeds c Q \<longleftrightarrow> (\<exists>x. c = Some x \<and> Q x)"
  by (cases c) simp_all

section \<open>Little-endian integers\<close>

lemma unat_less: "unat (w :: 'a::len word) < 2 ^ LENGTH('a)"
  by (rule unsigned_less)

fun le_enc :: "nat \<Rightarrow> nat \<Rightarrow> u8 list" where
  "le_enc 0 x = []"
| "le_enc (Suc n) x = of_nat x # le_enc n (x div 256)"

fun le_dec :: "u8 list \<Rightarrow> nat" where
  "le_dec [] = 0"
| "le_dec (b # bs) = unat b + 256 * le_dec bs"

lemma length_le_enc [simp]: "length (le_enc n x) = n"
  by (induction n arbitrary: x) simp_all

lemma le_dec_enc: "le_dec (le_enc n x) = x mod 256 ^ n"
proof (induction n arbitrary: x)
  case 0
  then show ?case by simp
next
  case (Suc n)
  have "x mod (256 * 256 ^ n) = 256 * (x div 256 mod 256 ^ n) + x mod 256"
    by (rule mod_mult2_eq)
  then show ?case
    by (simp add: Suc.IH unsigned_of_nat take_bit_eq_mod)
qed

lemma le_dec_zeros [simp]: "le_dec (replicate n 0) = 0"
  by (induction n) simp_all

lemma le_dec_bound: "le_dec bs < 256 ^ length bs"
proof (induction bs)
  case Nil
  then show ?case by simp
next
  case (Cons b bs)
  have "unat b < 256" using unat_less [of b] by simp
  with Cons show ?case by simp
qed

lemma le_enc_dec: "le_enc (length bs) (le_dec bs) = bs"
proof (induction bs)
  case Nil
  then show ?case by simp
next
  case (Cons b bs)
  have b: "unat b < 256" using unat_less [of b] by simp
  have "(unat b + 256 * le_dec bs) div 256 = le_dec bs" using b by simp
  moreover have "of_nat (unat b + 256 * le_dec bs) = b"
  proof -
    have "(256 :: u8) = 0" by simp
    then show ?thesis by (simp only: of_nat_add of_nat_mult of_nat_numeral mult_zero_left add_0_right) simp
  qed
  ultimately show ?case using Cons.IH by simp
qed

lemma le_enc_2: "le_enc 2 n = [of_nat n, of_nat (n div 256)]"
  by (simp add: numeral_2_eq_2)

lemma nth_le_enc: "i < n \<Longrightarrow> le_enc n x ! i = of_nat (drop_bit (8 * i) x)"
proof (induction n arbitrary: x i)
  case 0
  then show ?case by simp
next
  case (Suc n)
  show ?case
  proof (cases i)
    case 0
    then show ?thesis by simp
  next
    case (Suc j)
    have "drop_bit (8 * j) (x div 256) = drop_bit (8 * Suc j) x"
      by (simp add: drop_bit_eq_div power_add div_mult2_eq)
    with Suc Suc.prems Suc.IH [of j "x div 256"] show ?thesis by simp
  qed
qed

lemma bit_le_dec: "bit (le_dec bs) i \<longleftrightarrow> i div 8 < length bs \<and> bit (bs ! (i div 8)) (i mod 8)"
proof (induction bs arbitrary: i)
  case Nil
  then show ?case by simp
next
  case (Cons b bs)
  let ?n = "unat b + 256 * le_dec bs"
  have b: "unat b < 256" using unat_less [of b] by simp
  have low: "take_bit 8 ?n = unat b" using b by (simp add: take_bit_eq_mod)
  have high: "drop_bit 8 ?n = le_dec bs" using b by (simp add: drop_bit_eq_div)
  show ?case
  proof (cases "i < 8")
    case True
    then have "bit ?n i = bit (take_bit 8 ?n) i" by (simp add: bit_take_bit_iff)
    with True show ?thesis unfolding low by (simp add: bit_unsigned_iff)
  next
    case False
    then have i: "i = 8 + (i - 8)" by simp
    then have "bit ?n i = bit (drop_bit 8 ?n) (i - 8)" by (metis bit_drop_bit_eq comp_apply)
    also have "\<dots> = bit (le_dec bs) (i - 8)" unfolding high ..
    also have "\<dots> = (i div 8 < length (b # bs) \<and> bit ((b # bs) ! (i div 8)) (i mod 8))"
    proof -
      have "i div 8 = Suc ((i - 8) div 8)" and "i mod 8 = (i - 8) mod 8"
        using False by (simp_all add: le_div_geq le_mod_geq)
      then show ?thesis using Cons.IH [of "i - 8"] by simp
    qed
    finally show ?thesis by simp
  qed
qed

lemma bit_nth_le_enc: "i < n \<Longrightarrow> bit (le_enc n x ! i) j \<longleftrightarrow> j < 8 \<and> bit x (8 * i + j)"
  by (simp add: nth_le_enc bit_simps)

definition bytes16 :: "u16 \<Rightarrow> u8 list" where
  "bytes16 w = le_enc 2 (unat w)"

definition bytes32 :: "u32 \<Rightarrow> u8 list" where
  "bytes32 w = le_enc 4 (unat w)"

definition word16 :: "u8 list \<Rightarrow> u16" where
  "word16 bs = of_nat (le_dec bs)"

definition word32 :: "u8 list \<Rightarrow> u32" where
  "word32 bs = of_nat (le_dec bs)"

lemma length_bytes16 [simp]: "length (bytes16 w) = 2"
  by (simp add: bytes16_def)

lemma length_bytes32 [simp]: "length (bytes32 w) = 4"
  by (simp add: bytes32_def)

lemma bytes_not_Nil [simp]: "bytes16 w \<noteq> []" "bytes32 v \<noteq> []"
  using length_bytes16 [of w] length_bytes32 [of v] by (auto simp del: length_bytes16 length_bytes32)

lemma word16_bytes16 [simp]: "word16 (bytes16 w) = w"
  using unat_less [of w] by (simp add: word16_def bytes16_def le_dec_enc)

lemma word32_bytes32 [simp]: "word32 (bytes32 w) = w"
  using unat_less [of w] by (simp add: word32_def bytes32_def le_dec_enc)

lemma bytes16_word16: "length bs = 2 \<Longrightarrow> bytes16 (word16 bs) = bs"
  using le_dec_bound [of bs] le_enc_dec [of bs]
  by (simp add: bytes16_def word16_def unsigned_of_nat take_bit_eq_mod)

lemma unat_word16: "length bs = 2 \<Longrightarrow> unat (word16 bs) = le_dec bs"
  using le_dec_bound [of bs] by (simp add: word16_def unsigned_of_nat take_bit_eq_mod)

section \<open>Words and lists\<close>

lemma unat_ucast32 [simp]: "unat (ucast (d :: u32) :: u64) = unat d"
  using unat_less [of d] by (simp add: unsigned_ucast_eq take_bit_nat_eq_self)

lemma unat_u32_less: "unat (d :: u32) < 4294967296"
  using unat_less [of d] by simp

lemma list_eq_parts:
  "length xs = m + n \<Longrightarrow> xs = take m xs @ take n (drop m xs)"
  by (simp add: take_add [symmetric])

lemma unat_and_0xFFF: "unat (v AND 0xFFF :: u32) = unat v mod 4096"
proof -
  have "take_bit 12 v = v AND 0xFFF"
    by (simp only: take_bit_eq_mask) (simp add: mask_eq_exp_minus_1)
  then have "unat (v AND 0xFFF) = take_bit 12 (unat v)"
    using unsigned_take_bit_eq [of 12 v] by metis
  then show ?thesis by (simp add: take_bit_eq_mod)
qed

lemma and_0xFFF_small: "unat v \<le> 4095 \<Longrightarrow> v AND 0xFFF = (v :: u32)"
  by (rule word_unat_eq_iff [THEN iffD2]) (simp add: unat_and_0xFFF)

end
