(* ===== verification/Macros.thy ===== *)
theory Macros
  imports Prelude
begin

text \<open>
  The variadic macros of bpf_helpers.h that print: how \<open>bpf_printk\<close> counts its
  arguments, picks one of two kernel helpers by their number, and packs them; and the tail call
  with a constant slot. The preprocessor works on lists of tokens, so a macro here is a function on
  lists; a call that does not compile is \<open>None\<close>.
\<close>

section \<open>Counting arguments\<close>

text \<open>A token of an argument list: the place holder \<open>_\<close>, an argument, a count, a macro's name.\<close>

datatype 'a token = Underscore | Arg 'a | Count nat | Printk_name | Vprintk_name

text \<open>\<open>___bpf_nth\<close> names 13 parameters before the one it yields.\<close>

definition bpf_nth :: "'a token list \<Rightarrow> 'a token option" where
  "bpf_nth ts = (if 13 < length ts then Some (ts ! 13) else None)"

definition arg_counts :: "'a token list" where
  "arg_counts =
     [Count 12, Count 11, Count 10, Count 9, Count 8, Count 7, Count 6, Count 5, Count 4, Count 3,
      Count 2, Count 1, Count 0]"

definition bpf_narg :: "'a list \<Rightarrow> 'a token option" where
  "bpf_narg args = bpf_nth (Underscore # map Arg args @ arg_counts)"

definition printk_names :: "'a token list" where
  "printk_names =
     [Vprintk_name, Vprintk_name, Vprintk_name, Vprintk_name, Vprintk_name, Vprintk_name,
      Vprintk_name, Vprintk_name, Vprintk_name, Printk_name, Printk_name, Printk_name, Printk_name]"

definition bpf_pick_printk :: "'a list \<Rightarrow> 'a token option" where
  "bpf_pick_printk args = bpf_nth (Underscore # map Arg args @ printk_names)"

lemma nth_after_args:
  "length ys = 13 \<Longrightarrow> bpf_nth (Underscore # map Arg args @ ys) =
     Some (if length args \<le> 12 then ys ! (12 - length args) else Arg (args ! 12))"
  by (auto simp: bpf_nth_def nth_append)

lemma nth_arg_counts: "n \<le> 12 \<Longrightarrow> arg_counts ! (12 - n) = Count n"
  by (auto simp: arg_counts_def le_Suc_eq numeral_eq_Suc)

lemma nth_printk_names:
  "n \<le> 12 \<Longrightarrow> printk_names ! (12 - n) = (if n \<le> 3 then Printk_name else Vprintk_name)"
  by (auto simp: printk_names_def le_Suc_eq numeral_eq_Suc)

lemma bpf_narg_eq:
  "bpf_narg args = Some (if length args \<le> 12 then Count (length args) else Arg (args ! 12))"
  by (simp add: bpf_narg_def nth_after_args nth_arg_counts arg_counts_def [THEN arg_cong [of _ _ length]])

lemma bpf_pick_printk_eq:
  "bpf_pick_printk args = Some (if length args \<le> 3 then Printk_name
     else if length args \<le> 12 then Vprintk_name else Arg (args ! 12))"
  by (simp add: bpf_pick_printk_def nth_after_args nth_printk_names
    printk_names_def [THEN arg_cong [of _ _ length]])

section \<open>Packing arguments\<close>

text \<open>\<open>___bpf_fill0\<close> to \<open>___bpf_fill12\<close>; a write outside the array is a fault.\<close>

definition arr_store :: "u64 list \<Rightarrow> nat \<Rightarrow> u64 \<Rightarrow> u64 list option" where
  "arr_store arr p x = (if p < length arr then Some (arr[p := x]) else None)"

fun bpf_fill_n :: "nat \<Rightarrow> u64 list \<Rightarrow> nat \<Rightarrow> u64 list \<Rightarrow> u64 list option" where
  "bpf_fill_n 0 arr p xs = Some arr"
| "bpf_fill_n (Suc 0) arr p [x] = arr_store arr p x"
| "bpf_fill_n (Suc (Suc n)) arr p (x # xs) = do {
     arr \<leftarrow> arr_store arr p x;
     bpf_fill_n (Suc n) arr (p + 1) xs
   }"
| "bpf_fill_n _ _ _ _ = None"

definition bpf_fill :: "u64 list \<Rightarrow> u64 list \<Rightarrow> u64 list option" where
  "bpf_fill arr args = (case bpf_narg args of
     Some (Count n) \<Rightarrow> if n \<le> 12 then bpf_fill_n n arr 0 args else None
   | _ \<Rightarrow> None)"

lemma bpf_fill_n_eq:
  "length xs = n \<Longrightarrow> p + n \<le> length arr \<Longrightarrow>
     bpf_fill_n n arr p xs = Some (take p arr @ xs @ drop (p + n) arr)"
proof (induction n arr p xs rule: bpf_fill_n.induct)
  case (2 arr p x)
  then show ?case by (simp add: arr_store_def upd_conv_take_nth_drop)
next
  case (3 n arr p x xs)
  then have "take (Suc p) (arr[p := x]) = take p arr @ [x]"
    by (simp add: take_Suc_conv_app_nth)
  with 3 show ?case by (simp add: arr_store_def)
qed simp_all

lemma bpf_fill_eq:
  "length args \<le> 12 \<Longrightarrow> length arr = length args \<Longrightarrow> bpf_fill arr args = Some args"
  by (simp add: bpf_fill_def bpf_narg_eq bpf_fill_n_eq)

section \<open>Printing\<close>

text \<open>
  A call of a printing helper: the format and its size with the terminating zero, then either the
  arguments themselves or the bytes of an array of them.
\<close>

datatype print_call =
    Bpf_trace_printk string nat "u64 list"
  | Bpf_trace_vprintk string nat "u64 list" nat

definition bpf_printk_direct :: "string \<Rightarrow> u64 list \<Rightarrow> print_call option" where
  "bpf_printk_direct fmt args = Some (Bpf_trace_printk fmt (length fmt + 1) args)"

text \<open>The array on the stack starts with whatever is there (\<open>junk\<close>).\<close>

definition bpf_vprintk :: "(nat \<Rightarrow> u64) \<Rightarrow> string \<Rightarrow> u64 list \<Rightarrow> print_call option" where
  "bpf_vprintk junk fmt args = (case bpf_narg args of
     Some (Count n) \<Rightarrow> do {
       param \<leftarrow> bpf_fill (map junk [0..<n]) args;
       Some (Bpf_trace_vprintk fmt (length fmt + 1) param (8 * length param))
     }
   | _ \<Rightarrow> None)"

definition bpf_printk :: "(nat \<Rightarrow> u64) \<Rightarrow> string \<Rightarrow> u64 list \<Rightarrow> print_call option" where
  "bpf_printk junk fmt args = (case bpf_pick_printk args of
     Some Printk_name \<Rightarrow> bpf_printk_direct fmt args
   | Some Vprintk_name \<Rightarrow> bpf_vprintk junk fmt args
   | _ \<Rightarrow> None)"

text \<open>How many registers the call takes, one for each parameter of the helper.\<close>

fun print_registers :: "print_call \<Rightarrow> nat" where
  "print_registers (Bpf_trace_printk fmt sz args) = 2 + length args"
| "print_registers (Bpf_trace_vprintk fmt sz arr n) = 4"

text \<open>\<open>bpf_printk\<close> prints the arguments it is given: with up to three it passes them to
  \<open>bpf_trace_printk\<close>, with four to twelve it passes an array that holds exactly them, in order, to
  \<open>bpf_trace_vprintk\<close>, whatever the stack held before; it never writes outside the array, and the
  call always fits the five argument registers. A call with more than twelve does not compile.\<close>

theorem bpf_printk_exact:
  "bpf_printk junk fmt args =
     (if length args \<le> 3 then Some (Bpf_trace_printk fmt (length fmt + 1) args)
      else if length args \<le> 12 then
        Some (Bpf_trace_vprintk fmt (length fmt + 1) args (8 * length args))
      else None) \<and>
   (case bpf_printk junk fmt args of None \<Rightarrow> True | Some c \<Rightarrow> print_registers c \<le> 5)"
  by (simp add: bpf_printk_def bpf_pick_printk_eq bpf_printk_direct_def bpf_vprintk_def bpf_narg_eq
    bpf_fill_eq)

section \<open>Printing into a file or a buffer\<close>

text \<open>\<open>BPF_SEQ_PRINTF\<close> and \<open>BPF_SNPRINTF\<close> pack their arguments in the same way. Of a call: the file or
  the buffer and its size, the format, its size where it is passed, the array and its size in bytes.\<close>

datatype format_call =
    Bpf_seq_printf u64 string nat "u64 list" nat
  | Bpf_snprintf u64 u32 string "u64 list" nat

definition BPF_SEQ_PRINTF :: "(nat \<Rightarrow> u64) \<Rightarrow> u64 \<Rightarrow> string \<Rightarrow> u64 list \<Rightarrow> format_call option" where
  "BPF_SEQ_PRINTF junk seq fmt args = (case bpf_narg args of
     Some (Count n) \<Rightarrow> do {
       param \<leftarrow> bpf_fill (map junk [0..<n]) args;
       Some (Bpf_seq_printf seq fmt (length fmt + 1) param (8 * length param))
     }
   | _ \<Rightarrow> None)"

definition BPF_SNPRINTF :: "(nat \<Rightarrow> u64) \<Rightarrow> u64 \<Rightarrow> u32 \<Rightarrow> string \<Rightarrow> u64 list \<Rightarrow> format_call option" where
  "BPF_SNPRINTF junk out out_size fmt args = (case bpf_narg args of
     Some (Count n) \<Rightarrow> do {
       param \<leftarrow> bpf_fill (map junk [0..<n]) args;
       Some (Bpf_snprintf out out_size fmt param (8 * length param))
     }
   | _ \<Rightarrow> None)"

text \<open>Both pass exactly their arguments, in order, for up to twelve of them and also for none; with
  more they do not compile.\<close>

theorem format_macros_exact:
  "BPF_SEQ_PRINTF junk seq fmt args = (if length args \<le> 12
     then Some (Bpf_seq_printf seq fmt (length fmt + 1) args (8 * length args)) else None) \<and>
   BPF_SNPRINTF junk out out_size fmt args = (if length args \<le> 12
     then Some (Bpf_snprintf out out_size fmt args (8 * length args)) else None)"
  by (simp add: BPF_SEQ_PRINTF_def BPF_SNPRINTF_def bpf_narg_eq bpf_fill_eq)

section \<open>Tail call with a constant slot\<close>

text \<open>
  \<open>bpf_tail_call_static\<close> loads the three registers and calls by number; a slot that is not a
  constant makes the build fail. A call is its number and its registers from \<open>r1\<close> on.
\<close>

definition bpf_tail_call_static :: "u64 \<Rightarrow> u64 \<Rightarrow> bool \<Rightarrow> u32 \<Rightarrow> (nat \<times> u64 list) option" where
  "bpf_tail_call_static ctx prog_map constant slot =
     (if \<not> constant then None else Some (12, [ctx, prog_map, ucast slot]))"

section \<open>Kernel versions\<close>

definition KERNEL_VERSION :: "int \<Rightarrow> int \<Rightarrow> int \<Rightarrow> int" where
  "KERNEL_VERSION a b c = push_bit 16 a + push_bit 8 b + (if c > 255 then 255 else c)"

end
