(* ===== verification/Calls.thy ===== *)
theory Calls
  imports Kernel_Abi Macros
begin

text \<open>
  The calls the data plane makes into the kernel, checked against the declarations of
  bpf_helper_defs.h. A program reaches a helper by loading up to five registers and calling a
  number, and nothing checks the registers against the helper at that point, so the C types at the
  call are all there is. For each C function this theory lists its calls, in source order, with the
  types of the arguments; the judgement \<open>call_ok\<close> is C's rule for arguments and results.
\<close>

section \<open>C's conversions\<close>

fun is_integer :: "c_type \<Rightarrow> bool" where
  "is_integer (Const t) = is_integer t"
| "is_integer t = (t \<in> {Int_t, Long_t, Ulong_t, U16_t, U32_t, U64_t, S32_t, S64_t, Be16_t, Be32_t,
     Wsum_t, Char_t, U8_t, Bool_t})"

fun unconst :: "c_type \<Rightarrow> c_type" where
  "unconst (Const t) = t"
| "unconst t = t"

fun is_const :: "c_type \<Rightarrow> bool" where
  "is_const (Const _) = True"
| "is_const _ = False"

text \<open>
  A value converts implicitly between integers, and between pointers when one side points to
  \<open>void\<close> or both to the same type, and \<open>const\<close> is not lost. Code pointers convert to
  \<open>void *\<close> as clang allows.
\<close>

fun converts :: "c_type \<Rightarrow> c_type \<Rightarrow> bool" where
  "converts (Ptr a) (Ptr b) \<longleftrightarrow>
     (unconst a = Void \<or> unconst b = Void \<or> unconst a = unconst b) \<and> (is_const a \<longrightarrow> is_const b)"
| "converts a b \<longleftrightarrow> is_integer a \<and> is_integer b"

fun is_pointer :: "c_type \<Rightarrow> bool" where
  "is_pointer (Ptr _) = True"
| "is_pointer _ = False"

text \<open>Arguments against parameters; what \<open>...\<close> takes must be a scalar.\<close>

fun args_ok :: "c_type list \<Rightarrow> c_type list \<Rightarrow> bool" where
  "args_ok as [Varargs] \<longleftrightarrow> (\<forall>a\<in>set as. is_integer a \<or> is_pointer a)"
| "args_ok [] [] \<longleftrightarrow> True"
| "args_ok (a # as) (p # ps) \<longleftrightarrow> converts a p \<and> args_ok as ps"
| "args_ok _ _ \<longleftrightarrow> False"

section \<open>Calls\<close>

text \<open>
  A call in the source: a helper with its argument types and the type its result is stored in or
  compared with, if it is used, or \<open>bpf_printk\<close> with the types of what it prints.
\<close>

datatype source_call =
    Helper string "c_type list" "c_type option"
  | Printk "c_type list"

text \<open>What \<open>bpf_printk\<close> becomes (bpf_helpers.h): the macro chooses by the number of arguments.\<close>

fun helper_used :: "source_call \<Rightarrow> (string \<times> c_type list \<times> c_type option) option" where
  "helper_used (Helper n as r) = Some (n, as, r)"
| "helper_used (Printk as) = (case bpf_pick_printk as of
     Some Printk_name \<Rightarrow> Some (''trace_printk'', Ptr (Const Char_t) # Ulong_t # as, None)
   | Some Vprintk_name \<Rightarrow>
       Some (''trace_vprintk'', [Ptr (Const Char_t), Ulong_t, Ptr U64_t, Ulong_t], None)
   | _ \<Rightarrow> None)"

definition call_ok :: "source_call \<Rightarrow> bool" where
  "call_ok c = (case helper_used c of None \<Rightarrow> False | Some (n, as, r) \<Rightarrow>
     list_ex (\<lambda>(m, i, t, ps). m = n \<and> args_ok as ps \<and> length as \<le> 5 \<and>
       (case r of None \<Rightarrow> True | Some u \<Rightarrow> converts t u)) bpf_helpers)"

section \<open>The calls of each function\<close>

abbreviation ctx_t :: c_type where "ctx_t \<equiv> Ptr (Struct ''xdp_md'')"
abbreviation skb_t :: c_type where "skb_t \<equiv> Ptr (Struct ''__sk_buff'')"
abbreviation map_t :: "string \<Rightarrow> c_type" where "map_t n \<equiv> Ptr (Struct n)"

abbreviation lookup_call :: "string \<Rightarrow> c_type \<Rightarrow> string \<Rightarrow> source_call" where
  "lookup_call m k v \<equiv> Helper ''map_lookup_elem'' [map_t m, Ptr k] (Some (Ptr (Struct v)))"

abbreviation lock_calls :: "source_call list" where
  "lock_calls \<equiv> [Helper ''spin_lock'' [Ptr (Struct ''bpf_spin_lock'')] None,
     Helper ''spin_unlock'' [Ptr (Struct ''bpf_spin_lock'')] None]"

definition xdp_process_calls :: "source_call list" where
  "xdp_process_calls =
     [Printk [U32_t],
      lookup_call ''xdp_forward_config_cache'' U32_t ''forward_config'', Printk [],
      lookup_call ''iface_config_map'' U32_t ''iface_config_item'', Printk [U32_t]] @ lock_calls @
     [Helper ''tail_call'' [ctx_t, map_t ''xdp_jmp_table'', Int_t] None,
      Helper ''tail_call'' [ctx_t, map_t ''xdp_jmp_table'', Int_t] None, Printk [U16_t, U32_t]]"

definition print_mac_calls :: "source_call list" where
  "print_mac_calls = [Printk [U8_t, U8_t, U8_t], Printk [U8_t, U8_t, U8_t]]"

definition xdp_l2_process_calls :: "source_call list" where
  "xdp_l2_process_calls =
     [Printk [U32_t], lookup_call ''xdp_forward_config_cache'' U32_t ''forward_config'', Printk [],
      Printk [], Printk [], Printk [], Printk [], Printk [], Printk [], Printk [], Printk [U32_t],
      Printk [], Printk [], Printk [U8_t, U8_t, U8_t, U8_t, U8_t, U8_t, U32_t],
      lookup_call ''iface_config_map'' U32_t ''iface_config_item'', Printk [U32_t]] @ lock_calls"

definition xdp_l3_process_calls :: "source_call list" where
  "xdp_l3_process_calls =
     [lookup_call ''xdp_forward_config_cache'' U32_t ''forward_config'', Printk [], Printk [Int_t],
      Printk [], Printk [], Printk [U16_t]]"

definition tc_ingress_calls :: "source_call list" where
  "tc_ingress_calls =
     [Printk [U32_t], Helper ''tail_call'' [skb_t, map_t ''tc_jmp_table'', Int_t] None,
      Helper ''tail_call'' [skb_t, map_t ''tc_jmp_table'', Int_t] None]"

definition fdb_learning_calls :: "source_call list" where
  "fdb_learning_calls =
     [lookup_call ''fdb_table'' (Struct ''fdb_key'') ''fdb_value_item'',
      Helper ''ktime_get_ns'' [] (Some U64_t),
      Helper ''map_update_elem''
        [map_t ''fdb_table'', Ptr (Struct ''fdb_key''), Ptr (Struct ''fdb_value_item''), Int_t]
        (Some Int_t),
      Printk [], Printk [], Printk [], Helper ''ktime_get_ns'' [] (Some U64_t)] @
     [hd lock_calls, last lock_calls, last lock_calls, Printk []]"

definition fdb_lookup_calls :: "source_call list" where
  "fdb_lookup_calls =
     [lookup_call ''xdp_forward_config_cache'' U32_t ''forward_config'',
      lookup_call ''fdb_table'' (Struct ''fdb_key'') ''fdb_value_item''] @ lock_calls"

definition fdb_flood_tag_calls :: "source_call list" where
  "fdb_flood_tag_calls = [Helper ''xdp_adjust_meta'' [ctx_t, Int_t] (Some Int_t)]"

definition xdp_send_calls :: "source_call list" where
  "xdp_send_calls =
     [Helper ''xdp_adjust_head'' [ctx_t, Int_t] (Some Bool_t),
      Helper ''redirect'' [U32_t, Int_t] (Some Long_t),
      Helper ''redirect'' [U32_t, Int_t] (Some Long_t),
      Helper ''xdp_adjust_head'' [ctx_t, Int_t] (Some Bool_t),
      Helper ''redirect'' [U32_t, Int_t] (Some Long_t)]"

definition tc_send_calls :: "source_call list" where
  "tc_send_calls =
     [Helper ''skb_vlan_pop'' [skb_t] (Some Long_t),
      Helper ''clone_redirect'' [skb_t, U32_t, Int_t] (Some Long_t),
      Helper ''skb_vlan_push'' [skb_t, Int_t, U32_t] (Some Long_t),
      Helper ''clone_redirect'' [skb_t, U32_t, Int_t] (Some Long_t),
      Helper ''skb_vlan_push'' [skb_t, Int_t, U32_t] (Some Long_t),
      Helper ''clone_redirect'' [skb_t, U32_t, Int_t] (Some Long_t),
      Helper ''skb_vlan_pop'' [skb_t] (Some Long_t)]"

definition l2_out_calls :: "source_call list" where
  "l2_out_calls =
     [Printk [U32_t], Printk [U32_t], Printk [U32_t, U32_t], Printk [], Printk [], Printk [],
      Printk [], Printk [U32_t, U32_t, U32_t], Printk [U32_t, Bool_t]]"

definition xdp_l2_out_calls :: "source_call list" where
  "xdp_l2_out_calls =
     [lookup_call ''xdp_forward_config_cache'' U32_t ''forward_config'', Printk [],
      Printk [U32_t, U32_t, U32_t], Printk [U32_t, U32_t, U32_t]]"

definition tc_l2_out_calls :: "source_call list" where
  "tc_l2_out_calls =
     lock_calls @ [lookup_call ''iface_config_map'' U32_t ''iface_config_item''] @ lock_calls"

definition fdb_flood_calls :: "source_call list" where
  "fdb_flood_calls =
     [Helper ''for_each_map_elem''
        [map_t ''iface_config_map'', Ptr Code, Ptr (Struct ''flood_context''), Int_t] (Some Int_t)]"

definition data_plane_calls :: "(string \<times> source_call list) list" where
  "data_plane_calls =
     [(''xdp_process'', xdp_process_calls), (''print_mac'', print_mac_calls),
      (''xdp_l2_process'', xdp_l2_process_calls), (''xdp_l3_process'', xdp_l3_process_calls),
      (''tc_ingress'', tc_ingress_calls), (''fdb_learning'', fdb_learning_calls),
      (''fdb_lookup'', fdb_lookup_calls), (''fdb_flood_tag'', fdb_flood_tag_calls),
      (''xdp_l2_send'', xdp_send_calls), (''tc_l2_send'', tc_send_calls), (''l2_out'', l2_out_calls),
      (''xdp_l2_out'', xdp_l2_out_calls), (''tc_l2_out'', tc_l2_out_calls),
      (''fdb_flood'', fdb_flood_calls)]"

lemmas call_list_defs = xdp_process_calls_def print_mac_calls_def xdp_l2_process_calls_def
  xdp_l3_process_calls_def tc_ingress_calls_def fdb_learning_calls_def fdb_lookup_calls_def
  fdb_flood_tag_calls_def xdp_send_calls_def tc_send_calls_def l2_out_calls_def
  xdp_l2_out_calls_def tc_l2_out_calls_def fdb_flood_calls_def

section \<open>They match the declarations\<close>

lemma helper_decls_subset:
  "set helper_decls_1 \<subseteq> set bpf_helpers"
  "set helper_decls_2 \<subseteq> set bpf_helpers"
  "set helper_decls_3 \<subseteq> set bpf_helpers"
  "set helper_decls_5 \<subseteq> set bpf_helpers"
  "set helper_decls_8 \<subseteq> set bpf_helpers"
  "set helper_decls_10 \<subseteq> set bpf_helpers"
  "set helper_decls_18 \<subseteq> set bpf_helpers"
  "set helper_decls_29 \<subseteq> set bpf_helpers"
  "set helper_decls_31 \<subseteq> set bpf_helpers"
  by (auto simp: bpf_helpers_def)

lemma declared_helpers:
  "(''map_lookup_elem'', 1, Ptr Void, [Ptr Void, Ptr (Const Void)]) \<in> set bpf_helpers"
  "(''map_update_elem'', 2, Long_t,
     [Ptr Void, Ptr (Const Void), Ptr (Const Void), U64_t]) \<in> set bpf_helpers"
  "(''ktime_get_ns'', 5, U64_t, []) \<in> set bpf_helpers"
  "(''trace_printk'', 6, Long_t, [Ptr (Const Char_t), U32_t, Varargs]) \<in> set bpf_helpers"
  "(''tail_call'', 12, Long_t, [Ptr Void, Ptr Void, U32_t]) \<in> set bpf_helpers"
  "(''clone_redirect'', 13, Long_t, [Ptr (Struct ''__sk_buff''), U32_t, U64_t]) \<in> set bpf_helpers"
  "(''skb_vlan_push'', 18, Long_t, [Ptr (Struct ''__sk_buff''), Be16_t, U16_t]) \<in> set bpf_helpers"
  "(''skb_vlan_pop'', 19, Long_t, [Ptr (Struct ''__sk_buff'')]) \<in> set bpf_helpers"
  "(''redirect'', 23, Long_t, [U32_t, U64_t]) \<in> set bpf_helpers"
  "(''xdp_adjust_head'', 44, Long_t, [Ptr (Struct ''xdp_md''), Int_t]) \<in> set bpf_helpers"
  "(''xdp_adjust_meta'', 54, Long_t, [Ptr (Struct ''xdp_md''), Int_t]) \<in> set bpf_helpers"
  "(''spin_lock'', 93, Long_t, [Ptr (Struct ''bpf_spin_lock'')]) \<in> set bpf_helpers"
  "(''spin_unlock'', 94, Long_t, [Ptr (Struct ''bpf_spin_lock'')]) \<in> set bpf_helpers"
  "(''for_each_map_elem'', 164, Long_t, [Ptr Void, Ptr Void, Ptr Void, U64_t]) \<in> set bpf_helpers"
  "(''trace_vprintk'', 177, Long_t,
     [Ptr (Const Char_t), U32_t, Ptr (Const Void), U32_t]) \<in> set bpf_helpers"
  by (rule helper_decls_subset [THEN subsetD], simp add: helper_decls_defs)+

lemma call_okI:
  assumes "helper_used c = Some (n, as, r)" and "(n, i, t, ps) \<in> set bpf_helpers"
    and "args_ok as ps" and "length as \<le> 5" and "case r of None \<Rightarrow> True | Some u \<Rightarrow> converts t u"
  shows "call_ok c"
  using assms by (auto simp: call_ok_def list_ex_iff split: option.splits intro!: bexI [of _ "(n, i, t, ps)"])

lemma printk_ok:
  assumes "length as \<le> 12" and "\<forall>a\<in>set as. is_integer a \<or> is_pointer a"
  shows "call_ok (Printk as)"
proof (cases "length as \<le> 3")
  case True
  then show ?thesis
    using assms
    by (intro call_okI [OF _ declared_helpers(4)], simp add: bpf_pick_printk_eq) simp_all
next
  case False
  then show ?thesis
    using assms
    by (intro call_okI [OF _ declared_helpers(15)], simp add: bpf_pick_printk_eq) simp_all
qed

lemma lock_calls_ok: "list_all call_ok lock_calls"
  unfolding list.pred_inject
  by (intro conjI TrueI) (rule call_okI, simp, rule declared_helpers, simp_all)+

lemma lookup_call_ok: "call_ok (lookup_call m k v)"
  by (rule call_okI, simp, rule declared_helpers, simp_all)

lemma fdb_calls_ok:
  "call_ok (Helper ''ktime_get_ns'' [] (Some U64_t))"
  "call_ok (Helper ''map_update_elem'' [map_t m, Ptr (Struct k), Ptr (Struct v), Int_t] (Some Int_t))"
  by (rule call_okI, simp, rule declared_helpers, simp_all)+

lemma send_calls_ok:
  "call_ok (Helper ''xdp_adjust_head'' [ctx_t, Int_t] (Some Bool_t))"
  "call_ok (Helper ''xdp_adjust_meta'' [ctx_t, Int_t] (Some Int_t))"
  "call_ok (Helper ''redirect'' [U32_t, Int_t] (Some Long_t))"
  "call_ok (Helper ''skb_vlan_pop'' [skb_t] (Some Long_t))"
  "call_ok (Helper ''skb_vlan_push'' [skb_t, Int_t, U32_t] (Some Long_t))"
  "call_ok (Helper ''clone_redirect'' [skb_t, U32_t, Int_t] (Some Long_t))"
  by (rule call_okI, simp, rule declared_helpers, simp_all)+

lemma control_calls_ok:
  "call_ok (Helper ''tail_call'' [Ptr (Struct c), map_t m, Int_t] None)"
  "call_ok (Helper ''for_each_map_elem'' [map_t m, Ptr Code, Ptr (Struct c), Int_t] (Some Int_t))"
  by (rule call_okI, simp, rule declared_helpers, simp_all)+




end
