(* ===== verification/Endian.thy ===== *)
theory Endian
  imports Prelude
begin

text \<open>
  bpf_endian.h. The macro \<open>___bpf_mvb\<close> moves one byte of an unsigned integer; the constant
  byte swaps are built from it, the others are the compiler's \<open>__builtin_bswap\<close>. For
  16-bit operands C promotes to \<open>int\<close> before it shifts, so the intermediate values keep bits
  above bit 15; the final cast drops them. The object is built with \<open>-target bpfel\<close> (gen.go),
  which selects the little-endian branch of the header.
\<close>

section \<open>The macros\<close>

definition bpf_mvb16 :: "u16 \<Rightarrow> nat \<Rightarrow> nat \<Rightarrow> u32" where
  "bpf_mvb16 x n m =
     push_bit (m * 8) (drop_bit (16 - 8) (push_bit (16 - (n + 1) * 8) (ucast x :: u32)))"

definition bpf_mvb32 :: "u32 \<Rightarrow> nat \<Rightarrow> nat \<Rightarrow> u32" where
  "bpf_mvb32 x n m = push_bit (m * 8) (drop_bit (32 - 8) (push_bit (32 - (n + 1) * 8) x))"

definition bpf_mvb64 :: "u64 \<Rightarrow> nat \<Rightarrow> nat \<Rightarrow> u64" where
  "bpf_mvb64 x n m = push_bit (m * 8) (drop_bit (64 - 8) (push_bit (64 - (n + 1) * 8) x))"

definition bpf_swab16 :: "u16 \<Rightarrow> u16" where
  "bpf_swab16 x = ucast (bpf_mvb16 x 0 1 OR bpf_mvb16 x 1 0)"

definition bpf_swab32 :: "u32 \<Rightarrow> u32" where
  "bpf_swab32 x = bpf_mvb32 x 0 3 OR bpf_mvb32 x 1 2 OR bpf_mvb32 x 2 1 OR bpf_mvb32 x 3 0"

definition bpf_swab64 :: "u64 \<Rightarrow> u64" where
  "bpf_swab64 x =
     bpf_mvb64 x 0 7 OR bpf_mvb64 x 1 6 OR bpf_mvb64 x 2 5 OR bpf_mvb64 x 3 4 OR
     bpf_mvb64 x 4 3 OR bpf_mvb64 x 5 2 OR bpf_mvb64 x 6 1 OR bpf_mvb64 x 7 0"

text \<open>The compiler's built-ins reverse the bytes of their operand.\<close>

definition bswap16 :: "u16 \<Rightarrow> u16" where
  "bswap16 x = of_nat (le_dec (rev (le_enc 2 (unat x))))"

definition bswap32 :: "u32 \<Rightarrow> u32" where
  "bswap32 x = of_nat (le_dec (rev (le_enc 4 (unat x))))"

definition bswap64 :: "u64 \<Rightarrow> u64" where
  "bswap64 x = of_nat (le_dec (rev (le_enc 8 (unat x))))"

text \<open>
  The conversion macros choose by \<open>__builtin_constant_p\<close>, which is the first argument.
\<close>

definition bpf_htons :: "bool \<Rightarrow> u16 \<Rightarrow> u16" where
  "bpf_htons const x = (if const then bpf_swab16 x else bswap16 x)"

definition bpf_ntohs :: "bool \<Rightarrow> u16 \<Rightarrow> u16" where
  "bpf_ntohs const x = (if const then bpf_swab16 x else bswap16 x)"

definition bpf_htonl :: "bool \<Rightarrow> u32 \<Rightarrow> u32" where
  "bpf_htonl const x = (if const then bpf_swab32 x else bswap32 x)"

definition bpf_ntohl :: "bool \<Rightarrow> u32 \<Rightarrow> u32" where
  "bpf_ntohl const x = (if const then bpf_swab32 x else bswap32 x)"

definition bpf_cpu_to_be64 :: "bool \<Rightarrow> u64 \<Rightarrow> u64" where
  "bpf_cpu_to_be64 const x = (if const then bpf_swab64 x else bswap64 x)"

definition bpf_be64_to_cpu :: "bool \<Rightarrow> u64 \<Rightarrow> u64" where
  "bpf_be64_to_cpu const x = (if const then bpf_swab64 x else bswap64 x)"

section \<open>The shift formulation and the byte formulation agree\<close>

text \<open>
  Moving byte \<open>n\<close> to byte \<open>m\<close> is: take the byte out, and shift it into place.
\<close>

lemma bpf_mvb32_eq:
  assumes "n < 4"
  shows "bpf_mvb32 x n m = push_bit (8 * m) (take_bit 8 (drop_bit (8 * n) x))"
proof (rule bit_word_eqI)
  fix i assume i: "i < LENGTH(32)"
  from assms have "n = 0 \<or> n = 1 \<or> n = 2 \<or> n = 3" by auto
  then show "bit (bpf_mvb32 x n m) i = bit (push_bit (8 * m) (take_bit 8 (drop_bit (8 * n) x))) i"
    using i by (auto simp: bpf_mvb32_def bit_simps ac_simps dest: bit_imp_le_length)
qed

lemma bpf_mvb64_eq:
  assumes "n < 8"
  shows "bpf_mvb64 x n m = push_bit (8 * m) (take_bit 8 (drop_bit (8 * n) x))"
proof (rule bit_word_eqI)
  fix i assume i: "i < LENGTH(64)"
  from assms have "n = 0 \<or> n = 1 \<or> n = 2 \<or> n = 3 \<or> n = 4 \<or> n = 5 \<or> n = 6 \<or> n = 7" by auto
  then show "bit (bpf_mvb64 x n m) i = bit (push_bit (8 * m) (take_bit 8 (drop_bit (8 * n) x))) i"
    using i by (auto simp: bpf_mvb64_def bit_simps ac_simps dest: bit_imp_le_length)
qed

text \<open>After the move, byte \<open>q\<close> of the result is byte \<open>n\<close> of the operand where \<open>q = m\<close>.\<close>

lemma moved_byte_iff:
  fixes m q r :: nat
  shows "r < 8 \<Longrightarrow> (8 * m \<le> 8 * q + r \<and> 8 * q + r - 8 * m < 8) \<longleftrightarrow> m = q"
  by linarith

lemma bit_bpf_mvb32:
  assumes "n < 4" and "r < 8" and "8 * q + r < 32"
  shows "bit (bpf_mvb32 x n m) (8 * q + r) \<longleftrightarrow> m = q \<and> bit x (8 * n + r)"
  using assms moved_byte_iff [of r m q] by (auto simp: bpf_mvb32_eq bit_simps)

lemma bit_bpf_mvb64:
  assumes "n < 8" and "r < 8" and "8 * q + r < 64"
  shows "bit (bpf_mvb64 x n m) (8 * q + r) \<longleftrightarrow> m = q \<and> bit x (8 * n + r)"
  using assms moved_byte_iff [of r m q] by (auto simp: bpf_mvb64_eq bit_simps)

lemma byte_position: obtains q r :: nat where "i = 8 * q + r" and "r < 8"
  by (metis mod_less_divisor mult_div_mod_eq zero_less_numeral)

lemma bit_bpf_swab16:
  assumes "i < 16"
  shows "bit (bpf_swab16 x) i = bit x (8 * (1 - i div 8) + i mod 8)"
proof -
  obtain q r where i: "i = 8 * q + r" "r < 8" by (rule byte_position)
  with assms have "q = 0 \<or> q = 1" by auto
  with i show ?thesis
    by (auto simp: bpf_swab16_def bpf_mvb16_def bit_simps ac_simps dest: bit_imp_le_length)
qed

lemma bit_bpf_swab32:
  assumes "i < 32"
  shows "bit (bpf_swab32 x) i = bit x (8 * (3 - i div 8) + i mod 8)"
proof -
  obtain q r where i: "i = 8 * q + r" "r < 8" by (rule byte_position)
  with assms have "q = 0 \<or> q = 1 \<or> q = 2 \<or> q = 3" by auto
  moreover have "bit (bpf_swab32 x) (8 * q + r) \<longleftrightarrow>
    q = 3 \<and> bit x (8 * 0 + r) \<or> q = 2 \<and> bit x (8 * 1 + r) \<or>
    q = 1 \<and> bit x (8 * 2 + r) \<or> q = 0 \<and> bit x (8 * 3 + r)"
    using i assms by (auto simp: bpf_swab32_def bit_or_iff bit_bpf_mvb32 simp del: mult_0_right)
  ultimately show ?thesis using i by auto
qed

lemma bit_bpf_swab64:
  assumes "i < 64"
  shows "bit (bpf_swab64 x) i = bit x (8 * (7 - i div 8) + i mod 8)"
proof -
  obtain q r where i: "i = 8 * q + r" "r < 8" by (rule byte_position)
  with assms have "q = 0 \<or> q = 1 \<or> q = 2 \<or> q = 3 \<or> q = 4 \<or> q = 5 \<or> q = 6 \<or> q = 7" by auto
  moreover have "bit (bpf_swab64 x) (8 * q + r) \<longleftrightarrow>
    7 = q \<and> bit x (8 * 0 + r) \<or> 6 = q \<and> bit x (8 * 1 + r) \<or>
    5 = q \<and> bit x (8 * 2 + r) \<or> 4 = q \<and> bit x (8 * 3 + r) \<or>
    3 = q \<and> bit x (8 * 4 + r) \<or> 2 = q \<and> bit x (8 * 5 + r) \<or>
    1 = q \<and> bit x (8 * 6 + r) \<or> 0 = q \<and> bit x (8 * 7 + r)"
    using i assms by (simp add: bpf_swab64_def bit_or_iff bit_bpf_mvb64 del: mult_0_right)
  moreover have "i div 8 = q" and "i mod 8 = r" using i by simp_all
  ultimately show ?thesis unfolding i(1) by (elim disjE) simp_all
qed

text \<open>Reversing \<open>n\<close> bytes moves bit \<open>i\<close> of byte \<open>q\<close> to bit \<open>i\<close> of byte \<open>n - 1 - q\<close>.\<close>

lemma bit_reverse_bytes:
  assumes "i div 8 < n"
  shows "bit (le_dec (rev (le_enc n x))) i = bit x (8 * (n - 1 - i div 8) + i mod 8)"
  using assms by (simp add: bit_le_dec rev_nth bit_nth_le_enc)

lemma swab_eqs:
  "bpf_swab16 x = bswap16 x" "bpf_swab32 y = bswap32 y" "bpf_swab64 z = bswap64 z"
  by (rule bit_word_eqI, simp add: bit_bpf_swab16 bit_bpf_swab32 bit_bpf_swab64 bswap16_def
    bswap32_def bswap64_def bit_of_nat_iff bit_reverse_bytes bit_unsigned_iff)+

text \<open>The constant-folding byte swaps of the header compute what the compiler's built-ins
  compute, at every width.\<close>

theorem swab_eq_bswap:
  "bpf_swab16 x = bswap16 x \<and> bpf_swab32 y = bswap32 y \<and> bpf_swab64 z = bswap64 z"
  by (simp add: swab_eqs)

section \<open>Conversions\<close>

lemma bpf_swab16_swab16 [simp]: "bpf_swab16 (bpf_swab16 x) = x"
proof (rule bit_word_eqI)
  fix i assume "i < LENGTH(16)"
  then have i: "i < 16" by simp
  obtain q r where q: "i = 8 * q + r" "r < 8" by (rule byte_position)
  with i have "q = 0 \<or> q = 1" by auto
  with q show "bit (bpf_swab16 (bpf_swab16 x)) i = bit x i"
    by (auto simp: bit_bpf_swab16)
qed

lemma bpf_swab32_swab32 [simp]: "bpf_swab32 (bpf_swab32 x) = x"
proof (rule bit_word_eqI)
  fix i assume "i < LENGTH(32)"
  then have i: "i < 32" by simp
  obtain q r where q: "i = 8 * q + r" "r < 8" by (rule byte_position)
  with i have "q < 4" by auto
  with q show "bit (bpf_swab32 (bpf_swab32 x)) i = bit x i"
    by (simp add: bit_bpf_swab32)
qed

lemma bpf_swab64_swab64 [simp]: "bpf_swab64 (bpf_swab64 x) = x"
proof (rule bit_word_eqI)
  fix i assume "i < LENGTH(64)"
  then have i: "i < 64" by simp
  obtain q r where q: "i = 8 * q + r" "r < 8" by (rule byte_position)
  with i have "q < 8" by auto
  with q show "bit (bpf_swab64 (bpf_swab64 x)) i = bit x i"
    by (simp add: bit_bpf_swab64)
qed

text \<open>Converting to network order and back is the identity, whichever of the two
  implementations the compiler picks on either side.\<close>

theorem network_order_roundtrip:
  "bpf_ntohs c (bpf_htons d x) = x \<and> bpf_ntohl c (bpf_htonl d y) = y \<and>
   bpf_be64_to_cpu c (bpf_cpu_to_be64 d z) = z"
  by (simp add: bpf_ntohs_def bpf_htons_def bpf_ntohl_def bpf_htonl_def bpf_be64_to_cpu_def
    bpf_cpu_to_be64_def swab_eqs [symmetric])

lemma ntohs_word16: "bpf_ntohs c (word16 [hi, lo]) = of_nat (256 * unat hi + unat lo)"
proof -
  have "unat (word16 [hi, lo]) = le_dec [hi, lo]" by (rule unat_word16) simp
  moreover have "le_enc 2 (le_dec [hi, lo]) = [hi, lo]"
    using le_enc_dec [of "[hi, lo]"] by (simp add: numeral_2_eq_2)
  moreover have "le_dec [lo, hi] = 256 * unat hi + unat lo" by simp
  ultimately have "bswap16 (word16 [hi, lo]) = of_nat (256 * unat hi + unat lo)"
    by (simp only: bswap16_def rev.simps append.simps)
  then show ?thesis by (simp only: bpf_ntohs_def swab_eqs if_cancel)
qed

text \<open>A value in network order lies in memory with its high byte first.\<close>

lemma bytes16_htons: "bytes16 (bpf_htons c x) = [of_nat (unat x div 256), of_nat (unat x)]"
proof -
  have "bpf_htons c x = word16 (rev (le_enc 2 (unat x)))"
    by (simp add: bpf_htons_def swab_eqs bswap16_def word16_def)
  then have "bytes16 (bpf_htons c x) = rev (le_enc 2 (unat x))"
    by (simp add: bytes16_word16)
  then show ?thesis by (simp only: le_enc_2 rev.simps append.simps)
qed

text \<open>A 16-bit header field of the packet, loaded by the little-endian machine and passed
  through \<open>bpf_ntohs\<close>, is the big-endian number its two bytes spell.\<close>

theorem ntohs_reads_big_endian:
  "unat (bpf_ntohs c (word16 [hi, lo])) = 256 * unat hi + unat lo"
proof -
  have "unat hi < 256" "unat lo < 256" using unat_less [of hi] unat_less [of lo] by simp_all
  then show ?thesis
    unfolding ntohs_word16 by (simp add: unsigned_of_nat take_bit_eq_mod del: of_nat_add of_nat_mult)
qed

text \<open>The byte-order layer is exact. The header's constant-folding byte swaps compute what the
  compiler's built-ins compute, at every width; converting to network order and back is the
  identity, whichever of the two the compiler picks on either side; and \<open>bpf_ntohs\<close> of a field
  loaded by the little-endian machine is the big-endian number that its two bytes spell.\<close>

theorem byte_order_exact:
  "bpf_swab16 x = bswap16 x \<and> bpf_swab32 y = bswap32 y \<and> bpf_swab64 z = bswap64 z \<and>
   bpf_ntohs c (bpf_htons d x) = x \<and> bpf_ntohl c (bpf_htonl d y) = y \<and>
   bpf_be64_to_cpu c (bpf_cpu_to_be64 d z) = z \<and>
   unat (bpf_ntohs c (word16 [hi, lo])) = 256 * unat hi + unat lo"
  by (simp add: swab_eqs network_order_roundtrip ntohs_reads_big_endian)

section \<open>Both byte orders\<close>

text \<open>
  The header has a branch for each byte order of the machine, which the argument \<open>big\<close> selects.
  On a big-endian machine every conversion is the identity. The definitions above are the
  little-endian branch, which the object of the data plane is built with.
\<close>

definition htons_on :: "bool \<Rightarrow> bool \<Rightarrow> u16 \<Rightarrow> u16" where
  "htons_on big const x = (if big then x else bpf_htons const x)"

definition ntohs_on :: "bool \<Rightarrow> bool \<Rightarrow> u16 \<Rightarrow> u16" where
  "ntohs_on big const x = (if big then x else bpf_ntohs const x)"

definition htonl_on :: "bool \<Rightarrow> bool \<Rightarrow> u32 \<Rightarrow> u32" where
  "htonl_on big const x = (if big then x else bpf_htonl const x)"

definition ntohl_on :: "bool \<Rightarrow> bool \<Rightarrow> u32 \<Rightarrow> u32" where
  "ntohl_on big const x = (if big then x else bpf_ntohl const x)"

definition cpu_to_be64_on :: "bool \<Rightarrow> bool \<Rightarrow> u64 \<Rightarrow> u64" where
  "cpu_to_be64_on big const x = (if big then x else bpf_cpu_to_be64 const x)"

definition be64_to_cpu_on :: "bool \<Rightarrow> bool \<Rightarrow> u64 \<Rightarrow> u64" where
  "be64_to_cpu_on big const x = (if big then x else bpf_be64_to_cpu const x)"

text \<open>The bytes of an integer in the memory of a machine of either order.\<close>

definition lies_as :: "bool \<Rightarrow> nat \<Rightarrow> nat \<Rightarrow> u8 list" where
  "lies_as big n x = (if big then rev (le_enc n x) else le_enc n x)"

lemma le_enc_reversed:
  "le_enc n (le_dec (rev (le_enc n x))) = rev (le_enc n x)"
  using le_enc_dec [of "rev (le_enc n x)"] by simp

lemma unat_bswap16: "unat (bswap16 x) = le_dec (rev (le_enc 2 (unat x)))"
  using le_dec_bound [of "rev (le_enc 2 (unat x))"]
  by (simp add: bswap16_def unsigned_of_nat take_bit_eq_mod)

lemma unat_bswap32: "unat (bswap32 x) = le_dec (rev (le_enc 4 (unat x)))"
  using le_dec_bound [of "rev (le_enc 4 (unat x))"]
  by (simp add: bswap32_def unsigned_of_nat take_bit_eq_mod)

lemma unat_bswap64: "unat (bswap64 x) = le_dec (rev (le_enc 8 (unat x)))"
  using le_dec_bound [of "rev (le_enc 8 (unat x))"]
  by (simp add: bswap64_def unsigned_of_nat take_bit_eq_mod)

lemmas on_branch_defs = htons_on_def ntohs_on_def htonl_on_def ntohl_on_def cpu_to_be64_on_def
  be64_to_cpu_on_def bpf_htons_def bpf_ntohs_def bpf_htonl_def bpf_ntohl_def bpf_cpu_to_be64_def
  bpf_be64_to_cpu_def

text \<open>On a machine of either byte order, a value converted to network order lies in memory with
  its highest byte first, and converting back gives the value.\<close>

theorem network_order_on_either_machine:
  "lies_as big 2 (unat (htons_on big c x)) = rev (le_enc 2 (unat x)) \<and>
   lies_as big 4 (unat (htonl_on big c y)) = rev (le_enc 4 (unat y)) \<and>
   lies_as big 8 (unat (cpu_to_be64_on big c z)) = rev (le_enc 8 (unat z)) \<and>
   ntohs_on big d (htons_on big c x) = x \<and> ntohl_on big d (htonl_on big c y) = y \<and>
   be64_to_cpu_on big d (cpu_to_be64_on big c z) = z"
  using network_order_roundtrip [of d c x y z]
  by (auto simp: on_branch_defs lies_as_def swab_eqs unat_bswap16 unat_bswap32 unat_bswap64
    le_enc_reversed)

end
