(* ===== verification/Packet.thy ===== *)
theory Packet
  imports Endian
begin

text \<open>
  The packet side of the kernel interface: the structures of vmlinux.h the programs use, the
  constants of linux_header.h, and packet memory. A pointer is a 64-bit address; a context
  holds 32-bit addresses that the programs widen with \<open>(void *)(long)\<close>. Memory maps addresses
  to bytes. A checked access outside the packet (or the metadata area) is a fault.
\<close>

section \<open>Structures and constants\<close>

type_synonym addr = u64
type_synonym memory = "addr \<Rightarrow> u8"

record xdp_md =
  data :: u32
  data_end :: u32
  data_meta :: u32
  ingress_ifindex :: u32
  rx_queue_index :: u32
  egress_ifindex :: u32

record ethhdr =
  h_dest :: "u8 list"
  h_source :: "u8 list"
  h_proto :: u16

record vlan_hdr =
  h_vlan_TCI :: u16
  h_vlan_encapsulated_proto :: u16

datatype xdp_action = XDP_ABORTED | XDP_DROP | XDP_PASS | XDP_TX | XDP_REDIRECT

fun xdp_action_val :: "xdp_action \<Rightarrow> int" where
  "xdp_action_val XDP_ABORTED = 0"
| "xdp_action_val XDP_DROP = 1"
| "xdp_action_val XDP_PASS = 2"
| "xdp_action_val XDP_TX = 3"
| "xdp_action_val XDP_REDIRECT = 4"

text \<open>Error numbers and TC verdicts (linux_header.h).\<close>

definition E2BIG :: int where "E2BIG = 7"
definition EEXIST :: int where "EEXIST = 17"
definition TC_ACT_UNSPEC :: int where "TC_ACT_UNSPEC = -1"
definition TC_ACT_OK :: int where "TC_ACT_OK = 0"
definition TC_ACT_RECLASSIFY :: int where "TC_ACT_RECLASSIFY = 1"
definition TC_ACT_SHOT :: int where "TC_ACT_SHOT = 2"
definition TC_ACT_PIPE :: int where "TC_ACT_PIPE = 3"
definition TC_ACT_STOLEN :: int where "TC_ACT_STOLEN = 4"
definition TC_ACT_QUEUED :: int where "TC_ACT_QUEUED = 5"
definition TC_ACT_REPEAT :: int where "TC_ACT_REPEAT = 6"
definition TC_ACT_REDIRECT :: int where "TC_ACT_REDIRECT = 7"
definition TC_ACT_TRAP :: int where "TC_ACT_TRAP = 8"
definition TC_ACT_VALUE_MAX :: int where "TC_ACT_VALUE_MAX = TC_ACT_TRAP"

lemmas tc_act_defs = TC_ACT_UNSPEC_def TC_ACT_OK_def TC_ACT_RECLASSIFY_def TC_ACT_SHOT_def
  TC_ACT_PIPE_def TC_ACT_STOLEN_def TC_ACT_QUEUED_def TC_ACT_REPEAT_def TC_ACT_REDIRECT_def
  TC_ACT_TRAP_def TC_ACT_VALUE_MAX_def

text \<open>Sizes, as the compiler lays the structures out.\<close>

definition sizeof_ethhdr :: nat where "sizeof_ethhdr = 14"
definition sizeof_vlan_hdr :: nat where "sizeof_vlan_hdr = 4"
definition sizeof_arphdr :: nat where "sizeof_arphdr = 8"

lemmas sizeof_defs = sizeof_ethhdr_def sizeof_vlan_hdr_def sizeof_arphdr_def

section \<open>Pointers\<close>

definition ptr :: "u32 \<Rightarrow> addr" where
  "ptr d = ucast d"

definition ptr_add :: "addr \<Rightarrow> nat \<Rightarrow> addr" where
  "ptr_add p n = p + of_nat n"

lemma unat_ptr [simp]: "unat (ptr d) = unat d"
  by (simp add: ptr_def)

lemma ptr_add_0 [simp]: "ptr_add p 0 = p"
  by (simp add: ptr_add_def)

lemma ptr_add_add [simp]: "ptr_add (ptr_add p m) n = ptr_add p (m + n)"
  by (simp add: ptr_add_def)

lemma unat_ptr_add: "unat p + n < 2 ^ 64 \<Longrightarrow> unat (ptr_add p n) = unat p + n"
  by (simp add: ptr_add_def unat_word_ariths unsigned_of_nat take_bit_eq_mod)

lemma unat_ptr_add_ptr [simp]:
  "n < 4294967296 \<Longrightarrow> unat (ptr_add (ptr d) n) = unat d + n"
  using unat_u32_less [of d] by (simp add: unat_ptr_add)

section \<open>Memory\<close>

definition load_bytes :: "memory \<Rightarrow> addr \<Rightarrow> nat \<Rightarrow> u8 list" where
  "load_bytes m p n = map (\<lambda>i. m (ptr_add p i)) [0..<n]"

definition store_bytes :: "memory \<Rightarrow> addr \<Rightarrow> u8 list \<Rightarrow> memory" where
  "store_bytes m p bs =
     (\<lambda>a. if unat p \<le> unat a \<and> unat a < unat p + length bs then bs ! (unat a - unat p) else m a)"

lemma length_load_bytes [simp]: "length (load_bytes m p n) = n"
  by (simp add: load_bytes_def)

lemma nth_load_bytes [simp]: "i < n \<Longrightarrow> load_bytes m p n ! i = m (ptr_add p i)"
  by (simp add: load_bytes_def)

lemma load_bytes_0 [simp]: "load_bytes m p 0 = []"
  by (simp add: load_bytes_def)

lemma load_bytes_cong:
  "(\<And>i. i < n \<Longrightarrow> m (ptr_add p i) = m' (ptr_add q i)) \<Longrightarrow> load_bytes m p n = load_bytes m' q n"
  by (simp add: load_bytes_def)

lemma load_store_same:
  assumes "unat p + length bs \<le> 2 ^ 64" and "n = length bs"
  shows "load_bytes (store_bytes m p bs) p n = bs"
  using assms by (auto intro!: nth_equalityI simp: store_bytes_def unat_ptr_add)

lemma load_store_disjoint:
  assumes "unat p + n \<le> 2 ^ 64" and "unat p + n \<le> unat q \<or> unat q + length bs \<le> unat p"
  shows "load_bytes (store_bytes m q bs) p n = load_bytes m p n"
  using assms by (auto intro!: load_bytes_cong simp: store_bytes_def unat_ptr_add)

lemma store_bytes_append:
  assumes "unat p + length xs + length ys \<le> 2 ^ 64" and "ys \<noteq> []"
  shows "store_bytes (store_bytes m p xs) (ptr_add p (length xs)) ys = store_bytes m p (xs @ ys)"
proof -
  have p: "unat (ptr_add p (length xs)) = unat p + length xs"
    using assms by (cases ys) (simp_all add: unat_ptr_add)
  show ?thesis by (rule ext) (auto simp: store_bytes_def p nth_append)
qed

section \<open>Access checks\<close>

definition pkt_access :: "xdp_md \<Rightarrow> addr \<Rightarrow> nat \<Rightarrow> bool" where
  "pkt_access c p n \<longleftrightarrow> unat (data c) \<le> unat p \<and> unat p + n \<le> unat (data_end c)"

definition meta_access :: "xdp_md \<Rightarrow> addr \<Rightarrow> nat \<Rightarrow> bool" where
  "meta_access c p n \<longleftrightarrow> unat (data_meta c) \<le> unat p \<and> unat p + n \<le> unat (data c)"

definition pkt_load :: "xdp_md \<Rightarrow> memory \<Rightarrow> addr \<Rightarrow> nat \<Rightarrow> u8 list option" where
  "pkt_load c m p n = (if pkt_access c p n then Some (load_bytes m p n) else None)"

definition pkt_store :: "xdp_md \<Rightarrow> memory \<Rightarrow> addr \<Rightarrow> u8 list \<Rightarrow> memory option" where
  "pkt_store c m p bs = (if pkt_access c p (length bs) then Some (store_bytes m p bs) else None)"

definition meta_load :: "xdp_md \<Rightarrow> memory \<Rightarrow> addr \<Rightarrow> nat \<Rightarrow> u8 list option" where
  "meta_load c m p n = (if meta_access c p n then Some (load_bytes m p n) else None)"

definition meta_store :: "xdp_md \<Rightarrow> memory \<Rightarrow> addr \<Rightarrow> u8 list \<Rightarrow> memory option" where
  "meta_store c m p bs = (if meta_access c p (length bs) then Some (store_bytes m p bs) else None)"

text \<open>The bytes of the packet, and of the metadata area in front of it.\<close>

definition pkt_len :: "xdp_md \<Rightarrow> nat" where
  "pkt_len c = unat (data_end c) - unat (data c)"

definition pkt_bytes :: "xdp_md \<Rightarrow> memory \<Rightarrow> u8 list" where
  "pkt_bytes c m = load_bytes m (ptr (data c)) (pkt_len c)"

lemma length_pkt_bytes [simp]: "length (pkt_bytes c m) = pkt_len c"
  by (simp add: pkt_bytes_def)

lemma pkt_access_off:
  "k < 4294967296 \<Longrightarrow> pkt_access c (ptr_add (ptr (data c)) k) n \<longleftrightarrow>
     unat (data c) + k + n \<le> unat (data_end c)"
  by (simp add: pkt_access_def add.assoc)

lemma pkt_load_off:
  assumes "unat (data c) + k + n \<le> unat (data_end c)"
  shows "pkt_load c m (ptr_add (ptr (data c)) k) n = Some (take n (drop k (pkt_bytes c m)))"
proof -
  have k: "k < 4294967296" and len: "k + n \<le> pkt_len c"
    using assms unat_u32_less [of "data_end c"] by (simp_all add: pkt_len_def)
  have "take n (drop k (pkt_bytes c m)) = load_bytes m (ptr_add (ptr (data c)) k) n"
    using len by (auto intro!: nth_equalityI simp: pkt_bytes_def)
  with k assms show ?thesis by (simp add: pkt_load_def pkt_access_off)
qed

lemma pkt_load_base:
  "unat (data c) + n \<le> unat (data_end c) \<Longrightarrow>
     pkt_load c m (ptr (data c)) n = Some (take n (pkt_bytes c m))"
  using pkt_load_off [of c 0 n m] by simp

text \<open>A store inside the packet replaces a part of its bytes.\<close>

definition patch :: "nat \<Rightarrow> u8 list \<Rightarrow> u8 list \<Rightarrow> u8 list" where
  "patch k bs xs = take k xs @ bs @ drop (k + length bs) xs"

lemma length_patch [simp]: "k + length bs \<le> length xs \<Longrightarrow> length (patch k bs xs) = length xs"
  by (simp add: patch_def)

lemma nth_patch:
  "k + length bs \<le> length xs \<Longrightarrow> i < length xs \<Longrightarrow>
     patch k bs xs ! i = (if k \<le> i \<and> i < k + length bs then bs ! (i - k) else xs ! i)"
  by (auto simp: patch_def nth_append not_less)

lemma patch_same:
  "k + length bs \<le> length xs \<Longrightarrow> n = length bs \<Longrightarrow> take n (drop k (patch k bs xs)) = bs"
  by (simp add: patch_def)

lemma patch_other:
  assumes "k + length bs \<le> length xs" and "j + n \<le> k \<or> k + length bs \<le> j"
  shows "take n (drop j (patch k bs xs)) = take n (drop j xs)"
  using assms by (intro nth_equalityI) (auto simp: nth_patch)

lemma patch_head:
  "k + length bs \<le> length xs \<Longrightarrow> n \<le> k \<Longrightarrow> take n (patch k bs xs) = take n xs"
  "n = length bs \<Longrightarrow> take n (patch 0 bs xs) = bs"
  by (simp_all add: patch_def)

lemma pkt_bytes_store:
  assumes "unat (data c) + k + length bs \<le> unat (data_end c)"
  shows "pkt_bytes c (store_bytes m (ptr_add (ptr (data c)) k) bs) = patch k bs (pkt_bytes c m)"
proof -
  have k: "k < 4294967296" and i: "\<And>i. i < pkt_len c \<Longrightarrow> i < 4294967296"
    using assms unat_u32_less [of "data_end c"] by (auto simp: pkt_len_def)
  have len: "k + length bs \<le> pkt_len c" using assms by (simp add: pkt_len_def)
  show ?thesis
  proof (rule nth_equalityI)
    show "length (pkt_bytes c (store_bytes m (ptr_add (ptr (data c)) k) bs)) =
        length (patch k bs (pkt_bytes c m))"
      using len by simp
  next
    fix j assume "j < length (pkt_bytes c (store_bytes m (ptr_add (ptr (data c)) k) bs))"
    then have j: "j < pkt_len c" by simp
    then show "pkt_bytes c (store_bytes m (ptr_add (ptr (data c)) k) bs) ! j =
        patch k bs (pkt_bytes c m) ! j"
      using len k i [OF j] by (simp add: nth_patch) (auto simp: pkt_bytes_def store_bytes_def)
  qed
qed

lemma bytes16_take_drop:
  "n + 2 \<le> length xs \<Longrightarrow> bytes16 (word16 (take 2 (drop n xs))) = take 2 (drop n xs)"
  by (rule bytes16_word16) simp

lemma take_drop_join: "take m (drop n xs) @ drop (m + n) xs = drop n xs"
  by (metis append_take_drop_id drop_drop)

text \<open>Header values: a header is the bytes at its address.\<close>

definition decode_ethhdr :: "u8 list \<Rightarrow> ethhdr" where
  "decode_ethhdr bs =
     \<lparr>h_dest = take 6 bs, h_source = take 6 (drop 6 bs), h_proto = word16 (take 2 (drop 12 bs))\<rparr>"

definition encode_ethhdr :: "ethhdr \<Rightarrow> u8 list" where
  "encode_ethhdr e = h_dest e @ h_source e @ bytes16 (h_proto e)"

definition decode_vlan_hdr :: "u8 list \<Rightarrow> vlan_hdr" where
  "decode_vlan_hdr bs =
     \<lparr>h_vlan_TCI = word16 (take 2 bs),
      h_vlan_encapsulated_proto = word16 (take 2 (drop 2 bs))\<rparr>"

definition encode_vlan_hdr :: "vlan_hdr \<Rightarrow> u8 list" where
  "encode_vlan_hdr v = bytes16 (h_vlan_TCI v) @ bytes16 (h_vlan_encapsulated_proto v)"

definition wf_ethhdr :: "ethhdr \<Rightarrow> bool" where
  "wf_ethhdr e \<longleftrightarrow> length (h_dest e) = 6 \<and> length (h_source e) = 6"

lemma length_encode_ethhdr: "wf_ethhdr e \<Longrightarrow> length (encode_ethhdr e) = 14"
  by (simp add: wf_ethhdr_def encode_ethhdr_def)

lemma length_encode_vlan_hdr [simp]: "length (encode_vlan_hdr v) = 4"
  by (simp add: encode_vlan_hdr_def)

lemma decode_encode_ethhdr: "wf_ethhdr e \<Longrightarrow> decode_ethhdr (encode_ethhdr e) = e"
  by (simp add: wf_ethhdr_def encode_ethhdr_def decode_ethhdr_def)

lemma encode_decode_ethhdr:
  assumes "length bs = 14"
  shows "encode_ethhdr (decode_ethhdr bs) = bs"
proof -
  have "bs = take 6 bs @ take 6 (drop 6 bs) @ drop 6 (drop 6 bs)"
    by (simp only: append_take_drop_id)
  then have "bs = take 6 bs @ take 6 (drop 6 bs) @ take 2 (drop 12 bs)"
    using assms by simp
  then show ?thesis
    using assms by (simp add: encode_ethhdr_def decode_ethhdr_def bytes16_word16)
qed

lemma decode_encode_vlan_hdr: "decode_vlan_hdr (encode_vlan_hdr v) = v"
  by (simp add: encode_vlan_hdr_def decode_vlan_hdr_def)

lemma encode_decode_vlan_hdr:
  "length bs = 4 \<Longrightarrow> encode_vlan_hdr (decode_vlan_hdr bs) = bs"
  using list_eq_parts [of bs 2 2]
  by (simp add: encode_vlan_hdr_def decode_vlan_hdr_def bytes16_word16)

lemma wf_decode_ethhdr: "12 \<le> length bs \<Longrightarrow> wf_ethhdr (decode_ethhdr bs)"
  by (simp add: wf_ethhdr_def decode_ethhdr_def)

end
