(* ===== verification/Forward_Config.thy ===== *)
theory Forward_Config
  imports Packet
begin

text \<open>
  forward_config.h: the configuration and forwarding structures, the BPF maps that hold them
  (their sizes and element types) and the two program arrays. Structure sizes follow from the
  field sizes and alignments by the usual layout rule, which is written out here so that the
  sizes the code passes to \<open>memcpy\<close>, \<open>memset\<close> and the helpers are computed, not assumed.
\<close>

section \<open>Layout of C structures\<close>

definition align_up :: "nat \<Rightarrow> nat \<Rightarrow> nat" where
  "align_up n a = (n + a - 1) div a * a"

text \<open>A field is its size and its alignment; the result lists the offsets and the end.\<close>

fun field_offsets :: "nat \<Rightarrow> (nat \<times> nat) list \<Rightarrow> nat list \<times> nat" where
  "field_offsets pos [] = ([], pos)"
| "field_offsets pos ((sz, al) # fs) =
     (let p = align_up pos al; (os, e) = field_offsets (p + sz) fs in (p # os, e))"

definition struct_size :: "nat \<Rightarrow> (nat \<times> nat) list \<Rightarrow> nat" where
  "struct_size al fs = align_up (snd (field_offsets 0 fs)) al"

definition struct_offsets :: "(nat \<times> nat) list \<Rightarrow> nat list" where
  "struct_offsets fs = fst (field_offsets 0 fs)"

section \<open>Configuration\<close>

definition SECOND :: u64 where "SECOND = 1000000000"

definition VLAN_ACCESS :: u32 where "VLAN_ACCESS = 0"
definition VLAN_TRUNK :: u32 where "VLAN_TRUNK = 1"

record iface_config_l2 =
  l2c_vlan_id :: u32
  l2c_vlan_mode :: u32
  l2c_vlan_range_start :: u32
  l2c_vlan_range_end :: u32

definition IF_MODE_L2 :: u16 where "IF_MODE_L2 = 1"
definition IF_MODE_L3 :: u16 where "IF_MODE_L3 = 2"

record iface_config =
  ifc_ifindex :: u32
  ifc_name :: "u8 list"
  ifc_node_mac :: "u8 list"
  ifc_mode :: u16
  ifc_l2 :: iface_config_l2

record bpf_spin_lock =
  lock_val :: u32

record iface_config_item =
  ici_lock :: bpf_spin_lock
  ici_config :: iface_config

definition iface_config_map_max_entries :: nat where "iface_config_map_max_entries = 256"

section \<open>Forwarding database\<close>

record fdb_key =
  fk_mac :: "u8 list"
  fk_vlan_id :: u16

record fdb_value =
  fv_ifindex :: u32
  fv_last_seen :: u64

record fdb_value_item =
  fvi_lock :: bpf_spin_lock
  fvi_value :: fdb_value

definition fdb_table_max_entries :: nat where "fdb_table_max_entries = 10240"

record forward_config =
  fc_in_if_config :: iface_config
  fc_out_if_config :: iface_config
  fc_fdb_value :: fdb_value

section \<open>Program arrays\<close>

definition XDP_ID_L2 :: u32 where "XDP_ID_L2 = 0"
definition XDP_ID_L3 :: u32 where "XDP_ID_L3 = 1"
definition XDP_ID_MAX :: u32 where "XDP_ID_MAX = 2"

datatype xdp_prog = Xdp_l2_process | Xdp_l3_process

definition xdp_jmp_table :: "u32 \<rightharpoonup> xdp_prog" where
  "xdp_jmp_table = [XDP_ID_L2 \<mapsto> Xdp_l2_process, XDP_ID_L3 \<mapsto> Xdp_l3_process]"

definition TC_INGRESS_ID_L2 :: u32 where "TC_INGRESS_ID_L2 = 0"
definition TC_INGRESS_ID_L3 :: u32 where "TC_INGRESS_ID_L3 = 1"
definition TC_ID_MAX :: u32 where "TC_ID_MAX = 2"

datatype tc_prog = Tc_ingress_l2 | Tc_ingress_l3

definition tc_jmp_table :: "u32 \<rightharpoonup> tc_prog" where
  "tc_jmp_table = [TC_INGRESS_ID_L2 \<mapsto> Tc_ingress_l2, TC_INGRESS_ID_L3 \<mapsto> Tc_ingress_l3]"

lemmas prog_array_defs = xdp_jmp_table_def tc_jmp_table_def XDP_ID_L2_def XDP_ID_L3_def
  TC_INGRESS_ID_L2_def TC_INGRESS_ID_L3_def

section \<open>Packet metadata\<close>

definition L2_VLAN_PACKET :: u32 where "L2_VLAN_PACKET = 1"
definition L2_FLOOD :: u32 where "L2_FLOOD = 2"
definition DP_META_MAGIC :: u32 where "DP_META_MAGIC = 0x4E465643"
definition DP_META_L2 :: u32 where "DP_META_L2 = 1"
definition DP_META_L3 :: u32 where "DP_META_L3 = 2"

record l2_metadata =
  l2m_flags :: u32
  l2m_vlan_id :: u32

record l3_metadata =
  l3m_flags :: u32

record dp_metadata =
  md_magic :: u32
  md_meta_type :: u32
  md_l2 :: l2_metadata
  md_l3 :: l3_metadata

section \<open>Sizes\<close>

definition sizeof_l2_metadata :: nat where
  "sizeof_l2_metadata = struct_size 8 [(4, 4), (4, 4)]"

definition sizeof_l3_metadata :: nat where
  "sizeof_l3_metadata = struct_size 8 [(4, 4)]"

definition dp_metadata_fields :: "(nat \<times> nat) list" where
  "dp_metadata_fields = [(4, 4), (4, 4), (sizeof_l2_metadata, 8), (sizeof_l3_metadata, 8)]"

definition sizeof_dp_metadata :: nat where
  "sizeof_dp_metadata = struct_size 8 dp_metadata_fields"

definition sizeof_iface_config :: nat where
  "sizeof_iface_config =
     struct_size 8 [(4, 4), (64, 1), (6, 1), (2, 2), (struct_size 8 [(4, 4), (4, 4), (4, 4), (4, 4)], 8)]"

definition sizeof_fdb_value :: nat where
  "sizeof_fdb_value = struct_size 8 [(4, 4), (8, 8)]"

definition sizeof_fdb_key :: nat where
  "sizeof_fdb_key = struct_size 8 [(6, 1), (2, 2)]"

lemma sizeof_l2_metadata [simp]: "sizeof_l2_metadata = 8"
  by (simp add: sizeof_l2_metadata_def struct_size_def align_up_def)

lemma sizeof_l3_metadata [simp]: "sizeof_l3_metadata = 8"
  by (simp add: sizeof_l3_metadata_def struct_size_def align_up_def)

lemma sizeof_dp_metadata [simp]: "sizeof_dp_metadata = 24"
  by (simp add: sizeof_dp_metadata_def dp_metadata_fields_def struct_size_def align_up_def)

lemma sizeof_forwarding_structs:
  "sizeof_iface_config = 96" "sizeof_fdb_value = 16" "sizeof_fdb_key = 8"
  by (simp_all add: sizeof_iface_config_def sizeof_fdb_value_def sizeof_fdb_key_def
    struct_size_def align_up_def)

text \<open>Offsets of the metadata fields; \<open>l2\<close> and \<open>l3\<close> start with their flags.\<close>

definition off_magic :: nat where "off_magic = struct_offsets dp_metadata_fields ! 0"
definition off_meta_type :: nat where "off_meta_type = struct_offsets dp_metadata_fields ! 1"
definition off_l2_flags :: nat where "off_l2_flags = struct_offsets dp_metadata_fields ! 2"
definition off_l2_vlan_id :: nat where
  "off_l2_vlan_id = struct_offsets dp_metadata_fields ! 2 + struct_offsets [(4, 4), (4, 4)] ! 1"
definition off_l3_flags :: nat where "off_l3_flags = struct_offsets dp_metadata_fields ! 3"

lemma offsets [simp]:
  "off_magic = 0" "off_meta_type = 4" "off_l2_flags = 8" "off_l2_vlan_id = 12" "off_l3_flags = 16"
  by (simp_all add: off_magic_def off_meta_type_def off_l2_flags_def off_l2_vlan_id_def
    off_l3_flags_def struct_offsets_def dp_metadata_fields_def align_up_def)

text \<open>The structure at the start of a byte string of 24 bytes.\<close>

definition decode_dp_metadata :: "u8 list \<Rightarrow> dp_metadata" where
  "decode_dp_metadata bs =
     \<lparr>md_magic = word32 (take 4 (drop off_magic bs)),
      md_meta_type = word32 (take 4 (drop off_meta_type bs)),
      md_l2 = \<lparr>l2m_flags = word32 (take 4 (drop off_l2_flags bs)),
               l2m_vlan_id = word32 (take 4 (drop off_l2_vlan_id bs))\<rparr>,
      md_l3 = \<lparr>l3m_flags = word32 (take 4 (drop off_l3_flags bs))\<rparr>\<rparr>"

end
