(* ===== verification/Helpers.thy ===== *)
theory Helpers
  imports Forward_Config
begin

text \<open>
  The state the programs run in and the kernel helpers they call. The BPF maps are the
  program's own data (declared in forward_config.h) and are part of the state. What the kernel
  does inside a helper is not in the repository: it is a parameter, a record of functions,
  and what the code relies on is stated in the \<open>_law\<close> predicates below, which restate the
  documentation that bpf_helper_defs.h carries for each helper. The reference helpers at the
  end satisfy them.

  Spin locks are modelled by the rules of the same documentation: a program holds at most one
  lock, calls no helper while it holds one, and releases only the lock it took. Breaking a rule
  is a fault. The model runs one program on one CPU at a time.
\<close>

section \<open>State shared by all programs\<close>

datatype lock_ref = Iface_lock u32 | Fdb_lock fdb_key

record kstate =
  iface_config_map :: "u32 \<rightharpoonup> iface_config_item"
  fdb_table :: "fdb_key \<rightharpoonup> fdb_value_item"
  held :: "lock_ref option"

definition helper_call :: "'a kstate_scheme \<Rightarrow> 'b \<Rightarrow> 'b option" where
  "helper_call s r = (if held s = None then Some r else None)"

definition lookup_iface :: "u32 \<Rightarrow> 'a kstate_scheme \<Rightarrow> iface_config_item option option" where
  "lookup_iface k s = helper_call s (iface_config_map s k)"

definition lookup_fdb :: "fdb_key \<Rightarrow> 'a kstate_scheme \<Rightarrow> fdb_value_item option option" where
  "lookup_fdb k s = helper_call s (fdb_table s k)"

definition bpf_spin_lock :: "lock_ref \<Rightarrow> 'a kstate_scheme \<Rightarrow> 'a kstate_scheme option" where
  "bpf_spin_lock l s = (if held s = None then Some (s\<lparr>held := Some l\<rparr>) else None)"

definition bpf_spin_unlock :: "lock_ref \<Rightarrow> 'a kstate_scheme \<Rightarrow> 'a kstate_scheme option" where
  "bpf_spin_unlock l s = (if held s = Some l then Some (s\<lparr>held := None\<rparr>) else None)"

text \<open>
  \<open>snapshot_iface k\<close> is the pattern every program uses on an interface entry it has looked up:
  lock the entry, \<open>memcpy\<close> its configuration out, unlock.
\<close>

definition snapshot_iface :: "u32 \<Rightarrow> 'a kstate_scheme \<Rightarrow> (iface_config \<times> 'a kstate_scheme) option" where
  "snapshot_iface k s = do {
     s1 \<leftarrow> bpf_spin_lock (Iface_lock k) s;
     item \<leftarrow> iface_config_map s1 k;
     s2 \<leftarrow> bpf_spin_unlock (Iface_lock k) s1;
     Some (ici_config item, s2)
   }"

lemma held_none_update [simp]: "held s = None \<Longrightarrow> s\<lparr>held := None\<rparr> = (s :: 'a kstate_scheme)"
  by (cases s) simp

lemma helper_call_free [runs]: "held s = None \<Longrightarrow> helper_call s r = Some r"
  by (simp add: helper_call_def)

lemma lookup_iface_free [runs]: "held s = None \<Longrightarrow> lookup_iface k s = Some (iface_config_map s k)"
  by (simp add: lookup_iface_def runs)

lemma lookup_fdb_free [runs]: "held s = None \<Longrightarrow> lookup_fdb k s = Some (fdb_table s k)"
  by (simp add: lookup_fdb_def runs)

lemma snapshot_iface_run [runs]:
  "held s = None \<Longrightarrow> iface_config_map s k = Some item \<Longrightarrow>
     snapshot_iface k s = Some (ici_config item, s)"
  by (simp add: snapshot_iface_def bpf_spin_lock_def bpf_spin_unlock_def)

section \<open>XDP programs\<close>

record xdp_state = kstate +
  ctx :: xdp_md
  mem :: memory
  xdp_forward_config_cache :: "u32 \<rightharpoonup> forward_config"
  ktime :: u64
  redirect_to :: "u32 option"

record xdp_helpers =
  h_fdb_update :: "(fdb_key \<rightharpoonup> fdb_value_item) \<Rightarrow> fdb_key \<Rightarrow> fdb_value_item \<Rightarrow> u64 \<Rightarrow>
    int \<times> (fdb_key \<rightharpoonup> fdb_value_item)"
  h_adjust_head :: "xdp_md \<Rightarrow> memory \<Rightarrow> int \<Rightarrow> int \<times> xdp_md \<times> memory"
  h_adjust_meta :: "xdp_md \<Rightarrow> memory \<Rightarrow> int \<Rightarrow> int \<times> xdp_md \<times> memory"
  h_redirect :: "u32 \<Rightarrow> u64 \<Rightarrow> int"
  h_tail_call :: "u32 \<Rightarrow> bool"

definition BPF_NOEXIST :: u64 where "BPF_NOEXIST = 1"

definition lookup_cache :: "u32 \<Rightarrow> xdp_state \<Rightarrow> forward_config option option" where
  "lookup_cache k s = helper_call s (xdp_forward_config_cache s k)"

definition bpf_ktime_get_ns :: "xdp_state \<Rightarrow> u64 option" where
  "bpf_ktime_get_ns s = helper_call s (ktime s)"

definition update_fdb ::
  "xdp_helpers \<Rightarrow> fdb_key \<Rightarrow> fdb_value_item \<Rightarrow> u64 \<Rightarrow> xdp_state \<Rightarrow> (int \<times> xdp_state) option" where
  "update_fdb H k v flags s = do {
     (rc, t) \<leftarrow> helper_call s (h_fdb_update H (fdb_table s) k v flags);
     Some (rc, s\<lparr>fdb_table := t\<rparr>)
   }"

definition bpf_xdp_adjust_head :: "xdp_helpers \<Rightarrow> int \<Rightarrow> xdp_state \<Rightarrow> (int \<times> xdp_state) option" where
  "bpf_xdp_adjust_head H delta s = do {
     (rc, c, m) \<leftarrow> helper_call s (h_adjust_head H (ctx s) (mem s) delta);
     Some (rc, s\<lparr>ctx := c, mem := m\<rparr>)
   }"

definition bpf_xdp_adjust_meta :: "xdp_helpers \<Rightarrow> int \<Rightarrow> xdp_state \<Rightarrow> (int \<times> xdp_state) option" where
  "bpf_xdp_adjust_meta H delta s = do {
     (rc, c, m) \<leftarrow> helper_call s (h_adjust_meta H (ctx s) (mem s) delta);
     Some (rc, s\<lparr>ctx := c, mem := m\<rparr>)
   }"

text \<open>
  \<open>bpf_redirect\<close> records the target; the kernel acts on it only if the program then returns
  the action the helper returned.
\<close>

definition bpf_redirect :: "xdp_helpers \<Rightarrow> u32 \<Rightarrow> u64 \<Rightarrow> xdp_state \<Rightarrow> (int \<times> xdp_state) option" where
  "bpf_redirect H ifi flags s = do {
     rc \<leftarrow> helper_call s (h_redirect H ifi flags);
     Some (rc, if rc = xdp_action_val XDP_REDIRECT then s\<lparr>redirect_to := Some ifi\<rparr> else s)
   }"

text \<open>Loads and stores through packet pointers and metadata pointers.\<close>

definition rd :: "addr \<Rightarrow> nat \<Rightarrow> xdp_state \<Rightarrow> u8 list option" where
  "rd p n s = pkt_load (ctx s) (mem s) p n"

definition rd16 :: "addr \<Rightarrow> xdp_state \<Rightarrow> u16 option" where
  "rd16 p s = do { bs \<leftarrow> rd p 2 s; Some (word16 bs) }"

definition wr :: "addr \<Rightarrow> u8 list \<Rightarrow> xdp_state \<Rightarrow> xdp_state option" where
  "wr p bs s = do { m \<leftarrow> pkt_store (ctx s) (mem s) p bs; Some (s\<lparr>mem := m\<rparr>) }"

definition rd_meta32 :: "addr \<Rightarrow> xdp_state \<Rightarrow> u32 option" where
  "rd_meta32 p s = do { bs \<leftarrow> meta_load (ctx s) (mem s) p 4; Some (word32 bs) }"

definition wr_meta :: "addr \<Rightarrow> u8 list \<Rightarrow> xdp_state \<Rightarrow> xdp_state option" where
  "wr_meta p bs s = do { m \<leftarrow> meta_store (ctx s) (mem s) p bs; Some (s\<lparr>mem := m\<rparr>) }"

section \<open>What the XDP programs rely on\<close>

text \<open>
  \<open>bpf_xdp_adjust_head\<close>: on success \<open>data\<close> has moved by \<open>delta\<close>, the end has not, \<open>data\<close>
  is not past the end, and bytes of the packet that stay in it keep their addresses and values.
  On failure nothing has changed.
\<close>

definition adjust_head_law :: "xdp_helpers \<Rightarrow> bool" where
  "adjust_head_law H \<longleftrightarrow> (\<forall>c m delta rc c' m'. h_adjust_head H c m delta = (rc, c', m') \<longrightarrow>
     (rc = 0 \<longrightarrow> int (unat (data c')) = int (unat (data c)) + delta \<and> data_end c' = data_end c \<and>
        ingress_ifindex c' = ingress_ifindex c \<and> unat (data c') \<le> unat (data_end c') \<and>
        (\<forall>a. unat (data c) \<le> unat a \<longrightarrow> unat (data c') \<le> unat a \<longrightarrow> unat a < unat (data_end c) \<longrightarrow>
           m' a = m a)) \<and>
     (rc \<noteq> 0 \<longrightarrow> c' = c \<and> m' = m))"

text \<open>
  \<open>bpf_xdp_adjust_meta\<close>: on success \<open>data_meta\<close> has moved by \<open>delta\<close> and the packet has the
  same bytes; where the packet lies may have changed. What the new metadata bytes hold is not
  specified. On failure nothing has changed.
\<close>

definition adjust_meta_law :: "xdp_helpers \<Rightarrow> bool" where
  "adjust_meta_law H \<longleftrightarrow> (\<forall>c m delta rc c' m'. h_adjust_meta H c m delta = (rc, c', m') \<longrightarrow>
     (0 \<le> rc \<longrightarrow> int (unat (data_meta c')) = int (unat (data_meta c)) + delta \<and>
        ingress_ifindex c' = ingress_ifindex c \<and> unat (data_meta c') \<le> unat (data c') \<and>
        pkt_bytes c' m' = pkt_bytes c m) \<and>
     (rc < 0 \<longrightarrow> c' = c \<and> m' = m))"

text \<open>
  \<open>bpf_map_update_elem\<close> with \<open>BPF_NOEXIST\<close> on the FDB: success means the key was absent, is now
  bound, and the table is within its declared size; failure means the table is unchanged.
\<close>

definition fdb_update_law :: "xdp_helpers \<Rightarrow> bool" where
  "fdb_update_law H \<longleftrightarrow> (\<forall>t k v rc t'. h_fdb_update H t k v BPF_NOEXIST = (rc, t') \<longrightarrow>
     (rc = 0 \<longrightarrow> t k = None \<and> t' = t(k \<mapsto> v) \<and>
        (finite (dom t) \<longrightarrow> card (dom t') \<le> fdb_table_max_entries)) \<and>
     (rc \<noteq> 0 \<longrightarrow> t' = t))"

text \<open>\<open>bpf_redirect\<close> in XDP returns \<open>XDP_REDIRECT\<close> or \<open>XDP_ABORTED\<close>.\<close>

definition redirect_law :: "xdp_helpers \<Rightarrow> bool" where
  "redirect_law H \<longleftrightarrow> (\<forall>i f. h_redirect H i f \<in> {xdp_action_val XDP_REDIRECT, xdp_action_val XDP_ABORTED})"

definition xdp_laws :: "xdp_helpers \<Rightarrow> bool" where
  "xdp_laws H \<longleftrightarrow> adjust_head_law H \<and> adjust_meta_law H \<and> fdb_update_law H \<and> redirect_law H"

lemma xdp_lawsD:
  "xdp_laws H \<Longrightarrow> adjust_head_law H" "xdp_laws H \<Longrightarrow> adjust_meta_law H"
  "xdp_laws H \<Longrightarrow> fdb_update_law H" "xdp_laws H \<Longrightarrow> redirect_law H"
  by (simp_all add: xdp_laws_def)

section \<open>Reference helpers\<close>

text \<open>
  An executable kernel that obeys the laws: the packet buffer has headroom down to address
  \<open>lo\<close>, at least an Ethernet header stays in the packet, and the FDB holds what it declares.
\<close>

definition EINVAL :: int where "EINVAL = 22"

definition addr32 :: "int \<Rightarrow> u32" where
  "addr32 n = of_int n"

lemma addr32_eq [simp]:
  assumes "0 \<le> n" and "n < 4294967296"
  shows "uint (addr32 n) = n" and "unat (addr32 n) = nat n"
  using assms by (simp_all add: addr32_def unsigned_of_int take_bit_eq_mod)

definition ref_adjust_head :: "nat \<Rightarrow> xdp_md \<Rightarrow> memory \<Rightarrow> int \<Rightarrow> int \<times> xdp_md \<times> memory" where
  "ref_adjust_head lo c m delta =
     (let n = int (unat (data c)) + delta
      in if int lo \<le> n \<and> n + 14 \<le> int (unat (data_end c)) then (0, c\<lparr>data := addr32 n\<rparr>, m)
         else (- EINVAL, c, m))"

definition ref_adjust_meta :: "nat \<Rightarrow> xdp_md \<Rightarrow> memory \<Rightarrow> int \<Rightarrow> int \<times> xdp_md \<times> memory" where
  "ref_adjust_meta lo c m delta =
     (let n = int (unat (data_meta c)) + delta
      in if int lo \<le> n \<and> n \<le> int (unat (data c)) then (0, c\<lparr>data_meta := addr32 n\<rparr>, m)
         else (- EINVAL, c, m))"

definition ref_fdb_update ::
  "(fdb_key \<rightharpoonup> fdb_value_item) \<Rightarrow> fdb_key \<Rightarrow> fdb_value_item \<Rightarrow> u64 \<Rightarrow>
    int \<times> (fdb_key \<rightharpoonup> fdb_value_item)" where
  "ref_fdb_update t k v flags =
     (if flags = BPF_NOEXIST \<and> t k \<noteq> None then (- EEXIST, t)
      else if t k = None \<and> fdb_table_max_entries \<le> card (dom t) then (- E2BIG, t)
      else (0, t(k \<mapsto> v)))"

definition ref_redirect :: "u32 \<Rightarrow> u64 \<Rightarrow> int" where
  "ref_redirect i flags =
     (if flags = 0 then xdp_action_val XDP_REDIRECT else xdp_action_val XDP_ABORTED)"

definition ref_helpers :: "nat \<Rightarrow> xdp_helpers" where
  "ref_helpers lo =
     \<lparr>h_fdb_update = ref_fdb_update, h_adjust_head = ref_adjust_head lo,
      h_adjust_meta = ref_adjust_meta lo, h_redirect = ref_redirect,
      h_tail_call = (\<lambda>i. xdp_jmp_table i \<noteq> None)\<rparr>"

lemma ref_helpers_sel [simp]:
  "h_fdb_update (ref_helpers lo) = ref_fdb_update"
  "h_adjust_head (ref_helpers lo) = ref_adjust_head lo"
  "h_adjust_meta (ref_helpers lo) = ref_adjust_meta lo"
  "h_redirect (ref_helpers lo) = ref_redirect"
  "h_tail_call (ref_helpers lo) i = (xdp_jmp_table i \<noteq> None)"
  by (simp_all add: ref_helpers_def)

lemma uint_u32: "0 \<le> uint (d :: u32)" "uint (d :: u32) < 4294967296"
  using uint_lt2p [of d] by simp_all

lemma ref_adjust_head_law: "adjust_head_law (ref_helpers lo)"
proof -
  have "0 \<le> n \<and> n < 4294967296"
    if "int lo \<le> n" and "n + 14 \<le> uint (data_end c)" for n :: int and c :: xdp_md
    using that uint_u32 [of "data_end c"] by linarith
  then show ?thesis
    by (auto simp: adjust_head_law_def ref_adjust_head_def Let_def EINVAL_def nat_le_iff
      split: if_splits)
qed

lemma ref_adjust_meta_law: "adjust_meta_law (ref_helpers lo)"
proof -
  have "0 \<le> n \<and> n < 4294967296"
    if "int lo \<le> n" and "n \<le> uint (data c)" for n :: int and c :: xdp_md
    using that uint_u32 [of "data c"] by linarith
  then show ?thesis
    by (auto simp: adjust_meta_law_def ref_adjust_meta_def Let_def EINVAL_def pkt_bytes_def pkt_len_def
      nat_le_iff split: if_splits)
qed

lemma ref_fdb_update_law: "fdb_update_law (ref_helpers lo)"
  by (auto simp: fdb_update_law_def ref_fdb_update_def E2BIG_def EEXIST_def card_insert_if
    split: if_splits)

lemma ref_redirect_law: "redirect_law (ref_helpers lo)"
  by (simp add: redirect_law_def ref_redirect_def)

lemma ref_helpers_laws [simp]: "xdp_laws (ref_helpers lo)"
  by (simp add: xdp_laws_def ref_adjust_head_law ref_adjust_meta_law ref_fdb_update_law
    ref_redirect_law)

end
