(* ===== verification/Protocol.thy ===== *)
theory Protocol
  imports Helpers
begin

text \<open>
  protocol.h: the header parsers. Each takes the context and pointers and hands a pointer back
  through an out-parameter with a \<open>bool\<close> result; the model returns \<open>Some\<close> pointer for
  \<open>true\<close> and \<open>None\<close> for \<open>false\<close>. Comparisons are the 64-bit unsigned pointer comparisons
  of the code.
\<close>

definition ETH_P_8021Q :: u16 where "ETH_P_8021Q = 0x8100"
definition ETH_P_8021AD :: u16 where "ETH_P_8021AD = 0x88A8"
definition ETH_P_ARP :: u16 where "ETH_P_ARP = 0x0806"
definition ETH_P_IP :: u16 where "ETH_P_IP = 0x0800"
definition ETH_P_IPV6 :: u16 where "ETH_P_IPV6 = 0x86DD"

definition ARPOP_REQUEST :: u16 where "ARPOP_REQUEST = 1"
definition ARPOP_REPLY :: u16 where "ARPOP_REPLY = 2"

definition ethernet_ethhdr :: "xdp_md \<Rightarrow> addr option" where
  "ethernet_ethhdr c =
     (let eth = ptr (data c); data_end = ptr (data_end c)
      in if data_end < ptr_add eth sizeof_ethhdr then None else Some eth)"

definition ethernet_vlan_hdr :: "xdp_md \<Rightarrow> addr \<Rightarrow> addr option" where
  "ethernet_vlan_hdr c eth =
     (let vhdr = ptr_add eth sizeof_ethhdr; data_end = ptr (data_end c)
      in if data_end < ptr_add vhdr sizeof_vlan_hdr then None else Some vhdr)"

definition header_next :: "xdp_md \<Rightarrow> addr \<Rightarrow> addr option" where
  "header_next c next =
     (let data_end = ptr (data_end c)
      in if data_end < next then None else Some next)"

definition ethernet_arp_hdr :: "xdp_md \<Rightarrow> addr \<Rightarrow> addr option" where
  "ethernet_arp_hdr c header_next_out =
     (let arphdr = header_next_out; data_end = ptr (data_end c)
      in if data_end < ptr_add arphdr sizeof_arphdr then None else Some arphdr)"

definition proto_payload :: "xdp_md \<Rightarrow> addr \<Rightarrow> u32 \<Rightarrow> addr option" where
  "proto_payload c payload payload_size =
     (let data_end = ptr (data_end c)
      in if data_end < payload then None
         else if data_end < ptr_add payload (unat payload_size) then None
         else Some payload)"

lemmas parser_defs = ethernet_ethhdr_def ethernet_vlan_hdr_def header_next_def
  ethernet_arp_hdr_def proto_payload_def

lemma ptr_le_off:
  "k < 4294967296 \<Longrightarrow> ptr d < ptr_add (ptr e) k \<longleftrightarrow> unat d < unat e + k"
  by (simp add: word_less_nat_alt)

lemma ethernet_ethhdr_run [runs]:
  "ethernet_ethhdr c =
     (if unat (data c) + 14 \<le> unat (data_end c) then Some (ptr (data c)) else None)"
  by (simp add: ethernet_ethhdr_def sizeof_ethhdr_def ptr_le_off not_less Let_def)

lemma ethernet_vlan_hdr_run [runs]:
  "ethernet_vlan_hdr c (ptr (data c)) =
     (if unat (data c) + 18 \<le> unat (data_end c) then Some (ptr_add (ptr (data c)) 14) else None)"
  by (simp add: ethernet_vlan_hdr_def sizeof_defs ptr_le_off not_less Let_def)

lemma header_next_run [runs]:
  "k < 4294967296 \<Longrightarrow> header_next c (ptr_add (ptr (data c)) k) =
     (if unat (data c) + k \<le> unat (data_end c) then Some (ptr_add (ptr (data c)) k) else None)"
  by (simp add: header_next_def ptr_le_off not_less Let_def)

text \<open>The Ethernet parser succeeds exactly on packets of at least 14 bytes, and the VLAN
  parser on packets of at least 18; the pointers they return make the whole header readable,
  and the header read is the packet's first 14 bytes, or the 4 bytes after them.\<close>

theorem ethernet_parsers_exact:
  "(ethernet_ethhdr c \<noteq> None \<longleftrightarrow> 14 \<le> pkt_len c) \<and>
   (ethernet_vlan_hdr c (ptr (data c)) \<noteq> None \<longleftrightarrow> 18 \<le> pkt_len c) \<and>
   (\<forall>eth. ethernet_ethhdr c = Some eth \<longrightarrow>
      pkt_load c m eth sizeof_ethhdr = Some (take 14 (pkt_bytes c m)) \<and>
      (\<forall>v. ethernet_vlan_hdr c eth = Some v \<longrightarrow>
         pkt_load c m v sizeof_vlan_hdr = Some (take 4 (drop 14 (pkt_bytes c m)))))"
  by (auto simp: runs pkt_len_def sizeof_defs pkt_load_off pkt_load_base)

theorem ethernet_parsers_exact_witness:
  "pkt_load \<lparr>data = 100, data_end = 118, data_meta = 100, ingress_ifindex = 1, rx_queue_index = 0,
     egress_ifindex = 0\<rparr> (\<lambda>_. 7) (ptr 100) sizeof_ethhdr = Some (replicate 14 7)"
proof -
  let ?c = "\<lparr>data = 100, data_end = 118, data_meta = 100, ingress_ifindex = 1, rx_queue_index = 0,
     egress_ifindex = 0\<rparr> :: xdp_md"
  have "ethernet_ethhdr ?c = Some (ptr 100)" by (simp add: runs)
  then have "pkt_load ?c (\<lambda>_. 7) (ptr 100) sizeof_ethhdr = Some (take 14 (pkt_bytes ?c (\<lambda>_. 7)))"
    using ethernet_parsers_exact [of ?c "\<lambda>_. 7"] by blast
  then show ?thesis by (simp add: pkt_bytes_def pkt_len_def load_bytes_def map_replicate_const)
qed

text \<open>No pointer computation of the payload check wraps around: it accepts a payload
  pointer exactly when the payload lies between the pointer and the end of the packet, for every
  pointer and every 32-bit size.\<close>

theorem proto_payload_no_wrap:
  "proto_payload c p n = Some q \<longleftrightarrow> q = p \<and> unat p + unat n \<le> unat (data_end c)"
proof (cases "unat p \<le> unat (data_end c)")
  case True
  have "unat p + unat n < 2 ^ 64"
    using True unat_u32_less [of "data_end c"] unat_u32_less [of n] by simp
  with True show ?thesis
    by (auto simp: proto_payload_def Let_def word_less_nat_alt unat_ptr_add not_less)
next
  case False
  then show ?thesis by (simp add: proto_payload_def Let_def word_less_nat_alt)
qed

end
