(* ===== verification/Samples.thy ===== *)
theory Samples
  imports Helpers
begin

text \<open>
  Concrete packets and states, on which the theorems of the development are instantiated. A
  sample frame lies at address 4096 of an otherwise zeroed memory.
\<close>

definition sample_ctx :: "nat \<Rightarrow> u32 \<Rightarrow> xdp_md" where
  "sample_ctx len ifi =
     \<lparr>data = 4096, data_end = of_nat (4096 + len), data_meta = 4096, ingress_ifindex = ifi,
      rx_queue_index = 0, egress_ifindex = 0\<rparr>"

definition sample_mem :: "u8 list \<Rightarrow> memory" where
  "sample_mem bs = store_bytes (\<lambda>_. 0) (ptr 4096) bs"

definition sample_l2 :: "u32 \<Rightarrow> u32 \<Rightarrow> iface_config_l2" where
  "sample_l2 mode vid =
     \<lparr>l2c_vlan_id = vid, l2c_vlan_mode = mode, l2c_vlan_range_start = 10, l2c_vlan_range_end = 20\<rparr>"

definition sample_config :: "u32 \<Rightarrow> u32 \<Rightarrow> u32 \<Rightarrow> iface_config" where
  "sample_config ifi mode vid =
     \<lparr>ifc_ifindex = ifi, ifc_name = [], ifc_node_mac = [], ifc_mode = IF_MODE_L2,
      ifc_l2 = sample_l2 mode vid\<rparr>"

definition sample_item :: "u32 \<Rightarrow> u32 \<Rightarrow> u32 \<Rightarrow> iface_config_item" where
  "sample_item ifi mode vid = \<lparr>ici_lock = \<lparr>lock_val = 0\<rparr>, ici_config = sample_config ifi mode vid\<rparr>"

definition no_config :: iface_config where
  "no_config =
     \<lparr>ifc_ifindex = 0, ifc_name = [], ifc_node_mac = [], ifc_mode = 0,
      ifc_l2 = \<lparr>l2c_vlan_id = 0, l2c_vlan_mode = 0, l2c_vlan_range_start = 0, l2c_vlan_range_end = 0\<rparr>\<rparr>"

text \<open>The cache element of a freshly created per-CPU array: all bytes zero.\<close>

definition zero_cache :: forward_config where
  "zero_cache =
     \<lparr>fc_in_if_config = no_config, fc_out_if_config = no_config,
      fc_fdb_value = \<lparr>fv_ifindex = 0, fv_last_seen = 0\<rparr>\<rparr>"

text \<open>Two access ports and a trunk: 1 and 2 in VLAN 5, 3 with native VLAN 5 and range 10 to 20.\<close>

definition sample_ifaces :: "u32 \<rightharpoonup> iface_config_item" where
  "sample_ifaces =
     [1 \<mapsto> sample_item 1 VLAN_ACCESS 5, 2 \<mapsto> sample_item 2 VLAN_ACCESS 5, 3 \<mapsto> sample_item 3 VLAN_TRUNK 5]"

definition sample_state ::
  "u8 list \<Rightarrow> u32 \<Rightarrow> (fdb_key \<rightharpoonup> fdb_value_item) \<Rightarrow> forward_config \<Rightarrow> xdp_state" where
  "sample_state bs ifi t fc =
     \<lparr>iface_config_map = sample_ifaces, fdb_table = t, held = None,
      ctx = sample_ctx (length bs) ifi, mem = sample_mem bs,
      xdp_forward_config_cache = [0 \<mapsto> fc], ktime = 1000, redirect_to = None\<rparr>"

definition mac_a :: "u8 list" where "mac_a = [2, 0, 0, 0, 0, 0xA]"
definition mac_b :: "u8 list" where "mac_b = [2, 0, 0, 0, 0, 0xB]"

text \<open>An untagged IPv4 frame, and the same frame with an 802.1Q tag for VLAN \<open>vid\<close>.\<close>

definition plain_frame :: "u8 list \<Rightarrow> u8 list \<Rightarrow> u8 list" where
  "plain_frame dst src = dst @ src @ [8, 0] @ [0x45, 0, 0, 0]"

definition tagged_frame :: "u8 list \<Rightarrow> u8 list \<Rightarrow> u8 \<Rightarrow> u8 list" where
  "tagged_frame dst src vid = dst @ src @ [0x81, 0, 0, vid] @ [8, 0] @ [0x45, 0, 0, 0]"

lemma sample_ctx_sel [simp]:
  "data (sample_ctx n i) = 4096" "data_meta (sample_ctx n i) = 4096"
  "ingress_ifindex (sample_ctx n i) = i" "data_end (sample_ctx n i) = of_nat (4096 + n)"
  by (simp_all add: sample_ctx_def)

lemma sample_state_sel [simp]:
  "held (sample_state bs i t fc) = None" "fdb_table (sample_state bs i t fc) = t"
  "iface_config_map (sample_state bs i t fc) = sample_ifaces"
  "ctx (sample_state bs i t fc) = sample_ctx (length bs) i" "mem (sample_state bs i t fc) = sample_mem bs"
  "xdp_forward_config_cache (sample_state bs i t fc) = [0 \<mapsto> fc]"
  "ktime (sample_state bs i t fc) = 1000" "redirect_to (sample_state bs i t fc) = None"
  by (simp_all add: sample_state_def)

lemma unat_sample_end: "n < 4000000 \<Longrightarrow> unat (of_nat (4096 + n) :: u32) = 4096 + n"
  by (simp add: unsigned_of_nat take_bit_eq_mod del: of_nat_add)

lemma sample_pkt_len [simp]: "n < 4000000 \<Longrightarrow> pkt_len (sample_ctx n i) = n"
  by (simp add: pkt_len_def unat_sample_end del: of_nat_add)

lemma sample_pkt_bytes [simp]:
  assumes "n = length bs" and "length bs < 4000000"
  shows "pkt_bytes (sample_ctx n i) (sample_mem bs) = bs"
proof -
  have "load_bytes (store_bytes (\<lambda>_. 0) (ptr 4096) bs) (ptr 4096) (length bs) = bs"
    by (rule load_store_same) (use assms in simp_all)
  then show ?thesis using assms by (simp add: pkt_bytes_def sample_mem_def)
qed

lemma sample_frame_lengths [simp]:
  "length (plain_frame mac_a mac_b) = 18" "length (plain_frame mac_b mac_a) = 18"
  "length (tagged_frame mac_a mac_b v) = 22" "length (tagged_frame mac_b mac_a v) = 22"
  by (simp_all add: plain_frame_def tagged_frame_def mac_a_def mac_b_def)

end
