(* ===== verification/Fdb.thy ===== *)
theory Fdb
  imports Protocol Samples
begin

text \<open>
  The forwarding database of l2.h: \<open>fdb_learning\<close> records the port a source address was seen
  on, \<open>fdb_lookup\<close> copies the entry of a destination address into the per-CPU cache. The
  locale \<open>mac_table\<close> states what forwarding relies on; it is interpreted on the table update
  that \<open>fdb_learning\<close> performs and on the test that \<open>fdb_lookup\<close> makes, for any kernel.
\<close>

section \<open>The code\<close>

definition fdb_learning ::
  "xdp_helpers \<Rightarrow> addr \<Rightarrow> addr \<Rightarrow> u32 \<Rightarrow> xdp_state \<Rightarrow> xdp_state option" where
  "fdb_learning H ether_header vlan_header vlan_id s = do {
     mac \<leftarrow> rd (ptr_add ether_header 6) 6 s;
     let key = \<lparr>fk_mac = mac, fk_vlan_id = ucast vlan_id\<rparr>;
     existing \<leftarrow> lookup_fdb key s;
     (case existing of
        None \<Rightarrow> do {
          now \<leftarrow> bpf_ktime_get_ns s;
          let new_val = \<lparr>fvi_lock = \<lparr>lock_val = 0\<rparr>,
                fvi_value = \<lparr>fv_ifindex = ingress_ifindex (ctx s), fv_last_seen = now\<rparr>\<rparr>;
          (ret, s1) \<leftarrow> update_fdb H key new_val BPF_NOEXIST s;
          Some s1
        }
      | Some _ \<Rightarrow> do {
          let in_ifindex = ingress_ifindex (ctx s);
          now \<leftarrow> bpf_ktime_get_ns s;
          s1 \<leftarrow> bpf_spin_lock (Fdb_lock key) s;
          item \<leftarrow> fdb_table s1 key;
          let v = fvi_value item;
          if fv_ifindex v \<noteq> in_ifindex \<or> SECOND < now - fv_last_seen v then
            bpf_spin_unlock (Fdb_lock key)
              (s1\<lparr>fdb_table := (fdb_table s1)
                (key \<mapsto> item\<lparr>fvi_value := v\<lparr>fv_ifindex := in_ifindex, fv_last_seen := now\<rparr>\<rparr>)\<rparr>)
          else bpf_spin_unlock (Fdb_lock key) s1
        })
   }"

definition fdb_lookup :: "addr \<Rightarrow> addr \<Rightarrow> u32 \<Rightarrow> xdp_state \<Rightarrow> xdp_state option" where
  "fdb_lookup ether_header vlan_header vlan_id s = do {
     cache \<leftarrow> lookup_cache 0 s;
     (case cache of
        None \<Rightarrow> Some s
      | Some _ \<Rightarrow> do {
          mac \<leftarrow> rd ether_header 6 s;
          let key = \<lparr>fk_mac = mac, fk_vlan_id = ucast vlan_id\<rparr>;
          val \<leftarrow> lookup_fdb key s;
          (case val of
             None \<Rightarrow> Some s
           | Some v \<Rightarrow>
               if fv_ifindex (fvi_value v) = 0 then Some s
               else do {
                 s1 \<leftarrow> bpf_spin_lock (Fdb_lock key) s;
                 item \<leftarrow> fdb_table s1 key;
                 fc \<leftarrow> xdp_forward_config_cache s1 0;
                 bpf_spin_unlock (Fdb_lock key)
                   (s1\<lparr>xdp_forward_config_cache := (xdp_forward_config_cache s1)
                     (0 \<mapsto> fc\<lparr>fc_fdb_value := fvi_value item\<rparr>)\<rparr>)
               })
        })
   }"

section \<open>What they do to the table\<close>

definition src_key :: "xdp_state \<Rightarrow> u32 \<Rightarrow> fdb_key" where
  "src_key s vid =
     \<lparr>fk_mac = take 6 (drop 6 (pkt_bytes (ctx s) (mem s))), fk_vlan_id = ucast vid\<rparr>"

definition dst_key :: "xdp_state \<Rightarrow> u32 \<Rightarrow> fdb_key" where
  "dst_key s vid = \<lparr>fk_mac = take 6 (pkt_bytes (ctx s) (mem s)), fk_vlan_id = ucast vid\<rparr>"

text \<open>An entry needs no update when it already names the port and is at most a second old.\<close>

definition fresh :: "u32 \<Rightarrow> u64 \<Rightarrow> fdb_value \<Rightarrow> bool" where
  "fresh p now v \<longleftrightarrow> fv_ifindex v = p \<and> \<not> SECOND < now - fv_last_seen v"

definition new_item :: "u32 \<Rightarrow> u64 \<Rightarrow> fdb_value_item" where
  "new_item p now = \<lparr>fvi_lock = \<lparr>lock_val = 0\<rparr>, fvi_value = \<lparr>fv_ifindex = p, fv_last_seen = now\<rparr>\<rparr>"

definition learned ::
  "xdp_helpers \<Rightarrow> fdb_key \<Rightarrow> u32 \<times> u64 \<Rightarrow> (fdb_key \<rightharpoonup> fdb_value_item) \<Rightarrow> (fdb_key \<rightharpoonup> fdb_value_item)"
where
  "learned H k e t = (case t k of
     None \<Rightarrow> snd (h_fdb_update H t k (new_item (fst e) (snd e)) BPF_NOEXIST)
   | Some item \<Rightarrow>
       if fresh (fst e) (snd e) (fvi_value item) then t
       else t(k \<mapsto> item\<lparr>fvi_value := \<lparr>fv_ifindex = fst e, fv_last_seen = snd e\<rparr>\<rparr>))"

definition found :: "fdb_key \<Rightarrow> (fdb_key \<rightharpoonup> fdb_value_item) \<Rightarrow> u32 option" where
  "found k t = (case t k of None \<Rightarrow> None
     | Some item \<Rightarrow> if fv_ifindex (fvi_value item) = 0 then None else Some (fv_ifindex (fvi_value item)))"

lemma rd_base [runs]:
  "unat (data (ctx s)) + n \<le> unat (data_end (ctx s)) \<Longrightarrow>
     rd (ptr (data (ctx s))) n s = Some (take n (pkt_bytes (ctx s) (mem s)))"
  by (simp add: rd_def pkt_load_base)

lemma rd_off [runs]:
  "unat (data (ctx s)) + k + n \<le> unat (data_end (ctx s)) \<Longrightarrow>
     rd (ptr_add (ptr (data (ctx s))) k) n s = Some (take n (drop k (pkt_bytes (ctx s) (mem s))))"
  by (simp add: rd_def pkt_load_off)

lemma rd16_off [runs]:
  "unat (data (ctx s)) + k + 2 \<le> unat (data_end (ctx s)) \<Longrightarrow>
     rd16 (ptr_add (ptr (data (ctx s))) k) s = Some (word16 (take 2 (drop k (pkt_bytes (ctx s) (mem s)))))"
  by (simp add: rd16_def runs)

definition has_eth :: "xdp_state \<Rightarrow> bool" where
  "has_eth s \<longleftrightarrow> unat (data (ctx s)) + 14 \<le> unat (data_end (ctx s))"

lemma fdb_value_rewrite [simp]:
  "v\<lparr>fv_ifindex := p, fv_last_seen := t\<rparr> = (\<lparr>fv_ifindex = p, fv_last_seen = t\<rparr> :: fdb_value)"
  by (cases v) simp

lemma fdb_learning_run [runs]:
  assumes "held s = None" and "has_eth s"
  shows "fdb_learning H (ptr (data (ctx s))) vh vid s =
    Some (s\<lparr>fdb_table := learned H (src_key s vid) (ingress_ifindex (ctx s), ktime s) (fdb_table s)\<rparr>)"
  using assms
  by (cases "fdb_table s (src_key s vid)")
     (auto simp: fdb_learning_def has_eth_def runs src_key_def learned_def new_item_def fresh_def
       bpf_ktime_get_ns_def update_fdb_def bpf_spin_lock_def bpf_spin_unlock_def Let_def
       split: prod.splits)

lemma fdb_lookup_run [runs]:
  assumes "held s = None" and "has_eth s" and "xdp_forward_config_cache s 0 = Some fc"
  shows "fdb_lookup (ptr (data (ctx s))) vh vid s =
    Some (if found (dst_key s vid) (fdb_table s) = None then s
          else s\<lparr>xdp_forward_config_cache := (xdp_forward_config_cache s)
                 (0 \<mapsto> fc\<lparr>fc_fdb_value := fvi_value (the (fdb_table s (dst_key s vid)))\<rparr>)\<rparr>)"
  using assms
  by (cases "fdb_table s (dst_key s vid)")
     (auto simp: fdb_lookup_def has_eth_def runs dst_key_def found_def lookup_cache_def
       bpf_spin_lock_def bpf_spin_unlock_def Let_def)

section \<open>The interface forwarding relies on\<close>

text \<open>
  A table that learns events for keys and finds the port of a key. \<open>room\<close> says that the table
  can store the key, \<open>good\<close> that the event names a real port.
\<close>

locale mac_table =
  fixes learn :: "'k \<Rightarrow> 'e \<Rightarrow> 't \<Rightarrow> 't"
    and find_port :: "'k \<Rightarrow> 't \<Rightarrow> 'p option"
    and port :: "'e \<Rightarrow> 'p"
    and inv :: "'t \<Rightarrow> bool"
    and room :: "'k \<Rightarrow> 't \<Rightarrow> bool"
    and good :: "'e \<Rightarrow> bool"
  assumes inv_learn: "inv t \<Longrightarrow> inv (learn k e t)"
    and find_learn: "inv t \<Longrightarrow> room k t \<Longrightarrow> good e \<Longrightarrow> find_port k (learn k e t) = Some (port e)"
    and find_learn_other: "inv t \<Longrightarrow> k' \<noteq> k \<Longrightarrow> find_port k' (learn k e t) = find_port k' t"
    and stored_room: "find_port k t \<noteq> None \<Longrightarrow> room k t"
begin

lemma inv_fold: "inv t \<Longrightarrow> inv (fold (\<lambda>(k, e). learn k e) es t)"
  by (induction es arbitrary: t) (auto intro: inv_learn)

lemma find_fold_other:
  "inv t \<Longrightarrow> k \<notin> fst ` set es \<Longrightarrow> find_port k (fold (\<lambda>(k, e). learn k e) es t) = find_port k t"
proof (induction es arbitrary: t)
  case Nil
  then show ?case by simp
next
  case (Cons x es)
  obtain k' e where x: "x = (k', e)" by (cases x)
  with Cons.prems have "k \<noteq> k'" and "k \<notin> fst ` set es" by auto
  with Cons.prems(1) Cons.IH [of "learn k' e t"] x show ?case
    by (simp add: inv_learn find_learn_other)
qed

text \<open>The port found is the one of the last event, whatever was learned in between.\<close>

lemma find_last_learned:
  assumes "inv t" and "room k t" and "good e" and "k \<notin> fst ` set es"
  shows "find_port k (fold (\<lambda>(k, e). learn k e) es (learn k e t)) = Some (port e)"
  using assms by (simp add: find_fold_other inv_learn find_learn)

lemma still_room:
  assumes "inv t" and "find_port k t \<noteq> None" and "\<forall>x\<in>set es. good (snd x)"
  shows "find_port k (fold (\<lambda>(k, e). learn k e) es t) \<noteq> None"
  using assms
proof (induction es arbitrary: t)
  case Nil
  then show ?case by simp
next
  case (Cons x es)
  obtain k' e where x: "x = (k', e)" by (cases x)
  have "find_port k (learn k' e t) \<noteq> None"
    using Cons.prems x by (cases "k' = k") (auto simp: find_learn find_learn_other stored_room)
  with Cons.prems Cons.IH [of "learn k' e t"] x show ?case by (simp add: inv_learn)
qed

end

definition fdb_ok :: "xdp_helpers \<Rightarrow> (fdb_key \<rightharpoonup> fdb_value_item) \<Rightarrow> bool" where
  "fdb_ok H t \<longleftrightarrow> fdb_update_law H \<and> finite (dom t) \<and> card (dom t) \<le> fdb_table_max_entries"

definition fdb_room :: "xdp_helpers \<Rightarrow> fdb_key \<Rightarrow> (fdb_key \<rightharpoonup> fdb_value_item) \<Rightarrow> bool" where
  "fdb_room H k t \<longleftrightarrow> t k \<noteq> None \<or> (\<forall>v. fst (h_fdb_update H t k v BPF_NOEXIST) = 0)"

lemma fdb_update_cases:
  assumes "fdb_update_law H"
  obtains "fst (h_fdb_update H t k v BPF_NOEXIST) = 0" and "t k = None"
      and "snd (h_fdb_update H t k v BPF_NOEXIST) = t(k \<mapsto> v)"
      and "finite (dom t) \<Longrightarrow> card (insert k (dom t)) \<le> fdb_table_max_entries"
  | "fst (h_fdb_update H t k v BPF_NOEXIST) \<noteq> 0"
      and "snd (h_fdb_update H t k v BPF_NOEXIST) = t"
proof -
  obtain rc t' where e: "h_fdb_update H t k v BPF_NOEXIST = (rc, t')" by fastforce
  with assms have "rc = 0 \<longrightarrow> t k = None \<and> t' = t(k \<mapsto> v) \<and>
      (finite (dom t) \<longrightarrow> card (dom t') \<le> fdb_table_max_entries)" and "rc \<noteq> 0 \<longrightarrow> t' = t"
    unfolding fdb_update_law_def by blast+
  with e that show thesis by (cases "rc = 0") auto
qed

lemma learned_ok: "fdb_ok H t \<Longrightarrow> fdb_ok H (learned H k e t)"
  unfolding fdb_ok_def
  by (cases rule: fdb_update_cases [of H t k "new_item (fst e) (snd e)"])
     (auto simp: learned_def insert_absorb domI split: option.splits)

lemma learned_other: "fdb_update_law H \<Longrightarrow> k' \<noteq> k \<Longrightarrow> learned H k e t k' = t k'"
  by (cases rule: fdb_update_cases [of H t k "new_item (fst e) (snd e)"])
     (auto simp: learned_def split: option.splits)

lemma found_learned:
  assumes "fdb_update_law H" and "fdb_room H k t" and "fst e \<noteq> 0"
  shows "found k (learned H k e t) = Some (fst e)"
  using assms
  by (cases rule: fdb_update_cases [of H t k "new_item (fst e) (snd e)"])
     (auto simp: learned_def found_def fdb_room_def fresh_def new_item_def split: option.splits)

interpretation mac: mac_table "learned H" found fst "fdb_ok H" "fdb_room H" "\<lambda>e. fst e \<noteq> 0" for H
proof unfold_locales
  show "fdb_ok H t \<Longrightarrow> fdb_ok H (learned H k e t)" for t k e
    by (rule learned_ok)
  show "fdb_ok H t \<Longrightarrow> fdb_room H k t \<Longrightarrow> fst e \<noteq> 0 \<Longrightarrow>
      found k (learned H k e t) = Some (fst e)" for t k and e :: "u32 \<times> u64"
    by (simp add: fdb_ok_def found_learned)
  show "fdb_ok H t \<Longrightarrow> k' \<noteq> k \<Longrightarrow> found k' (learned H k e t) = found k' t" for t k' k e
    by (simp add: fdb_ok_def found_def learned_other)
  show "found k t \<noteq> None \<Longrightarrow> fdb_room H k t" for k t
    by (auto simp: found_def fdb_room_def split: option.splits)
qed

section \<open>Properties\<close>

lemma has_eth_len: "has_eth s \<longleftrightarrow> 14 \<le> pkt_len (ctx s)"
  by (auto simp: has_eth_def pkt_len_def)

text \<open>Learning from a frame touches the entry of its source address and VLAN only. An
  unknown address gets a new entry for the ingress port, or none when the kernel refuses it; a
  known one is left alone while it is fresh for this port, and otherwise moved to this port and
  this time.\<close>

theorem fdb_learning_exact:
  assumes "fdb_update_law H" and "held s = None" and "14 \<le> pkt_len (ctx s)"
  shows "\<exists>t. fdb_learning H (ptr (data (ctx s))) vh vid s = Some (s\<lparr>fdb_table := t\<rparr>) \<and>
    (\<forall>k. k \<noteq> src_key s vid \<longrightarrow> t k = fdb_table s k) \<and>
    (case fdb_table s (src_key s vid) of
       None \<Rightarrow> t (src_key s vid) \<in> {None, Some (new_item (ingress_ifindex (ctx s)) (ktime s))}
     | Some it \<Rightarrow> t (src_key s vid) = Some
         (if fresh (ingress_ifindex (ctx s)) (ktime s) (fvi_value it) then it
          else it\<lparr>fvi_value := \<lparr>fv_ifindex = ingress_ifindex (ctx s), fv_last_seen = ktime s\<rparr>\<rparr>))"
proof -
  let ?t = "learned H (src_key s vid) (ingress_ifindex (ctx s), ktime s) (fdb_table s)"
  have "fdb_learning H (ptr (data (ctx s))) vh vid s = Some (s\<lparr>fdb_table := ?t\<rparr>)"
    using assms by (simp add: runs has_eth_len)
  moreover have "?t k = fdb_table s k" if "k \<noteq> src_key s vid" for k
    using assms(1) that by (rule learned_other)
  moreover have "case fdb_table s (src_key s vid) of
       None \<Rightarrow> ?t (src_key s vid) \<in> {None, Some (new_item (ingress_ifindex (ctx s)) (ktime s))}
     | Some it \<Rightarrow> ?t (src_key s vid) = Some
         (if fresh (ingress_ifindex (ctx s)) (ktime s) (fvi_value it) then it
          else it\<lparr>fvi_value := \<lparr>fv_ifindex = ingress_ifindex (ctx s), fv_last_seen = ktime s\<rparr>\<rparr>)"
    using assms(1)
    by (cases rule: fdb_update_cases
        [of H "fdb_table s" "src_key s vid" "new_item (ingress_ifindex (ctx s)) (ktime s)"])
       (auto simp: learned_def split: option.splits)
  ultimately show ?thesis by blast
qed

theorem fdb_learning_exact_witness:
  "\<exists>t. fdb_learning (ref_helpers 0) (ptr 4096) 0 5
      (sample_state (plain_frame mac_a mac_b) 1 Map.empty zero_cache) =
    Some (sample_state (plain_frame mac_a mac_b) 1 Map.empty zero_cache\<lparr>fdb_table := t\<rparr>)"
  using fdb_learning_exact [of "ref_helpers 0" "sample_state (plain_frame mac_a mac_b) 1 Map.empty zero_cache" 0 5]
  by (auto simp: ref_fdb_update_law)

text \<open>C11: a frame is forwarded where its destination was last seen. After a frame from address
  \<open>A\<close> in a VLAN has been learned on a port, and after any further learning that does not
  concern \<open>A\<close> in this VLAN, the lookup for a frame to \<open>A\<close> in this VLAN puts that port into
  the cache and changes nothing else of it.\<close>

theorem learned_port_is_looked_up:
  assumes "fdb_ok H (fdb_table s)" and "fdb_room H (src_key s vid) (fdb_table s)"
    and "ingress_ifindex (ctx s) \<noteq> 0" and "held s = None" and "14 \<le> pkt_len (ctx s)"
    and "fdb_learning H (ptr (data (ctx s))) vh vid s = Some s'"
    and "src_key s vid \<notin> fst ` set es"
    and "fdb_table s2 = fold (\<lambda>(k, e). learned H k e) es (fdb_table s')"
    and "held s2 = None" and "14 \<le> pkt_len (ctx s2)"
    and "xdp_forward_config_cache s2 0 = Some fc" and "dst_key s2 vid2 = src_key s vid"
  shows "\<exists>seen. fdb_lookup (ptr (data (ctx s2))) vh2 vid2 s2 =
    Some (s2\<lparr>xdp_forward_config_cache := (xdp_forward_config_cache s2)
      (0 \<mapsto> fc\<lparr>fc_fdb_value := \<lparr>fv_ifindex = ingress_ifindex (ctx s), fv_last_seen = seen\<rparr>\<rparr>)\<rparr>)"
proof -
  let ?k = "src_key s vid" and ?e = "(ingress_ifindex (ctx s), ktime s)"
  have "fdb_table s' = learned H ?k ?e (fdb_table s)"
    using assms(4-6) by (auto simp: runs has_eth_len)
  then have f: "found ?k (fdb_table s2) = Some (ingress_ifindex (ctx s))"
    using mac.find_last_learned [of H "fdb_table s" ?k ?e es] assms(1-3,7,8) by simp
  then obtain it where "fdb_table s2 ?k = Some it" "fv_ifindex (fvi_value it) = ingress_ifindex (ctx s)"
    by (auto simp: found_def split: option.splits if_splits)
  then have "fvi_value (the (fdb_table s2 ?k)) =
      \<lparr>fv_ifindex = ingress_ifindex (ctx s), fv_last_seen = fv_last_seen (fvi_value it)\<rparr>"
    by (cases "fvi_value it") simp
  then show ?thesis
    using f assms(9-12) by (auto simp: runs has_eth_len intro!: exI [of _ "fv_last_seen (fvi_value it)"])
qed

theorem learned_port_is_looked_up_witness:
  "\<exists>s' seen. fdb_learning (ref_helpers 0) (ptr 4096) 0 5
      (sample_state (plain_frame mac_b mac_a) 1 Map.empty zero_cache) = Some s' \<and>
    fdb_lookup (ptr 4096) 0 5 (sample_state (plain_frame mac_a mac_b) 2 (fdb_table s') zero_cache) =
      Some (sample_state (plain_frame mac_a mac_b) 2 (fdb_table s')
        (zero_cache\<lparr>fc_fdb_value := \<lparr>fv_ifindex = 1, fv_last_seen = seen\<rparr>\<rparr>))"
proof -
  let ?s = "sample_state (plain_frame mac_b mac_a) 1 Map.empty zero_cache"
  have h: "held ?s = None" "has_eth ?s" by (simp_all add: has_eth_len)
  obtain s' where s': "fdb_learning (ref_helpers 0) (ptr (data (ctx ?s))) 0 5 ?s = Some s'"
    using fdb_learning_run [OF h] by blast
  let ?s2 = "sample_state (plain_frame mac_a mac_b) 2 (fdb_table s') zero_cache"
  have k: "dst_key ?s2 5 = src_key ?s 5"
    by (simp add: dst_key_def src_key_def plain_frame_def mac_a_def mac_b_def)
  have "\<exists>seen. fdb_lookup (ptr (data (ctx ?s2))) 0 5 ?s2 =
      Some (?s2\<lparr>xdp_forward_config_cache := (xdp_forward_config_cache ?s2)
        (0 \<mapsto> zero_cache\<lparr>fc_fdb_value := \<lparr>fv_ifindex = ingress_ifindex (ctx ?s), fv_last_seen = seen\<rparr>\<rparr>)\<rparr>)"
    by (rule learned_port_is_looked_up [OF _ _ _ _ _ s', where es = "[]"])
       (use k in \<open>simp_all add: fdb_ok_def fdb_room_def ref_fdb_update_law ref_fdb_update_def
         fdb_table_max_entries_def\<close>)
  with s' show ?thesis by (auto simp: sample_state_def)
qed

text \<open>Learning keeps the table finite and within its declared 10240 entries.\<close>

theorem fdb_learning_capacity:
  assumes "fdb_ok H (fdb_table s)" and "held s = None" and "14 \<le> pkt_len (ctx s)"
    and "fdb_learning H (ptr (data (ctx s))) vh vid s = Some s'"
  shows "fdb_ok H (fdb_table s')"
  using assms by (auto simp: runs has_eth_len mac.inv_learn)

theorem fdb_learning_capacity_witness:
  "\<exists>s'. fdb_learning (ref_helpers 0) (ptr 4096) 0 5
      (sample_state (plain_frame mac_b mac_a) 1 Map.empty zero_cache) = Some s' \<and>
    fdb_ok (ref_helpers 0) (fdb_table s')"
proof -
  let ?s = "sample_state (plain_frame mac_b mac_a) 1 Map.empty zero_cache"
  have h: "held ?s = None" "has_eth ?s" by (simp_all add: has_eth_len)
  obtain s' where s': "fdb_learning (ref_helpers 0) (ptr (data (ctx ?s))) 0 5 ?s = Some s'"
    using fdb_learning_run [OF h] by blast
  have "fdb_ok (ref_helpers 0) (fdb_table s')"
    by (rule fdb_learning_capacity [OF _ _ _ s']) (simp_all add: fdb_ok_def ref_fdb_update_law)
  with s' show ?thesis by auto
qed

text \<open>A lookup that finds no usable entry leaves the cached result of the previous frame in
  place; a lookup that finds one replaces it by the entry.\<close>

theorem fdb_lookup_exact:
  assumes "held s = None" and "14 \<le> pkt_len (ctx s)" and "xdp_forward_config_cache s 0 = Some fc"
  shows "fdb_lookup (ptr (data (ctx s))) vh vid s = Some (case fdb_table s (dst_key s vid) of
      None \<Rightarrow> s
    | Some it \<Rightarrow> if fv_ifindex (fvi_value it) = 0 then s
        else s\<lparr>xdp_forward_config_cache :=
          (xdp_forward_config_cache s)(0 \<mapsto> fc\<lparr>fc_fdb_value := fvi_value it\<rparr>)\<rparr>)"
  using assms by (auto simp: runs has_eth_len found_def split: option.splits)

theorem fdb_lookup_exact_witness:
  "fdb_lookup (ptr 4096) 0 5 (sample_state (plain_frame mac_a mac_b) 2 Map.empty zero_cache) =
    Some (sample_state (plain_frame mac_a mac_b) 2 Map.empty zero_cache)"
  using fdb_lookup_exact [of "sample_state (plain_frame mac_a mac_b) 2 Map.empty zero_cache" zero_cache 0 5]
  by simp

text \<open>When an entry of the same port is refreshed. The age is a difference of unsigned
  64-bit clock readings: an entry in the past is refreshed when it is older than a second, an
  entry that lies ahead of the clock is refreshed at once unless the difference wraps to a
  second or less.\<close>

theorem refresh_bounds:
  "fresh p now v \<longleftrightarrow> fv_ifindex v = p \<and>
     (if unat (fv_last_seen v) \<le> unat now then unat now - unat (fv_last_seen v) \<le> 10 ^ 9
      else 2 ^ 64 \<le> unat (fv_last_seen v) - unat now + 10 ^ 9)"
proof -
  have "unat (now - fv_last_seen v) =
      (if unat (fv_last_seen v) \<le> unat now then unat now - unat (fv_last_seen v)
       else 2 ^ 64 - (unat (fv_last_seen v) - unat now))"
    using unat_less [of now] unat_less [of "fv_last_seen v"] by (auto simp: unat_sub_if')
  then show ?thesis
    using unat_less [of now] unat_less [of "fv_last_seen v"]
    by (auto simp: fresh_def SECOND_def word_less_nat_alt not_less)
qed

lemma other_vlan_key:
  assumes "unat vid < 65536" and "unat vid2 < 65536" and "vid \<noteq> vid2"
  shows "dst_key s2 vid2 \<noteq> src_key s vid"
proof -
  have "(ucast vid :: u16) \<noteq> ucast vid2"
  proof
    assume "(ucast vid :: u16) = ucast vid2"
    then have "unat (ucast vid :: u16) = unat (ucast vid2 :: u16)" by simp
    then have "unat vid = unat vid2" using assms(1,2) by (simp add: unsigned_ucast_eq take_bit_eq_mod)
    with assms(3) show False by (simp add: word_unat_eq_iff)
  qed
  then show ?thesis by (auto simp: src_key_def dst_key_def)
qed

text \<open>VLANs do not share entries: learning from a frame in one VLAN changes nothing in what a
  lookup in another does, for VLAN numbers that fit the 16 bits of the key.\<close>

theorem vlan_isolation:
  assumes "fdb_update_law H" and "held s = None" and "14 \<le> pkt_len (ctx s)"
    and "fdb_learning H (ptr (data (ctx s))) vh vid s = Some s'"
    and "unat vid < 65536" and "unat vid2 < 65536" and "vid \<noteq> vid2"
    and "held s2 = None" and "14 \<le> pkt_len (ctx s2)" and "xdp_forward_config_cache s2 0 = Some fc"
  shows "fdb_lookup (ptr (data (ctx s2))) vh2 vid2 (s2\<lparr>fdb_table := fdb_table s'\<rparr>) =
    map_option (\<lambda>r. r\<lparr>fdb_table := fdb_table s'\<rparr>)
      (fdb_lookup (ptr (data (ctx s2))) vh2 vid2 (s2\<lparr>fdb_table := fdb_table s\<rparr>))"
proof -
  have k: "dst_key (s2\<lparr>fdb_table := t\<rparr>) vid2 = dst_key s2 vid2" for t by (simp add: dst_key_def)
  have "fdb_table s' = learned H (src_key s vid) (ingress_ifindex (ctx s), ktime s) (fdb_table s)"
    using assms(2-4) by (auto simp: runs has_eth_len)
  then have e: "fdb_table s' (dst_key s2 vid2) = fdb_table s (dst_key s2 vid2)"
    using learned_other [OF assms(1) other_vlan_key [OF assms(5-7)]] by simp
  have "has_eth (s2\<lparr>fdb_table := t\<rparr>)" for t using assms(9) by (simp add: has_eth_len)
  then show ?thesis
    using fdb_lookup_run [of "s2\<lparr>fdb_table := fdb_table s'\<rparr>" fc vh2 vid2]
      fdb_lookup_run [of "s2\<lparr>fdb_table := fdb_table s\<rparr>" fc vh2 vid2] assms(8,10) e
    by (simp add: k found_def)
qed

theorem vlan_isolation_witness:
  "\<exists>s'. fdb_learning (ref_helpers 0) (ptr 4096) 0 5
      (sample_state (plain_frame mac_b mac_a) 1 Map.empty zero_cache) = Some s' \<and>
    fdb_lookup (ptr 4096) 0 6 (sample_state (plain_frame mac_a mac_b) 2 (fdb_table s') zero_cache) =
      Some (sample_state (plain_frame mac_a mac_b) 2 (fdb_table s') zero_cache)"
proof -
  let ?s = "sample_state (plain_frame mac_b mac_a) 1 Map.empty zero_cache"
  let ?s2 = "sample_state (plain_frame mac_a mac_b) 2 Map.empty zero_cache"
  have h: "held ?s = None" "has_eth ?s" by (simp_all add: has_eth_len)
  obtain s' where s': "fdb_learning (ref_helpers 0) (ptr (data (ctx ?s))) 0 5 ?s = Some s'"
    using fdb_learning_run [OF h] by blast
  have "fdb_lookup (ptr (data (ctx ?s2))) 0 6 (?s2\<lparr>fdb_table := fdb_table ?s\<rparr>) = Some ?s2"
    using fdb_lookup_run [of ?s2 zero_cache 0 6] by (simp add: has_eth_len found_def sample_state_def)
  with vlan_isolation [OF ref_fdb_update_law _ _ s', of 6 ?s2 zero_cache 0] s'
  show ?thesis by (simp add: sample_state_def)
qed

end
