(* ===== verification/Vlan.thy ===== *)
theory Vlan
  imports Fdb
begin

text \<open>
  VLAN handling on receipt: \<open>l2_recv_vlan\<close> of l2.h, which decides whether a frame may enter
  through an interface and in which VLAN it travels. A null \<open>vlan_header\<close> is the null pointer,
  as in the code. The specification is \<open>admit\<close>, over the interface's configuration and the
  frame's tag.
\<close>

definition NULL :: addr where "NULL = 0"

definition l2_recv_vlan ::
  "iface_config \<Rightarrow> addr \<Rightarrow> addr \<Rightarrow> u32 \<Rightarrow> xdp_state \<Rightarrow> (xdp_action \<times> u32) option" where
  "l2_recv_vlan in_if_config ether_header vlan_header vlan_id s =
     (if l2c_vlan_mode (ifc_l2 in_if_config) = VLAN_ACCESS then
        if vlan_header = NULL then Some (XDP_PASS, l2c_vlan_id (ifc_l2 in_if_config))
        else Some (XDP_DROP, vlan_id)
      else
        if vlan_header = NULL then
          if l2c_vlan_id (ifc_l2 in_if_config) = 0 then Some (XDP_DROP, vlan_id)
          else Some (XDP_PASS, l2c_vlan_id (ifc_l2 in_if_config))
        else do {
          tci \<leftarrow> rd16 vlan_header s;
          let vlan_tci = (ucast (bpf_ntohs False tci) :: u32) AND 0x0FFF;
          if vlan_tci = l2c_vlan_id (ifc_l2 in_if_config) then
            Some (XDP_PASS, l2c_vlan_id (ifc_l2 in_if_config))
          else if vlan_tci < l2c_vlan_range_start (ifc_l2 in_if_config) \<or>
                  l2c_vlan_range_end (ifc_l2 in_if_config) < vlan_tci then
            Some (XDP_DROP, vlan_id)
          else Some (XDP_PASS, vlan_tci)
        })"

section \<open>Specification\<close>

text \<open>The VLANs a trunk carries: its native VLAN and its range.\<close>

definition in_range :: "iface_config_l2 \<Rightarrow> u32 \<Rightarrow> bool" where
  "in_range c vid \<longleftrightarrow> l2c_vlan_range_start c \<le> vid \<and> vid \<le> l2c_vlan_range_end c"

definition admit :: "iface_config_l2 \<Rightarrow> u32 option \<Rightarrow> u32 option" where
  "admit c tag =
     (case tag of
        None \<Rightarrow> if l2c_vlan_mode c = VLAN_ACCESS \<or> l2c_vlan_id c \<noteq> 0 then Some (l2c_vlan_id c) else None
      | Some v \<Rightarrow> if l2c_vlan_mode c \<noteq> VLAN_ACCESS \<and> (v = l2c_vlan_id c \<or> in_range c v) then Some v else None)"

definition tag_vid :: "xdp_state \<Rightarrow> u32" where
  "tag_vid s = (ucast (bpf_ntohs False (word16 (take 2 (drop 14 (pkt_bytes (ctx s) (mem s)))))) :: u32) AND 0x0FFF"

definition has_vlan :: "xdp_state \<Rightarrow> bool" where
  "has_vlan s \<longleftrightarrow> unat (data (ctx s)) + 18 \<le> unat (data_end (ctx s))"

text \<open>The pointer arguments the caller passes for a frame with and without a tag.\<close>

definition vlan_ptr :: "xdp_state \<Rightarrow> bool \<Rightarrow> addr" where
  "vlan_ptr s tagged = (if tagged then ptr_add (ptr (data (ctx s))) sizeof_ethhdr else NULL)"

definition frame_tag :: "xdp_state \<Rightarrow> bool \<Rightarrow> u32 option" where
  "frame_tag s tagged = (if tagged then Some (tag_vid s) else None)"

lemma has_vlan_len: "has_vlan s \<longleftrightarrow> 18 \<le> pkt_len (ctx s)"
  by (auto simp: has_vlan_def pkt_len_def)

lemma vlan_ptr_null [simp]: "vlan_ptr s tagged = NULL \<longleftrightarrow> \<not> tagged"
proof -
  have "unat (ptr_add (ptr (data (ctx s))) 14) \<noteq> 0" by simp
  then have "ptr_add (ptr (data (ctx s))) 14 \<noteq> 0" by (metis unat_0)
  then show ?thesis by (simp add: vlan_ptr_def NULL_def sizeof_defs)
qed

lemma tag_vid_bound: "unat (tag_vid s) \<le> 4095"
  by (simp add: tag_vid_def unat_and_0xFFF)

lemma l2_recv_vlan_run [runs]:
  assumes "tagged \<longrightarrow> has_vlan s"
  shows "l2_recv_vlan cfg eth (vlan_ptr s tagged) vid0 s =
    Some (case admit (ifc_l2 cfg) (frame_tag s tagged) of
            None \<Rightarrow> (XDP_DROP, vid0) | Some vid \<Rightarrow> (XDP_PASS, vid))"
proof (cases tagged)
  case True
  then have "rd16 (vlan_ptr s True) s = Some (word16 (take 2 (drop 14 (pkt_bytes (ctx s) (mem s)))))"
    using assms by (simp add: vlan_ptr_def sizeof_defs has_vlan_def runs)
  with True show ?thesis
    by (auto simp: l2_recv_vlan_def admit_def frame_tag_def tag_vid_def in_range_def Let_def
      not_le not_less)
next
  case False
  then show ?thesis by (auto simp: l2_recv_vlan_def admit_def frame_tag_def)
qed

section \<open>Properties\<close>

text \<open>C24: receipt implements the VLAN admission rule. An access port takes untagged frames into
  its VLAN and no tagged frame; a trunk takes untagged frames into its native VLAN when it has
  one, and tagged frames of its native VLAN or its range. A refused frame is dropped and the
  caller's VLAN number stays as it was.\<close>

theorem l2_recv_vlan_refines_admit:
  assumes "tagged \<longrightarrow> 18 \<le> pkt_len (ctx s)"
  shows "l2_recv_vlan cfg eth (vlan_ptr s tagged) vid0 s =
    Some (case admit (ifc_l2 cfg) (frame_tag s tagged) of
            None \<Rightarrow> (XDP_DROP, vid0) | Some vid \<Rightarrow> (XDP_PASS, vid))"
  using assms by (simp add: runs has_vlan_len)

theorem l2_recv_vlan_refines_admit_witness:
  "l2_recv_vlan (sample_config 3 VLAN_TRUNK 5) (ptr 4096) (ptr_add (ptr 4096) 14) 0
     (sample_state (tagged_frame mac_a mac_b 12) 3 Map.empty zero_cache) = Some (XDP_PASS, 12)"
proof -
  let ?s = "sample_state (tagged_frame mac_a mac_b 12) 3 Map.empty zero_cache"
  have v: "tag_vid ?s = 12"
    by (simp add: tag_vid_def tagged_frame_def mac_a_def mac_b_def ntohs_word16)
  have "True \<longrightarrow> 18 \<le> pkt_len (ctx ?s)" by simp
  from l2_recv_vlan_refines_admit [OF this, of "sample_config 3 VLAN_TRUNK 5" "ptr 4096" 0] v
  show ?thesis
    by (simp add: admit_def frame_tag_def vlan_ptr_def sizeof_defs sample_config_def sample_l2_def
      in_range_def VLAN_TRUNK_def VLAN_ACCESS_def)
qed

text \<open>The VLAN a frame is admitted to is a 12-bit number whenever the port's own VLAN is, so
  the 16-bit key of the forwarding database never truncates it.\<close>

theorem admitted_vlan_bound:
  assumes "unat (l2c_vlan_id (ifc_l2 cfg)) \<le> 4095" and "tagged \<longrightarrow> 18 \<le> pkt_len (ctx s)"
    and "l2_recv_vlan cfg eth (vlan_ptr s tagged) vid0 s = Some (XDP_PASS, vid)"
  shows "unat vid \<le> 4095 \<and> unat (fk_vlan_id (src_key s vid)) = unat vid"
proof -
  have "unat vid \<le> 4095"
    using assms tag_vid_bound [of s]
    by (auto simp: runs has_vlan_len admit_def frame_tag_def split: if_splits option.splits)
  then show ?thesis by (simp add: src_key_def unsigned_ucast_eq take_bit_eq_mod)
qed

theorem admitted_vlan_bound_witness:
  "unat (fk_vlan_id (src_key (sample_state (plain_frame mac_a mac_b) 1 Map.empty zero_cache) 5)) = 5"
proof -
  let ?s = "sample_state (plain_frame mac_a mac_b) 1 Map.empty zero_cache"
  have "l2_recv_vlan (sample_config 1 VLAN_ACCESS 5) 0 (vlan_ptr ?s False) 0 ?s = Some (XDP_PASS, 5)"
    by (simp add: l2_recv_vlan_def sample_config_def sample_l2_def)
  then show ?thesis
    using admitted_vlan_bound [of "sample_config 1 VLAN_ACCESS 5" False ?s 0 0 5]
    by (simp add: sample_config_def sample_l2_def)
qed

end
