(* ===== verification/L2_Out.thy ===== *)
theory L2_Out
  imports Vlan
begin

text \<open>
  \<open>l2_out\<close> of l2.h: the egress decision, shared by the XDP path and the TC flood. It calls one of
  three functions it is given (strip the tag and send, add a tag and send, send as is). The
  specification is the pure decision \<open>l2_egress\<close>; the locale \<open>l2_sender\<close> is the contract of
  the three functions, interpreted on the XDP ones and on the TC ones.
\<close>

definition l2_out ::
  "iface_config \<Rightarrow> iface_config \<Rightarrow> u32 \<Rightarrow> bool \<Rightarrow> ('s \<Rightarrow> (int \<times> 's) option) \<Rightarrow>
   ('s \<Rightarrow> (int \<times> 's) option) \<Rightarrow> ('s \<Rightarrow> (int \<times> 's) option) \<Rightarrow> 's \<Rightarrow> (int \<times> 's) option" where
  "l2_out out_if_config in_if_config vlan_id is_vlan_pkt decap encap direct s =
     (if ifc_mode out_if_config \<noteq> IF_MODE_L2 then Some (-1, s)
      else if ifc_ifindex out_if_config = ifc_ifindex in_if_config then Some (-1, s)
      else
        let out_if_vlan_id = l2c_vlan_id (ifc_l2 out_if_config) in
        if l2c_vlan_mode (ifc_l2 out_if_config) = VLAN_ACCESS then
          if vlan_id \<noteq> out_if_vlan_id then Some (-1, s)
          else if is_vlan_pkt then
            if vlan_id = 0 then Some (-1, s) else decap s
          else direct s
        else
          if out_if_vlan_id = 0 then Some (-1, s)
          else if vlan_id = out_if_vlan_id then
            if is_vlan_pkt then
              if vlan_id = 0 then Some (-1, s) else decap s
            else direct s
          else if l2c_vlan_range_start (ifc_l2 out_if_config) \<le> vlan_id \<and>
                  vlan_id \<le> l2c_vlan_range_end (ifc_l2 out_if_config) then
            if is_vlan_pkt then
              if vlan_id = 0 then Some (-1, s) else direct s
            else encap s
          else Some (-1, s))"

section \<open>The decision\<close>

datatype egress = Refuse | Decap | Encap | Direct

definition egress_member :: "iface_config_l2 \<Rightarrow> u32 \<Rightarrow> bool" where
  "egress_member c vid \<longleftrightarrow>
     (if l2c_vlan_mode c = VLAN_ACCESS then vid = l2c_vlan_id c
      else l2c_vlan_id c \<noteq> 0 \<and> (vid = l2c_vlan_id c \<or> in_range c vid))"

definition eligible :: "iface_config \<Rightarrow> iface_config \<Rightarrow> u32 \<Rightarrow> bool \<Rightarrow> bool" where
  "eligible out inn vid tagged \<longleftrightarrow>
     ifc_mode out = IF_MODE_L2 \<and> ifc_ifindex out \<noteq> ifc_ifindex inn \<and>
     egress_member (ifc_l2 out) vid \<and> \<not> (tagged \<and> vid = 0)"

definition l2_egress :: "iface_config \<Rightarrow> iface_config \<Rightarrow> u32 \<Rightarrow> bool \<Rightarrow> egress" where
  "l2_egress out inn vid tagged =
     (if \<not> eligible out inn vid tagged then Refuse
      else if vid = l2c_vlan_id (ifc_l2 out) then (if tagged then Decap else Direct)
      else (if tagged then Direct else Encap))"

fun perform ::
  "egress \<Rightarrow> ('s \<Rightarrow> (int \<times> 's) option) \<Rightarrow> ('s \<Rightarrow> (int \<times> 's) option) \<Rightarrow> ('s \<Rightarrow> (int \<times> 's) option) \<Rightarrow>
   's \<Rightarrow> (int \<times> 's) option" where
  "perform Refuse decap encap direct s = Some (-1, s)"
| "perform Decap decap encap direct s = decap s"
| "perform Encap decap encap direct s = encap s"
| "perform Direct decap encap direct s = direct s"

lemma l2_out_perform:
  "l2_out out inn vid tagged decap encap direct s =
     perform (l2_egress out inn vid tagged) decap encap direct s"
  by (simp add: l2_out_def l2_egress_def eligible_def egress_member_def in_range_def Let_def)

lemma l2_out_any:
  assumes "Q (-1, s)" and "succeeds (decap s) Q" and "succeeds (encap s) Q" and "succeeds (direct s) Q"
  shows "succeeds (l2_out out inn vid tagged decap encap direct s) Q"
  using assms by (cases "l2_egress out inn vid tagged") (simp_all add: l2_out_perform)

lemma l2_out_refused:
  "\<not> eligible out inn vid tagged \<Longrightarrow> l2_out out inn vid tagged decap encap direct s = Some (-1, s)"
  by (simp add: l2_out_perform l2_egress_def)

lemma l2_egressD:
  "l2_egress out inn vid tagged = Refuse \<Longrightarrow> \<not> eligible out inn vid tagged"
  "l2_egress out inn vid tagged = Decap \<Longrightarrow> eligible out inn vid tagged \<and> tagged"
  "l2_egress out inn vid tagged = Encap \<Longrightarrow> eligible out inn vid tagged \<and> \<not> tagged"
  "l2_egress out inn vid tagged = Direct \<Longrightarrow> eligible out inn vid tagged"
  by (auto simp: l2_egress_def split: if_splits)

text \<open>The frame an action puts on the wire.\<close>

fun egress_frame :: "('f \<Rightarrow> 'f) \<Rightarrow> ('f \<Rightarrow> 'f) \<Rightarrow> egress \<Rightarrow> 'f \<Rightarrow> 'f" where
  "egress_frame untag addtag Decap f = untag f"
| "egress_frame untag addtag Encap f = addtag f"
| "egress_frame untag addtag _ f = f"

section \<open>The contract of the send functions\<close>

text \<open>
  \<open>ok\<close> is the state a send function may be called in, \<open>safe\<close> what it keeps, \<open>can\<close> whether the
  kernel lets the send through; then the function returns 0 and has emitted the right frame, and
  otherwise it returns -1.
\<close>

locale l2_sender =
  fixes decap encap direct :: "'s \<Rightarrow> (int \<times> 's) option"
    and ok :: "'s \<Rightarrow> bool"
    and safe :: "'s \<Rightarrow> bool"
    and tagged :: bool
    and frame :: "'s \<Rightarrow> 'f"
    and untag :: "'f \<Rightarrow> 'f"
    and addtag :: "'f \<Rightarrow> 'f"
    and can :: "egress \<Rightarrow> 's \<Rightarrow> bool"
    and emitted :: "'s \<Rightarrow> 's \<Rightarrow> 'f \<Rightarrow> bool"
  assumes ok_safe: "ok s \<Longrightarrow> safe s"
    and decap: "ok s \<Longrightarrow> tagged \<Longrightarrow> succeeds (decap s) (\<lambda>(rc, s'). safe s' \<and>
      (if can Decap s then rc = 0 \<and> emitted s s' (untag (frame s)) else rc = -1))"
    and encap: "ok s \<Longrightarrow> \<not> tagged \<Longrightarrow> succeeds (encap s) (\<lambda>(rc, s'). safe s' \<and>
      (if can Encap s then rc = 0 \<and> emitted s s' (addtag (frame s)) else rc = -1))"
    and direct: "ok s \<Longrightarrow> succeeds (direct s) (\<lambda>(rc, s'). safe s' \<and>
      (if can Direct s then rc = 0 \<and> emitted s s' (frame s) else rc = -1))"
begin

lemma l2_out_contract:
  assumes "ok s"
  shows "succeeds (l2_out out inn vid tagged decap encap direct s) (\<lambda>(rc, s'). safe s' \<and>
    (if eligible out inn vid tagged \<and> can (l2_egress out inn vid tagged) s
     then rc = 0 \<and> emitted s s' (egress_frame untag addtag (l2_egress out inn vid tagged) (frame s))
     else rc = -1))"
  using assms decap [of s] encap [of s] direct [of s] ok_safe [of s]
    l2_egressD [of out inn vid tagged]
  by (cases "l2_egress out inn vid tagged")
     (auto simp: l2_out_perform cong: if_cong split del: if_split)

end

text \<open>A sender whose failures are not seen outside: nothing has been emitted after -1.\<close>

locale l2_quiet_sender = l2_sender +
  fixes quiet :: "'a \<Rightarrow> 'a \<Rightarrow> bool"
  assumes quiet_refl: "quiet s s"
    and decap_quiet: "ok s \<Longrightarrow> tagged \<Longrightarrow> \<not> can Decap s \<Longrightarrow> succeeds (decap s) (\<lambda>(rc, s'). quiet s s')"
    and encap_quiet: "ok s \<Longrightarrow> \<not> tagged \<Longrightarrow> \<not> can Encap s \<Longrightarrow> succeeds (encap s) (\<lambda>(rc, s'). quiet s s')"
    and direct_quiet: "ok s \<Longrightarrow> \<not> can Direct s \<Longrightarrow> succeeds (direct s) (\<lambda>(rc, s'). quiet s s')"
begin

lemma l2_out_quiet:
  assumes "ok s" and "\<not> (eligible out inn vid tagged \<and> can (l2_egress out inn vid tagged) s)"
  shows "succeeds (l2_out out inn vid tagged decap encap direct s) (\<lambda>(rc, s'). quiet s s')"
  using assms decap_quiet [of s] encap_quiet [of s] direct_quiet [of s] quiet_refl
    l2_egressD [of out inn vid tagged]
  by (cases "l2_egress out inn vid tagged") (auto simp: l2_out_perform)

end

section \<open>Properties\<close>

text \<open>C23: the egress code is exactly the VLAN egress rule, for any three send functions: it calls
  none of them for a port that is not in layer-2 mode, is the ingress port, or does not carry the
  VLAN, and otherwise exactly one of them.\<close>

theorem l2_out_refines_egress:
  "l2_out out inn vid tagged decap encap direct s =
     perform (l2_egress out inn vid tagged) decap encap direct s"
  by (rule l2_out_perform)

text \<open>A frame leaves a port without a tag exactly when it travels in the port's own VLAN (the
  access VLAN or the native VLAN), and an access port never sends a tagged frame. The send functions
  here report whether the frame on the wire has a tag.\<close>

theorem egress_tagging:
  "\<exists>rc wire. l2_out out inn vid tagged (\<lambda>_. Some (0, Some False)) (\<lambda>_. Some (0, Some True))
      (\<lambda>_. Some (0, Some tagged)) None = Some (rc, wire) \<and>
    wire = (if rc = 0 then Some (vid \<noteq> l2c_vlan_id (ifc_l2 out)) else None) \<and>
    (l2c_vlan_mode (ifc_l2 out) = VLAN_ACCESS \<longrightarrow> wire \<noteq> Some True)"
  by (auto simp: l2_out_perform l2_egress_def eligible_def egress_member_def)

theorem egress_tagging_witness:
  "l2_out (sample_config 2 VLAN_ACCESS 5) (sample_config 1 VLAN_ACCESS 5) 5 True (\<lambda>_. Some (0, Some False))
     (\<lambda>_. Some (0, Some True)) (\<lambda>_. Some (0, Some True)) None \<noteq> Some (0, Some True)"
  using egress_tagging [of "sample_config 2 VLAN_ACCESS 5" "sample_config 1 VLAN_ACCESS 5" 5 True]
  by (auto simp: sample_config_def sample_l2_def)

text \<open>Admission and egress agree on the VLANs of a port, but for a trunk without a native
  VLAN: a port that admits tagged frames of a VLAN also carries that VLAN on egress when its own
  VLAN number is not zero, and carries nothing at all when it is a trunk whose number is zero.\<close>

theorem trunk_without_native_never_sends:
  assumes "admit (ifc_l2 out) (Some vid) = Some v"
  shows "v = vid \<and>
    (egress_member (ifc_l2 out) vid \<longleftrightarrow> l2c_vlan_id (ifc_l2 out) \<noteq> 0) \<and>
    (l2c_vlan_id (ifc_l2 out) = 0 \<longrightarrow>
       l2_out out inn vid' tagged decap encap direct s = Some (-1, s))"
  using assms
  by (auto simp: admit_def egress_member_def l2_out_perform l2_egress_def eligible_def split: if_splits)

theorem trunk_without_native_never_sends_witness:
  "l2_out (sample_config 3 VLAN_TRUNK 0) (sample_config 1 VLAN_ACCESS 12) 12 False
     (\<lambda>s. None) (\<lambda>s. None) (\<lambda>s. None) (0 :: nat) = Some (-1, 0)"
proof -
  have a: "admit (ifc_l2 (sample_config 3 VLAN_TRUNK 0)) (Some 12) = Some 12"
    by (simp add: admit_def in_range_def sample_config_def sample_l2_def VLAN_TRUNK_def VLAN_ACCESS_def)
  from trunk_without_native_never_sends [OF a, of "sample_config 1 VLAN_ACCESS 12" 12 False
      "\<lambda>s. None" "\<lambda>s. None" "\<lambda>s. None" "0 :: nat"]
  show ?thesis by (simp add: sample_config_def sample_l2_def)
qed

end
