(* ===== verification/Tc_Helpers.thy ===== *)
theory Tc_Helpers
  imports Protocol Samples
begin

text \<open>
  The state and the kernel helpers of the TC programs. The packet of a socket buffer is the frame
  as it would leave on the wire. The helpers are a parameter, with the documented behaviour of
  bpf_helper_defs.h as laws; \<open>sent\<close> logs the clones the kernel has accepted, oldest first.
  \<open>bpf_for_each_map_elem\<close> is written out over the order in which the kernel visits the keys,
  which is the part the documentation leaves open.
\<close>

section \<open>State\<close>

record sk_buff =
  skb_ingress_ifindex :: u32
  skb_data :: u32
  skb_data_meta :: u32
  skb_packet :: "u8 list"

record tc_state = kstate +
  skb :: sk_buff
  tc_mem :: memory
  sent :: "(u32 \<times> u8 list) list"

record tc_helpers =
  h_vlan_pop :: "sk_buff \<Rightarrow> int \<times> sk_buff"
  h_vlan_push :: "u16 \<Rightarrow> u16 \<Rightarrow> sk_buff \<Rightarrow> int \<times> sk_buff"
  h_clone_redirect :: "u32 \<Rightarrow> u64 \<Rightarrow> sk_buff \<Rightarrow> (u32 \<times> u8 list) list \<Rightarrow> int"
  h_iteration :: "(u32 \<rightharpoonup> iface_config_item) \<Rightarrow> u32 list"
  h_tc_tail_call :: "u32 \<Rightarrow> bool"

definition bpf_skb_vlan_pop :: "tc_helpers \<Rightarrow> tc_state \<Rightarrow> (int \<times> tc_state) option" where
  "bpf_skb_vlan_pop H s = do {
     (rc, b) \<leftarrow> helper_call s (h_vlan_pop H (skb s));
     Some (rc, s\<lparr>skb := b\<rparr>)
   }"

definition bpf_skb_vlan_push :: "tc_helpers \<Rightarrow> u16 \<Rightarrow> u16 \<Rightarrow> tc_state \<Rightarrow> (int \<times> tc_state) option" where
  "bpf_skb_vlan_push H proto tci s = do {
     (rc, b) \<leftarrow> helper_call s (h_vlan_push H proto tci (skb s));
     Some (rc, s\<lparr>skb := b\<rparr>)
   }"

definition bpf_clone_redirect :: "tc_helpers \<Rightarrow> u32 \<Rightarrow> u64 \<Rightarrow> tc_state \<Rightarrow> (int \<times> tc_state) option" where
  "bpf_clone_redirect H ifi flags s = do {
     rc \<leftarrow> helper_call s (h_clone_redirect H ifi flags (skb s) (sent s));
     Some (rc, if rc = 0 then s\<lparr>sent := sent s @ [(ifi, skb_packet (skb s))]\<rparr> else s)
   }"

fun for_each_key ::
  "(u32 \<Rightarrow> tc_state \<Rightarrow> (int \<times> tc_state) option) \<Rightarrow> u32 list \<Rightarrow> int \<Rightarrow> tc_state \<Rightarrow> (int \<times> tc_state) option"
where
  "for_each_key callback [] n s = Some (n, s)"
| "for_each_key callback (k # ks) n s = do {
     (rc, s) \<leftarrow> callback k s;
     if rc = 0 then for_each_key callback ks (n + 1) s else Some (n + 1, s)
   }"

definition bpf_for_each_map_elem ::
  "tc_helpers \<Rightarrow> (u32 \<Rightarrow> tc_state \<Rightarrow> (int \<times> tc_state) option) \<Rightarrow> u64 \<Rightarrow> tc_state \<Rightarrow>
   (int \<times> tc_state) option" where
  "bpf_for_each_map_elem H callback flags s = do {
     ks \<leftarrow> helper_call s (h_iteration H (iface_config_map s));
     if flags \<noteq> 0 then Some (- EINVAL, s) else for_each_key callback ks 0 s
   }"

section \<open>What the TC programs rely on\<close>

text \<open>A frame with a tag pushed, and whether a frame carries one.\<close>

definition untag_frame :: "u8 list \<Rightarrow> u8 list" where
  "untag_frame f = take 12 f @ drop 16 f"

definition push_tag :: "u16 \<Rightarrow> u16 \<Rightarrow> u8 list \<Rightarrow> u8 list" where
  "push_tag proto tci f = take 12 f @ bytes16 proto @ bytes16 (bpf_htons False tci) @ drop 12 f"

definition frame_is_tagged :: "u8 list \<Rightarrow> bool" where
  "frame_is_tagged f \<longleftrightarrow> 16 \<le> length f \<and>
     take 2 (drop 12 f) \<in> {bytes16 (bpf_htons True ETH_P_8021Q), bytes16 (bpf_htons True ETH_P_8021AD)}"

text \<open>
  Popping removes the tag of a tagged frame; pushing puts a tag behind the addresses, where any
  type but the two VLAN types counts as 802.1Q. The ingress interface is not affected. Nothing is
  said of the frame after a failure.
\<close>

definition vlan_law :: "tc_helpers \<Rightarrow> bool" where
  "vlan_law H \<longleftrightarrow>
     (\<forall>b rc b'. h_vlan_pop H b = (rc, b') \<longrightarrow>
        skb_ingress_ifindex b' = skb_ingress_ifindex b \<and>
        (rc = 0 \<longrightarrow> frame_is_tagged (skb_packet b) \<longrightarrow> skb_packet b' = untag_frame (skb_packet b))) \<and>
     (\<forall>b proto tci rc b'. h_vlan_push H proto tci b = (rc, b') \<longrightarrow>
        skb_ingress_ifindex b' = skb_ingress_ifindex b \<and>
        (rc = 0 \<longrightarrow> skb_packet b' = push_tag
           (if proto \<in> {bpf_htons True ETH_P_8021Q, bpf_htons True ETH_P_8021AD} then proto
            else bpf_htons True ETH_P_8021Q) tci (skb_packet b)))"

text \<open>The iteration visits every key of a finite map once.\<close>

definition iteration_law :: "tc_helpers \<Rightarrow> bool" where
  "iteration_law H \<longleftrightarrow>
     (\<forall>m. finite (dom m) \<longrightarrow> distinct (h_iteration H m) \<and> set (h_iteration H m) = dom m)"

definition tc_laws :: "tc_helpers \<Rightarrow> bool" where
  "tc_laws H \<longleftrightarrow> vlan_law H \<and> iteration_law H"

text \<open>A kernel that grants every request.\<close>

definition accepting :: "tc_helpers \<Rightarrow> bool" where
  "accepting H \<longleftrightarrow> (\<forall>b. fst (h_vlan_pop H b) = 0) \<and> (\<forall>p t b. fst (h_vlan_push H p t b) = 0) \<and>
     (\<forall>i f b l. h_clone_redirect H i f b l = 0)"

lemma tc_lawsD: "tc_laws H \<Longrightarrow> vlan_law H" "tc_laws H \<Longrightarrow> iteration_law H"
  by (simp_all add: tc_laws_def)

lemma iterationD:
  assumes "tc_laws H" and "finite (dom m)"
  shows "distinct (h_iteration H m)" and "set (h_iteration H m) = dom m"
  using assms by (auto simp: tc_laws_def iteration_law_def)

lemma popD:
  assumes "vlan_law H" and "h_vlan_pop H b = (rc, b')"
  shows "skb_ingress_ifindex b' = skb_ingress_ifindex b"
    and "rc = 0 \<Longrightarrow> frame_is_tagged (skb_packet b) \<Longrightarrow> skb_packet b' = untag_frame (skb_packet b)"
  using assms unfolding vlan_law_def by blast+

lemma pushD:
  assumes "vlan_law H" and "h_vlan_push H (bpf_htons True ETH_P_8021Q) tci b = (rc, b')"
  shows "skb_ingress_ifindex b' = skb_ingress_ifindex b"
    and "rc = 0 \<Longrightarrow> skb_packet b' = push_tag (bpf_htons True ETH_P_8021Q) tci (skb_packet b)"
  using assms unfolding vlan_law_def by (fastforce, fastforce)

section \<open>Frames and tags\<close>

lemma untag_push [simp]: "12 \<le> length f \<Longrightarrow> untag_frame (push_tag proto tci f) = f"
  by (simp add: untag_frame_def push_tag_def)

lemma length_push_tag [simp]: "length (push_tag proto tci f) = length f + 4"
  by (cases "12 \<le> length f") (simp_all add: push_tag_def)

lemma push_is_tagged [simp]:
  "12 \<le> length f \<Longrightarrow> frame_is_tagged (push_tag (bpf_htons True ETH_P_8021Q) tci f)"
  by (simp add: frame_is_tagged_def) (simp add: push_tag_def)

lemma push_untag:
  assumes "16 \<le> length f" and "take 4 (drop 12 f) = bytes16 proto @ bytes16 (bpf_htons False tci)"
  shows "push_tag proto tci (untag_frame f) = f"
proof -
  have "push_tag proto tci (untag_frame f) =
      take 12 f @ (bytes16 proto @ bytes16 (bpf_htons False tci)) @ drop 16 f"
    using assms(1) by (simp add: push_tag_def untag_frame_def)
  also have "\<dots> = take 12 f @ take 4 (drop 12 f) @ drop (4 + 12) f"
    by (simp add: assms(2))
  also have "\<dots> = f" by (simp only: take_drop_join append_take_drop_id)
  finally show ?thesis .
qed

section \<open>Reference helpers\<close>

definition ref_vlan_pop :: "sk_buff \<Rightarrow> int \<times> sk_buff" where
  "ref_vlan_pop b =
     (0, if frame_is_tagged (skb_packet b) then b\<lparr>skb_packet := untag_frame (skb_packet b)\<rparr> else b)"

definition ref_vlan_push :: "u16 \<Rightarrow> u16 \<Rightarrow> sk_buff \<Rightarrow> int \<times> sk_buff" where
  "ref_vlan_push proto tci b =
     (0, b\<lparr>skb_packet := push_tag
        (if proto \<in> {bpf_htons True ETH_P_8021Q, bpf_htons True ETH_P_8021AD} then proto
         else bpf_htons True ETH_P_8021Q) tci (skb_packet b)\<rparr>)"

text \<open>\<open>busy\<close> is a set of ports whose devices are congested.\<close>

definition ref_tc_helpers :: "u32 list \<Rightarrow> tc_helpers" where
  "ref_tc_helpers busy =
     \<lparr>h_vlan_pop = ref_vlan_pop, h_vlan_push = ref_vlan_push,
      h_clone_redirect = (\<lambda>i f b l. if i \<in> set busy then 1 else 0),
      h_iteration = (\<lambda>m. sorted_list_of_set (dom m)),
      h_tc_tail_call = (\<lambda>i. tc_jmp_table i \<noteq> None)\<rparr>"

lemma ref_tc_helpers_sel [simp]:
  "h_vlan_pop (ref_tc_helpers busy) = ref_vlan_pop"
  "h_vlan_push (ref_tc_helpers busy) = ref_vlan_push"
  "h_clone_redirect (ref_tc_helpers busy) i f b l = (if i \<in> set busy then 1 else 0)"
  "h_iteration (ref_tc_helpers busy) m = sorted_list_of_set (dom m)"
  "h_tc_tail_call (ref_tc_helpers busy) i = (tc_jmp_table i \<noteq> None)"
  by (simp_all add: ref_tc_helpers_def)

lemma ref_tc_laws [simp]: "tc_laws (ref_tc_helpers busy)"
  by (auto simp: tc_laws_def vlan_law_def iteration_law_def ref_vlan_pop_def ref_vlan_push_def)

lemma ref_tc_accepting [simp]: "accepting (ref_tc_helpers [])"
  by (simp add: accepting_def ref_vlan_pop_def ref_vlan_push_def)

end
