(* ===== verification/Xdp_Out.thy ===== *)
theory Xdp_Out
  imports L2_Out Tc_Helpers
begin

text \<open>
  The XDP side of egress (l2.h): the three send functions that rewrite the frame in place and
  ask for a redirect, \<open>xdp_l2_out\<close> that runs the egress decision over them, and
  \<open>fdb_flood_tag\<close> that hands an unknown destination to the TC program through metadata in front
  of the packet. The frame-level meaning of the rewriting is \<open>untag_frame\<close> and \<open>tag_frame\<close>.
\<close>

section \<open>The code\<close>

definition vlan_header_orignal_SET :: u32 where "vlan_header_orignal_SET = 1"

record xdp_l2_send_context =
  sc_flages :: u32
  sc_ether_header_orignal :: ethhdr
  sc_vlan_header_orignal :: vlan_hdr
  sc_out_config :: iface_config
  sc_vlan_id :: u32

definition xdp_l2_decap_vlan_and_send ::
  "xdp_helpers \<Rightarrow> xdp_l2_send_context \<Rightarrow> xdp_state \<Rightarrow> (int \<times> xdp_state) option" where
  "xdp_l2_decap_vlan_and_send H send_ctx s = do {
     let ether_header_original = sc_ether_header_orignal send_ctx;
     (rc, s) \<leftarrow> bpf_xdp_adjust_head H (int sizeof_vlan_hdr) s;
     if rc \<noteq> 0 then Some (-1, s)
     else
       let new_eth = ptr (data (ctx s)); data_end = ptr (data_end (ctx s)) in
       if data_end < ptr_add new_eth sizeof_ethhdr then Some (-1, s)
       else do {
         s \<leftarrow> wr new_eth (h_dest ether_header_original) s;
         s \<leftarrow> wr (ptr_add new_eth 6) (h_source ether_header_original) s;
         s \<leftarrow> wr (ptr_add new_eth 12)
                (bytes16 (h_vlan_encapsulated_proto (sc_vlan_header_orignal send_ctx))) s;
         (rc, s) \<leftarrow> bpf_redirect H (ifc_ifindex (sc_out_config send_ctx)) 0 s;
         if rc \<noteq> xdp_action_val XDP_REDIRECT then Some (-1, s) else Some (0, s)
       }
   }"

definition xdp_l2_send_directly ::
  "xdp_helpers \<Rightarrow> xdp_l2_send_context \<Rightarrow> xdp_state \<Rightarrow> (int \<times> xdp_state) option" where
  "xdp_l2_send_directly H send_ctx s = do {
     (rc, s) \<leftarrow> bpf_redirect H (ifc_ifindex (sc_out_config send_ctx)) 0 s;
     if rc \<noteq> xdp_action_val XDP_REDIRECT then Some (-1, s) else Some (0, s)
   }"

definition xdp_l2_encap_vlan_and_send ::
  "xdp_helpers \<Rightarrow> xdp_l2_send_context \<Rightarrow> xdp_state \<Rightarrow> (int \<times> xdp_state) option" where
  "xdp_l2_encap_vlan_and_send H send_ctx s = do {
     let ether_header_original = sc_ether_header_orignal send_ctx;
     (rc, s) \<leftarrow> bpf_xdp_adjust_head H (- int sizeof_vlan_hdr) s;
     if rc \<noteq> 0 then Some (-1, s)
     else
       let new_eth = ptr (data (ctx s)); data_end = ptr (data_end (ctx s));
           new_vlan = ptr_add new_eth sizeof_ethhdr in
       if data_end < ptr_add (ptr_add new_eth sizeof_ethhdr) sizeof_vlan_hdr then Some (-1, s)
       else do {
         s \<leftarrow> wr new_eth (h_dest ether_header_original) s;
         s \<leftarrow> wr (ptr_add new_eth 6) (h_source ether_header_original) s;
         s \<leftarrow> wr (ptr_add new_eth 12) (bytes16 (bpf_htons True ETH_P_8021Q)) s;
         s \<leftarrow> wr new_vlan (bytes16 (bpf_htons False (ucast (sc_vlan_id send_ctx AND 0x0FFF)))) s;
         s \<leftarrow> wr (ptr_add new_vlan 2) (bytes16 (h_proto ether_header_original)) s;
         (rc, s) \<leftarrow> bpf_redirect H (ifc_ifindex (sc_out_config send_ctx)) 0 s;
         if rc \<noteq> xdp_action_val XDP_REDIRECT then Some (-1, s) else Some (0, s)
       }
   }"

definition xdp_l2_out ::
  "xdp_helpers \<Rightarrow> addr \<Rightarrow> addr \<Rightarrow> u32 \<Rightarrow> xdp_state \<Rightarrow> (xdp_action \<times> xdp_state) option" where
  "xdp_l2_out H ether_header vlan_header vlan_id s = do {
     cache \<leftarrow> lookup_cache 0 s;
     (case cache of
        None \<Rightarrow> Some (XDP_DROP, s)
      | Some fc \<Rightarrow>
          if ifc_ifindex (fc_out_if_config fc) = 0 then Some (XDP_DROP, s)
          else do {
            let out_config = fc_out_if_config fc;
            let in_config = fc_in_if_config fc;
            eth \<leftarrow> rd ether_header sizeof_ethhdr s;
            vlan \<leftarrow> (if vlan_header \<noteq> NULL then rd vlan_header sizeof_vlan_hdr s
                     else Some (replicate sizeof_vlan_hdr 0));
            let send_ctx = \<lparr>sc_flages = (if vlan_header \<noteq> NULL then vlan_header_orignal_SET else 0),
                  sc_ether_header_orignal = decode_ethhdr eth,
                  sc_vlan_header_orignal = decode_vlan_hdr vlan,
                  sc_out_config = out_config, sc_vlan_id = vlan_id\<rparr>;
            (ret, s) \<leftarrow> l2_out out_config in_config vlan_id (vlan_header \<noteq> NULL)
              (xdp_l2_decap_vlan_and_send H send_ctx) (xdp_l2_encap_vlan_and_send H send_ctx)
              (xdp_l2_send_directly H send_ctx) s;
            if ret \<noteq> 0 then Some (XDP_DROP, s) else Some (XDP_DROP, s)
          })
   }"

definition fdb_flood_tag ::
  "xdp_helpers \<Rightarrow> addr \<Rightarrow> addr \<Rightarrow> u32 \<Rightarrow> xdp_state \<Rightarrow> (xdp_action \<times> xdp_state) option" where
  "fdb_flood_tag H ether_header vlan_header vlan_id s = do {
     (ret, s) \<leftarrow> bpf_xdp_adjust_meta H (- int sizeof_dp_metadata) s;
     if ret < 0 then Some (XDP_DROP, s)
     else
       let md = ptr (data_meta (ctx s)); data = ptr (data (ctx s)) in
       if data < ptr_add md sizeof_dp_metadata then Some (XDP_DROP, s)
       else do {
         s \<leftarrow> wr_meta md (replicate sizeof_l2_metadata 0) s;
         s \<leftarrow> wr_meta (ptr_add md off_magic) (bytes32 DP_META_MAGIC) s;
         s \<leftarrow> wr_meta (ptr_add md off_meta_type) (bytes32 DP_META_L2) s;
         s \<leftarrow> (if vlan_header \<noteq> NULL then do {
                 flags \<leftarrow> rd_meta32 (ptr_add md off_l2_flags) s;
                 wr_meta (ptr_add md off_l2_flags) (bytes32 (flags OR L2_VLAN_PACKET)) s
               } else Some s);
         flags \<leftarrow> rd_meta32 (ptr_add md off_l2_flags) s;
         s \<leftarrow> wr_meta (ptr_add md off_l2_flags) (bytes32 (flags OR L2_FLOOD)) s;
         s \<leftarrow> wr_meta (ptr_add md off_l2_vlan_id) (bytes32 vlan_id) s;
         Some (XDP_PASS, s)
       }
   }"

section \<open>Rewriting the frame\<close>

definition tag_frame :: "u32 \<Rightarrow> u8 list \<Rightarrow> u8 list" where
  "tag_frame vid f = take 12 f @ bytes16 (bpf_htons True ETH_P_8021Q) @
     bytes16 (bpf_htons False (ucast (vid AND 0x0FFF))) @ drop 12 f"

abbreviation frame :: "xdp_state \<Rightarrow> u8 list" where
  "frame s \<equiv> pkt_bytes (ctx s) (mem s)"

lemma wr_run [runs]:
  "data (ctx s) = d \<Longrightarrow> k < 4294967296 \<Longrightarrow> unat d + k + length bs \<le> unat (data_end (ctx s)) \<Longrightarrow>
     wr (ptr_add (ptr d) k) bs s = Some (s\<lparr>mem := store_bytes (mem s) (ptr_add (ptr d) k) bs\<rparr>)"
  by (auto simp: wr_def pkt_store_def pkt_access_off)

lemma wr_base_run [runs]:
  "data (ctx s) = d \<Longrightarrow> unat d + length bs \<le> unat (data_end (ctx s)) \<Longrightarrow>
     wr (ptr d) bs s = Some (s\<lparr>mem := store_bytes (mem s) (ptr d) bs\<rparr>)"
  using wr_run [of s d 0 bs] by simp

lemma pkt_bytes_store_prefix:
  assumes "length bs \<le> pkt_len c"
  shows "pkt_bytes c (store_bytes m (ptr (data c)) bs) = bs @ drop (length bs) (pkt_bytes c m)"
proof (rule nth_equalityI)
  show "length (pkt_bytes c (store_bytes m (ptr (data c)) bs)) =
      length (bs @ drop (length bs) (pkt_bytes c m))"
    using assms by simp
next
  fix i assume i: "i < length (pkt_bytes c (store_bytes m (ptr (data c)) bs))"
  then have "i < 4294967296" using unat_u32_less [of "data_end c"] by (simp add: pkt_len_def)
  with i assms show "pkt_bytes c (store_bytes m (ptr (data c)) bs) ! i =
      (bs @ drop (length bs) (pkt_bytes c m)) ! i"
    by (simp add: pkt_bytes_def store_bytes_def nth_append)
qed

lemma store_bytes_at_data:
  assumes "length xs + length ys < 4294967296" and "ys \<noteq> []" and "n = length xs"
  shows "store_bytes (store_bytes m (ptr d) xs) (ptr_add (ptr d) n) ys = store_bytes m (ptr d) (xs @ ys)"
  using assms unat_u32_less [of d] by (simp add: store_bytes_append)

text \<open>Moving the head forward drops bytes, moving it back puts new ones in front.\<close>

lemma adjust_head_forward:
  assumes "adjust_head_law H" and "h_adjust_head H c m (int n) = (0, c', m')"
  shows "pkt_bytes c' m' = drop n (pkt_bytes c m)" and "pkt_len c' + n = pkt_len c"
    and "unat (data c') = unat (data c) + n" and "data_end c' = data_end c"
    and "ingress_ifindex c' = ingress_ifindex c"
proof -
  have l: "int (unat (data c')) = int (unat (data c)) + int n" "data_end c' = data_end c"
      "ingress_ifindex c' = ingress_ifindex c" "unat (data c') \<le> unat (data_end c')"
    and m: "\<And>a. unat (data c) \<le> unat a \<Longrightarrow> unat (data c') \<le> unat a \<Longrightarrow> unat a < unat (data_end c) \<Longrightarrow> m' a = m a"
    using assms unfolding adjust_head_law_def by blast+
  show d: "unat (data c') = unat (data c) + n" using l(1) by linarith
  show len: "pkt_len c' + n = pkt_len c"
    unfolding pkt_len_def l(2) using d l(2,4) by simp
  show "data_end c' = data_end c" "ingress_ifindex c' = ingress_ifindex c" by (fact l)+
  show "pkt_bytes c' m' = drop n (pkt_bytes c m)"
  proof (rule nth_equalityI)
    show "length (pkt_bytes c' m') = length (drop n (pkt_bytes c m))" using len by simp
  next
    fix i assume "i < length (pkt_bytes c' m')"
    then have i: "i < pkt_len c'" by simp
    then have b: "unat (data c) + n + i < unat (data_end c)" using d l by (simp add: pkt_len_def)
    have a: "ptr_add (ptr (data c')) i = ptr_add (ptr (data c)) (n + i)"
      by (rule word_unat_eq_iff [THEN iffD2]) (use b d unat_u32_less [of "data_end c"] in simp)
    have "m' (ptr_add (ptr (data c)) (n + i)) = m (ptr_add (ptr (data c)) (n + i))"
      by (rule m) (use b d unat_u32_less [of "data_end c"] in simp_all)
    with i len a show "pkt_bytes c' m' ! i = drop n (pkt_bytes c m) ! i"
      by (simp add: pkt_bytes_def)
  qed
qed

lemma adjust_head_back:
  assumes "adjust_head_law H" and "h_adjust_head H c m (- int n) = (0, c', m')"
    and "unat (data c) \<le> unat (data_end c)"
  shows "drop n (pkt_bytes c' m') = pkt_bytes c m" and "pkt_len c' = pkt_len c + n"
    and "data_end c' = data_end c" and "ingress_ifindex c' = ingress_ifindex c"
    and "unat (data c') + n = unat (data c)"
proof -
  have l: "int (unat (data c')) = int (unat (data c)) - int n" "data_end c' = data_end c"
      "ingress_ifindex c' = ingress_ifindex c" "unat (data c') \<le> unat (data_end c')"
    and m: "\<And>a. unat (data c) \<le> unat a \<Longrightarrow> unat (data c') \<le> unat a \<Longrightarrow> unat a < unat (data_end c) \<Longrightarrow> m' a = m a"
    using assms(1,2) unfolding adjust_head_law_def by fastforce+
  show d: "unat (data c') + n = unat (data c)" using l(1) by linarith
  show len: "pkt_len c' = pkt_len c + n"
    unfolding pkt_len_def l(2) using d assms(3) by linarith
  show "data_end c' = data_end c" "ingress_ifindex c' = ingress_ifindex c" by (fact l)+
  show "drop n (pkt_bytes c' m') = pkt_bytes c m"
  proof (rule nth_equalityI)
    show "length (drop n (pkt_bytes c' m')) = length (pkt_bytes c m)" using len by simp
  next
    fix i assume "i < length (drop n (pkt_bytes c' m'))"
    then have i: "i < pkt_len c" using len by simp
    then have b: "unat (data c) + i < unat (data_end c)" by (simp add: pkt_len_def)
    have a: "ptr_add (ptr (data c')) (n + i) = ptr_add (ptr (data c)) i"
      by (rule word_unat_eq_iff [THEN iffD2]) (use b d unat_u32_less [of "data_end c"] in simp)
    have "m' (ptr_add (ptr (data c)) i) = m (ptr_add (ptr (data c)) i)"
      by (rule m) (use b d unat_u32_less [of "data_end c"] in simp_all)
    with i len a show "drop n (pkt_bytes c' m') ! i = pkt_bytes c m ! i"
      by (simp add: pkt_bytes_def)
  qed
qed

section \<open>The send functions\<close>

text \<open>What sending leaves alone.\<close>

definition kept :: "xdp_state \<Rightarrow> xdp_state \<Rightarrow> bool" where
  "kept s s' \<longleftrightarrow> held s' = held s \<and> iface_config_map s' = iface_config_map s \<and>
     fdb_table s' = fdb_table s \<and> xdp_forward_config_cache s' = xdp_forward_config_cache s \<and>
     ktime s' = ktime s \<and> ingress_ifindex (ctx s') = ingress_ifindex (ctx s)"

lemma kept_refl [simp]: "kept s s"
  by (simp add: kept_def)

lemma kept_mem [simp]: "kept s (s\<lparr>mem := m\<rparr>)"
  by (simp add: kept_def)

lemma kept_redirect [simp]: "kept s (s\<lparr>redirect_to := r\<rparr>)"
  by (simp add: kept_def)

text \<open>
  What a send function owes when the kernel accepts its requests (\<open>acc\<close>): the frame it was
  asked for, and the redirect. Otherwise -1, and no redirect.
\<close>

definition sends :: "u32 \<Rightarrow> u8 list \<Rightarrow> bool \<Rightarrow> xdp_state \<Rightarrow> int \<times> xdp_state \<Rightarrow> bool" where
  "sends i f acc s = (\<lambda>(rc, s'). kept s s' \<and>
     (if acc then rc = 0 \<and> frame s' = f \<and> redirect_to s' = Some i
      else rc = -1 \<and> redirect_to s' = redirect_to s))"

definition redirects :: "xdp_helpers \<Rightarrow> u32 \<Rightarrow> bool" where
  "redirects H i \<longleftrightarrow> h_redirect H i 0 = xdp_action_val XDP_REDIRECT"

definition moves_head :: "xdp_helpers \<Rightarrow> int \<Rightarrow> xdp_state \<Rightarrow> bool" where
  "moves_head H d s \<longleftrightarrow> fst (h_adjust_head H (ctx s) (mem s) d) = 0"

lemma send_redirect:
  assumes "held s' = None" and "kept s s'" and "redirect_to s' = redirect_to s" and "frame s' = f"
    and "acc \<longleftrightarrow> redirects H i"
  shows "succeeds (do { (rc, s) \<leftarrow> bpf_redirect H i 0 s';
      if rc \<noteq> xdp_action_val XDP_REDIRECT then Some (-1, s) else Some (0, s) }) (sends i f acc s)"
  using assms by (simp add: bpf_redirect_def runs redirects_def sends_def kept_def)

lemma direct_contract:
  assumes "held s = None"
  shows "succeeds (xdp_l2_send_directly H sc s)
    (sends (ifc_ifindex (sc_out_config sc)) (frame s) (redirects H (ifc_ifindex (sc_out_config sc))) s)"
  unfolding xdp_l2_send_directly_def by (rule send_redirect) (simp_all add: assms)

lemma adjust_head_run:
  "held s = None \<Longrightarrow> h_adjust_head H (ctx s) (mem s) d = (rc, c, m) \<Longrightarrow>
     bpf_xdp_adjust_head H d s = Some (rc, s\<lparr>ctx := c, mem := m\<rparr>)"
  by (simp add: bpf_xdp_adjust_head_def runs)

lemma adjust_head_failed:
  "adjust_head_law H \<Longrightarrow> h_adjust_head H c m d = (rc, c', m') \<Longrightarrow> rc \<noteq> 0 \<Longrightarrow> c' = c \<and> m' = m"
  unfolding adjust_head_law_def by blast

lemma ctx_mem_same [simp]: "s\<lparr>ctx := ctx s, mem := mem s\<rparr> = (s :: xdp_state)"
  by (cases s) simp

lemma decap_contract:
  assumes "adjust_head_law H" and "held s = None" and "18 \<le> pkt_len (ctx s)"
    and eth: "sc_ether_header_orignal sc = decode_ethhdr (take 14 (frame s))"
    and vlan: "sc_vlan_header_orignal sc = decode_vlan_hdr (take 4 (drop 14 (frame s)))"
  shows "succeeds (xdp_l2_decap_vlan_and_send H sc s)
    (sends (ifc_ifindex (sc_out_config sc)) (untag_frame (frame s))
      (moves_head H 4 s \<and> redirects H (ifc_ifindex (sc_out_config sc))) s)"
proof -
  obtain rc c m where adj: "h_adjust_head H (ctx s) (mem s) (int 4) = (rc, c, m)"
    by (cases "h_adjust_head H (ctx s) (mem s) (int 4)") auto
  show ?thesis
  proof (cases "rc = 0")
    case False
    then have "c = ctx s" "m = mem s" using adjust_head_failed [OF assms(1) adj] by auto
    with False adj assms(2) show ?thesis
      by (simp add: xdp_l2_decap_vlan_and_send_def sizeof_defs adjust_head_run sends_def moves_head_def)
  next
    case True
    note fwd = adjust_head_forward [OF assms(1) adj [unfolded True]]
    let ?hdr = "take 12 (frame s) @ take 2 (drop 16 (frame s))"
    let ?s = "s\<lparr>ctx := c, mem := store_bytes m (ptr (data c)) ?hdr\<rparr>"
    have len: "14 \<le> pkt_len c" using fwd(2) assms(3) by simp
    then have room: "unat (data c) + 14 \<le> unat (data_end c)" by (simp add: pkt_len_def)
    have f: "length (frame s) \<ge> 18" using assms(3) by simp
    have parts: "h_dest (sc_ether_header_orignal sc) = take 6 (frame s)"
      "h_source (sc_ether_header_orignal sc) = take 6 (drop 6 (frame s))"
      "bytes16 (h_vlan_encapsulated_proto (sc_vlan_header_orignal sc)) = take 2 (drop 16 (frame s))"
      using f by (simp_all add: eth vlan decode_ethhdr_def decode_vlan_hdr_def bytes16_take_drop
        drop_take)
    have twelve: "take 12 (frame s) = take 6 (frame s) @ take 6 (drop 6 (frame s))"
      by (simp add: take_add [of 6 6, simplified])
    have run: "xdp_l2_decap_vlan_and_send H sc s = (do {
        (rc, s) \<leftarrow> bpf_redirect H (ifc_ifindex (sc_out_config sc)) 0 ?s;
        if rc \<noteq> xdp_action_val XDP_REDIRECT then Some (-1, s) else Some (0, s) })"
      using room f assms(2) adj True parts
      by (simp add: xdp_l2_decap_vlan_and_send_def sizeof_defs adjust_head_run runs ptr_le_off
        store_bytes_at_data twelve Let_def)
    have "frame ?s = ?hdr @ drop 14 (pkt_bytes c m)"
      using pkt_bytes_store_prefix [of ?hdr c m] len f by simp
    also have "\<dots> = untag_frame (frame s)"
      using fwd(1) take_drop_join [of 2 16 "frame s"] by (simp add: untag_frame_def)
    finally show ?thesis
      unfolding run using fwd(5) assms(2) adj True by (intro send_redirect) (simp_all add: kept_def moves_head_def)
  qed
qed

lemma encap_contract:
  assumes "adjust_head_law H" and "held s = None" and "14 \<le> pkt_len (ctx s)"
    and eth: "sc_ether_header_orignal sc = decode_ethhdr (take 14 (frame s))"
  shows "succeeds (xdp_l2_encap_vlan_and_send H sc s)
    (sends (ifc_ifindex (sc_out_config sc)) (tag_frame (sc_vlan_id sc) (frame s))
      (moves_head H (-4) s \<and> redirects H (ifc_ifindex (sc_out_config sc))) s)"
proof -
  obtain rc c m where adj: "h_adjust_head H (ctx s) (mem s) (- int 4) = (rc, c, m)"
    by (cases "h_adjust_head H (ctx s) (mem s) (- int 4)") auto
  show ?thesis
  proof (cases "rc = 0")
    case False
    then have "c = ctx s" "m = mem s" using adjust_head_failed [OF assms(1) adj] by auto
    with False adj assms(2) show ?thesis
      by (simp add: xdp_l2_encap_vlan_and_send_def sizeof_defs adjust_head_run sends_def moves_head_def)
  next
    case True
    have le: "unat (data (ctx s)) \<le> unat (data_end (ctx s))" using assms(3) by (simp add: pkt_len_def)
    note bk = adjust_head_back [OF assms(1) adj [unfolded True] le]
    let ?tpid = "bytes16 (bpf_htons True ETH_P_8021Q)"
    let ?tci = "bytes16 (bpf_htons False (ucast (sc_vlan_id sc AND 0x0FFF)))"
    let ?hdr = "take 12 (frame s) @ ?tpid @ ?tci @ take 2 (drop 12 (frame s))"
    let ?s = "s\<lparr>ctx := c, mem := store_bytes m (ptr (data c)) ?hdr\<rparr>"
    have len: "18 \<le> pkt_len c" using bk(2) assms(3) by simp
    then have room: "unat (data c) + 18 \<le> unat (data_end c)" by (simp add: pkt_len_def)
    have f: "length (frame s) \<ge> 14" using assms(3) by simp
    have parts: "h_dest (sc_ether_header_orignal sc) = take 6 (frame s)"
      "h_source (sc_ether_header_orignal sc) = take 6 (drop 6 (frame s))"
      "bytes16 (h_proto (sc_ether_header_orignal sc)) = take 2 (drop 12 (frame s))"
      using f by (simp_all add: eth decode_ethhdr_def bytes16_take_drop drop_take)
    have twelve: "take 12 (frame s) = take 6 (frame s) @ take 6 (drop 6 (frame s))"
      by (simp add: take_add [of 6 6, simplified])
    have run: "xdp_l2_encap_vlan_and_send H sc s = (do {
        (rc, s) \<leftarrow> bpf_redirect H (ifc_ifindex (sc_out_config sc)) 0 ?s;
        if rc \<noteq> xdp_action_val XDP_REDIRECT then Some (-1, s) else Some (0, s) })"
      using room f assms(2) adj True parts
      by (simp add: xdp_l2_encap_vlan_and_send_def sizeof_defs adjust_head_run runs ptr_le_off
        store_bytes_at_data twelve Let_def)
    have "frame ?s = ?hdr @ drop 18 (pkt_bytes c m)"
      using pkt_bytes_store_prefix [of ?hdr c m] len f by simp
    also have "drop 18 (pkt_bytes c m) = drop 14 (drop 4 (pkt_bytes c m))" by simp
    also have "\<dots> = drop 14 (frame s)" unfolding bk(1) ..
    also have "?hdr @ drop 14 (frame s) = tag_frame (sc_vlan_id sc) (frame s)"
      using take_drop_join [of 2 12 "frame s"] by (simp add: tag_frame_def)
    finally show ?thesis
      unfolding run using bk(4) assms(2) adj True by (intro send_redirect) (simp_all add: kept_def moves_head_def)
  qed
qed

text \<open>The XDP functions meet the contract, for the state \<open>s0\<close> they are called in.\<close>

definition xdp_ready :: "xdp_helpers \<Rightarrow> xdp_l2_send_context \<Rightarrow> bool \<Rightarrow> xdp_state \<Rightarrow> xdp_state \<Rightarrow> bool" where
  "xdp_ready H sc tagged s0 s \<longleftrightarrow> s = s0 \<and> adjust_head_law H \<and> held s = None \<and>
     14 \<le> pkt_len (ctx s) \<and> (tagged \<longrightarrow> 18 \<le> pkt_len (ctx s)) \<and>
     sc_ether_header_orignal sc = decode_ethhdr (take 14 (frame s)) \<and>
     (tagged \<longrightarrow> sc_vlan_header_orignal sc = decode_vlan_hdr (take 4 (drop 14 (frame s))))"

fun xdp_can :: "xdp_helpers \<Rightarrow> u32 \<Rightarrow> egress \<Rightarrow> xdp_state \<Rightarrow> bool" where
  "xdp_can H i Decap s = (moves_head H 4 s \<and> redirects H i)"
| "xdp_can H i Encap s = (moves_head H (-4) s \<and> redirects H i)"
| "xdp_can H i _ s = redirects H i"

definition xdp_emitted :: "u32 \<Rightarrow> xdp_state \<Rightarrow> xdp_state \<Rightarrow> u8 list \<Rightarrow> bool" where
  "xdp_emitted i s s' f \<longleftrightarrow> frame s' = f \<and> redirect_to s' = Some i"

lemma sendsD:
  assumes "succeeds c (sends i f acc s)"
  shows "succeeds c (\<lambda>(rc, s'). kept s s' \<and> (if acc then rc = 0 \<and> xdp_emitted i s s' f else rc = -1))"
    and "\<not> acc \<Longrightarrow> succeeds c (\<lambda>(rc, s'). redirect_to s' = redirect_to s)"
  using assms by (auto simp: sends_def xdp_emitted_def elim!: succeeds_weaken)

interpretation xdp_tx: l2_quiet_sender
  "xdp_l2_decap_vlan_and_send H sc" "xdp_l2_encap_vlan_and_send H sc" "xdp_l2_send_directly H sc"
  "xdp_ready H sc tagged s0" "kept s0" tagged frame untag_frame "tag_frame (sc_vlan_id sc)"
  "xdp_can H (ifc_ifindex (sc_out_config sc))" "xdp_emitted (ifc_ifindex (sc_out_config sc))"
  "\<lambda>s s'. redirect_to s' = redirect_to s" for H sc tagged s0
proof (unfold_locales, goal_cases)
  case (1 s)
  then show ?case by (simp add: xdp_ready_def)
next
  case (2 s)
  then show ?case
    using sendsD(1) [OF decap_contract [of H s sc]]
    by (auto simp: xdp_ready_def split del: if_split)
next
  case (3 s)
  then show ?case
    using sendsD(1) [OF encap_contract [of H s sc]]
    by (auto simp: xdp_ready_def split del: if_split)
next
  case (4 s)
  then show ?case
    using sendsD(1) [OF direct_contract [of s H sc]]
    by (auto simp: xdp_ready_def split del: if_split)
next
  case (5 s)
  then show ?case by simp
next
  case (6 s)
  then show ?case
    using sendsD(2) [OF decap_contract [of H s sc]] by (auto simp: xdp_ready_def)
next
  case (7 s)
  then show ?case
    using sendsD(2) [OF encap_contract [of H s sc]] by (auto simp: xdp_ready_def)
next
  case (8 s)
  then show ?case
    using sendsD(2) [OF direct_contract [of s H sc]] by (auto simp: xdp_ready_def)
qed

section \<open>Sending on the XDP path\<close>

definition out_frame :: "egress \<Rightarrow> u32 \<Rightarrow> u8 list \<Rightarrow> u8 list" where
  "out_frame a vid f = egress_frame untag_frame (tag_frame vid) a f"

lemma rd_base' [runs]:
  "data (ctx s) = d \<Longrightarrow> unat d + n \<le> unat (data_end (ctx s)) \<Longrightarrow> rd (ptr d) n s = Some (take n (frame s))"
  by (auto simp: runs)

lemma rd_vlan [runs]:
  "18 \<le> pkt_len (ctx s) \<Longrightarrow> rd (vlan_ptr s True) 4 s = Some (take 4 (drop 14 (frame s)))"
  by (simp add: vlan_ptr_def sizeof_defs runs pkt_len_def)

lemma xdp_l2_out_contract:
  fixes s :: xdp_state and fc :: forward_config and vid :: u32 and tagged :: bool
  defines "a \<equiv> l2_egress (fc_out_if_config fc) (fc_in_if_config fc) vid tagged"
    and "i \<equiv> ifc_ifindex (fc_out_if_config fc)"
    and "e \<equiv> eligible (fc_out_if_config fc) (fc_in_if_config fc) vid tagged"
  assumes "adjust_head_law H" and "held s = None" and "14 \<le> pkt_len (ctx s)"
    and "tagged \<longrightarrow> 18 \<le> pkt_len (ctx s)"
    and fc: "xdp_forward_config_cache s 0 = Some fc" and i: "i \<noteq> 0"
  shows "succeeds (xdp_l2_out H (ptr (data (ctx s))) (vlan_ptr s tagged) vid s)
    (\<lambda>(act, s'). act = XDP_DROP \<and> kept s s' \<and>
       (if e \<and> xdp_can H i a s then frame s' = out_frame a vid (frame s) \<and> redirect_to s' = Some i
        else redirect_to s' = redirect_to s))"
proof -
  define sc where "sc = \<lparr>sc_flages = (if tagged then vlan_header_orignal_SET else 0),
      sc_ether_header_orignal = decode_ethhdr (take 14 (frame s)),
      sc_vlan_header_orignal =
        decode_vlan_hdr (if tagged then take 4 (drop 14 (frame s)) else replicate sizeof_vlan_hdr 0),
      sc_out_config = fc_out_if_config fc, sc_vlan_id = vid\<rparr>"
  have sel: "sc_out_config sc = fc_out_if_config fc" "sc_vlan_id sc = vid" by (simp_all add: sc_def)
  have ready: "xdp_ready H sc tagged s s" using assms(4-7) by (simp add: xdp_ready_def sc_def)
  let ?out = "l2_out (fc_out_if_config fc) (fc_in_if_config fc) vid tagged
      (xdp_l2_decap_vlan_and_send H sc) (xdp_l2_encap_vlan_and_send H sc) (xdp_l2_send_directly H sc) s"
  have "unat (data (ctx s)) + 14 \<le> unat (data_end (ctx s))" using assms(6) by (simp add: pkt_len_def)
  then have run: "xdp_l2_out H (ptr (data (ctx s))) (vlan_ptr s tagged) vid s =
      do { (ret, s) \<leftarrow> ?out; Some (XDP_DROP, s) }"
    using assms(5,7) fc i
    by (cases tagged) (simp_all add: xdp_l2_out_def lookup_cache_def runs i_def sizeof_defs sc_def Let_def cong: if_cong)
  obtain rc s' where r: "?out = Some (rc, s')" and k: "kept s s'"
    and t: "e \<and> xdp_can H i a s \<Longrightarrow> frame s' = out_frame a vid (frame s) \<and> redirect_to s' = Some i"
    using xdp_tx.l2_out_contract [OF ready, of "fc_out_if_config fc" "fc_in_if_config fc" vid]
    by (auto simp: succeeds_iff sel xdp_emitted_def out_frame_def a_def e_def i_def split: if_splits)
  have q: "redirect_to s' = redirect_to s" if "\<not> (e \<and> xdp_can H i a s)"
    using xdp_tx.l2_out_quiet [OF ready, of "fc_out_if_config fc" "fc_in_if_config fc" vid] that r
    by (simp add: sel a_def e_def i_def)
  show ?thesis unfolding run r using k t q by simp
qed

section \<open>Handing a frame to TC\<close>

text \<open>The metadata structure at the start of the metadata area.\<close>

definition meta_at :: "xdp_md \<Rightarrow> memory \<Rightarrow> dp_metadata" where
  "meta_at c m = decode_dp_metadata (load_bytes m (ptr (data_meta c)) sizeof_dp_metadata)"

text \<open>What the tagging makes of the bytes it finds there.\<close>

definition flood_meta :: "bool \<Rightarrow> u32 \<Rightarrow> dp_metadata \<Rightarrow> dp_metadata" where
  "flood_meta tagged vid old =
     \<lparr>md_magic = DP_META_MAGIC, md_meta_type = DP_META_L2,
      md_l2 = \<lparr>l2m_flags =
                 (if tagged then l2m_flags (md_l2 old) OR L2_VLAN_PACKET else l2m_flags (md_l2 old)) OR L2_FLOOD,
               l2m_vlan_id = vid\<rparr>,
      md_l3 = md_l3 old\<rparr>"

lemma take_drop_load:
  "k + n \<le> N \<Longrightarrow> take n (drop k (load_bytes m p N)) = load_bytes m (ptr_add p k) n"
  by (rule nth_equalityI) simp_all

lemma meta_at_fields:
  "meta_at c m = (let p = ptr (data_meta c) in
     \<lparr>md_magic = word32 (load_bytes m p 4), md_meta_type = word32 (load_bytes m (ptr_add p 4) 4),
      md_l2 = \<lparr>l2m_flags = word32 (load_bytes m (ptr_add p 8) 4),
               l2m_vlan_id = word32 (load_bytes m (ptr_add p 12) 4)\<rparr>,
      md_l3 = \<lparr>l3m_flags = word32 (load_bytes m (ptr_add p 16) 4)\<rparr>\<rparr>)"
  using take_drop_load [of 0 4 24 m "ptr (data_meta c)"]
  by (simp add: meta_at_def decode_dp_metadata_def take_drop_load Let_def)

lemma wr_meta_run [runs]:
  "data_meta (ctx s) = d \<Longrightarrow> k < 4294967296 \<Longrightarrow> unat d + k + length bs \<le> unat (data (ctx s)) \<Longrightarrow>
     wr_meta (ptr_add (ptr d) k) bs s = Some (s\<lparr>mem := store_bytes (mem s) (ptr_add (ptr d) k) bs\<rparr>)"
  by (auto simp: wr_meta_def meta_store_def meta_access_def)

lemma wr_meta_base_run [runs]:
  "data_meta (ctx s) = d \<Longrightarrow> unat d + length bs \<le> unat (data (ctx s)) \<Longrightarrow>
     wr_meta (ptr d) bs s = Some (s\<lparr>mem := store_bytes (mem s) (ptr d) bs\<rparr>)"
  using wr_meta_run [of s d 0 bs] by simp

lemma rd_meta32_run [runs]:
  "data_meta (ctx s) = d \<Longrightarrow> k < 4294967296 \<Longrightarrow> unat d + k + 4 \<le> unat (data (ctx s)) \<Longrightarrow>
     rd_meta32 (ptr_add (ptr d) k) s = Some (word32 (load_bytes (mem s) (ptr_add (ptr d) k) 4))"
  by (auto simp: rd_meta32_def meta_load_def meta_access_def)

lemma pkt_bytes_store_meta:
  assumes "unat p + length bs \<le> unat (data c)"
  shows "pkt_bytes c (store_bytes m p bs) = pkt_bytes c m"
proof -
  have "unat (data c) + pkt_len c \<le> 2 ^ 64"
    using unat_u32_less [of "data_end c"] unat_u32_less [of "data c"] by (simp add: pkt_len_def)
  with assms show ?thesis unfolding pkt_bytes_def by (intro load_store_disjoint) simp_all
qed

lemma fdb_flood_tag_contract:
  assumes law: "adjust_meta_law H" and free: "held s = None"
    and adj: "h_adjust_meta H (ctx s) (mem s) (-24) = (rc, c, m)"
  shows "succeeds (fdb_flood_tag H eth vlan vid s) (\<lambda>(act, s'). kept s s' \<and> redirect_to s' = redirect_to s \<and>
    (if 0 \<le> rc \<and> unat (data_meta c) + 24 \<le> unat (data c)
     then act = XDP_PASS \<and> ctx s' = c \<and> frame s' = frame s \<and>
       meta_at c (mem s') = flood_meta (vlan \<noteq> NULL) vid (meta_at c m)
     else act = XDP_DROP))"
proof -
  have run: "bpf_xdp_adjust_meta H (- int sizeof_dp_metadata) s = Some (rc, s\<lparr>ctx := c, mem := m\<rparr>)"
    using free adj by (simp add: bpf_xdp_adjust_meta_def runs)
  have keep: "ingress_ifindex c = ingress_ifindex (ctx s)"
    using law adj unfolding adjust_meta_law_def by (cases "0 \<le> rc") fastforce+
  show ?thesis
  proof (cases "0 \<le> rc \<and> unat (data_meta c) + 24 \<le> unat (data c)")
    case False
    with run keep free show ?thesis
      by (auto simp: fdb_flood_tag_def ptr_le_off kept_def Let_def)
  next
    case True
    then have room: "unat (data_meta c) + 24 \<le> unat (data c)" by simp
    have bytes: "pkt_bytes c m = frame s"
      using law adj True unfolding adjust_meta_law_def by fastforce
    have dm: "unat (data_meta c) < 4294967296" by (rule unat_u32_less)
    show ?thesis
    proof (cases "vlan = NULL")
      case True
      with run keep free room dm bytes \<open>0 \<le> rc \<and> _\<close> show ?thesis
        by (simp add: fdb_flood_tag_def ptr_le_off kept_def Let_def runs meta_at_fields flood_meta_def
          load_store_same load_store_disjoint pkt_bytes_store_meta)
    next
      case False
      with run keep free room dm bytes \<open>0 \<le> rc \<and> _\<close> show ?thesis
        by (simp add: fdb_flood_tag_def ptr_le_off kept_def Let_def runs meta_at_fields flood_meta_def
          load_store_same load_store_disjoint pkt_bytes_store_meta)
    qed
  qed
qed

section \<open>Properties\<close>

lemma tag_untag:
  assumes "12 \<le> length f"
  shows "untag_frame (tag_frame vid f) = f \<and>
    take 4 (drop 12 (tag_frame vid f)) = [0x81, 0x00, of_nat (unat vid mod 4096 div 256), of_nat (unat vid mod 256)]"
proof -
  have "length (bytes16 (bpf_htons True ETH_P_8021Q) @ bytes16 (bpf_htons False (ucast (vid AND 0x0FFF)))) = 4"
    by simp
  then have "untag_frame (tag_frame vid f) = f"
    using assms by (simp add: untag_frame_def tag_frame_def)
  moreover have "bytes16 (bpf_htons True ETH_P_8021Q) = [0x81, 0]"
    by (simp add: bytes16_htons ETH_P_8021Q_def)
  moreover have "bytes16 (bpf_htons False (ucast (vid AND 0x0FFF))) =
      [of_nat (unat vid mod 4096 div 256), of_nat (unat vid mod 256)]"
  proof -
    have v: "unat (ucast (vid AND 0xFFF) :: u16) = unat vid mod 4096"
      by (simp add: unat_and_0xFFF unsigned_ucast_eq take_bit_eq_mod mod_mod_cancel)
    have "(of_nat (unat vid mod 4096) :: u8) = of_nat (unat vid mod 256)"
      by (rule word_unat_eq_iff [THEN iffD2])
         (simp add: unsigned_of_nat take_bit_eq_mod mod_mod_cancel)
    then show ?thesis by (simp only: bytes16_htons v)
  qed
  ultimately show ?thesis using assms by (simp add: tag_frame_def)
qed

text \<open>C30: stripping the tag that the switch has put on gives the frame back, for every frame; and the
  tag put on carries the low 12 bits of the VLAN number behind the 802.1Q type, both in network
  order.\<close>

theorem tag_untag_roundtrip:
  assumes "xdp_laws H" and "held s = None" and "14 \<le> pkt_len (ctx s)"
    and "sc_ether_header_orignal sc = decode_ethhdr (take 14 (frame s))"
    and "xdp_l2_encap_vlan_and_send H sc s = Some (0, s1)"
    and "sc_ether_header_orignal sc1 = decode_ethhdr (take 14 (frame s1))"
    and "sc_vlan_header_orignal sc1 = decode_vlan_hdr (take 4 (drop 14 (frame s1)))"
    and "xdp_can H (ifc_ifindex (sc_out_config sc1)) Decap s1"
  shows "take 4 (drop 12 (frame s1)) = [0x81, 0x00, of_nat (unat (sc_vlan_id sc) mod 4096 div 256),
      of_nat (unat (sc_vlan_id sc) mod 256)] \<and>
    (\<exists>s2. xdp_l2_decap_vlan_and_send H sc1 s1 = Some (0, s2) \<and> frame s2 = frame s)"
proof -
  have s1: "frame s1 = tag_frame (sc_vlan_id sc) (frame s)" "held s1 = None"
    using encap_contract [OF xdp_lawsD(1) [OF assms(1)] assms(2-4)] assms(2,5)
    by (auto simp: sends_def kept_def split: if_splits)
  have f: "12 \<le> length (frame s)" using assms(3) by simp
  have "length (frame s1) = length (frame s) + 4"
    using f by (simp add: s1(1) tag_frame_def)
  then have "18 \<le> pkt_len (ctx s1)" using assms(3) by simp
  then obtain s2 where "xdp_l2_decap_vlan_and_send H sc1 s1 = Some (0, s2)"
    "frame s2 = untag_frame (frame s1)"
    using decap_contract [OF xdp_lawsD(1) [OF assms(1)] s1(2) _ assms(6,7)] assms(8)
    by (auto simp: sends_def succeeds_iff)
  with tag_untag [OF f, of "sc_vlan_id sc"] show ?thesis by (simp add: s1(1))
qed

theorem tag_untag_roundtrip_witness:
  "\<exists>sc1 s1 s2. take 4 (drop 12 (frame s1)) = [0x81, 0, 0, 12] \<and>
    xdp_l2_decap_vlan_and_send (ref_helpers 0) sc1 s1 = Some (0, s2) \<and> frame s2 = plain_frame mac_a mac_b"
proof -
  let ?H = "ref_helpers 0" and ?s = "sample_state (plain_frame mac_a mac_b) 1 Map.empty zero_cache"
  let ?sc = "\<lparr>sc_flages = 0, sc_ether_header_orignal = decode_ethhdr (take 14 (frame ?s)),
      sc_vlan_header_orignal = decode_vlan_hdr (replicate 4 0), sc_out_config = sample_config 3 VLAN_TRUNK 5,
      sc_vlan_id = 12\<rparr>"
  have can: "moves_head ?H (-4) ?s" "redirects ?H i" for i
    by (simp_all add: moves_head_def redirects_def ref_adjust_head_def ref_redirect_def)
  obtain s1 where s1: "xdp_l2_encap_vlan_and_send ?H ?sc ?s = Some (0, s1)"
    and f: "frame s1 = tag_frame 12 (plain_frame mac_a mac_b)"
    using encap_contract [OF xdp_lawsD(1) [OF ref_helpers_laws], of ?s ?sc 0] can
    by (auto simp: sends_def succeeds_iff)
  let ?sc1 = "?sc\<lparr>sc_ether_header_orignal := decode_ethhdr (take 14 (frame s1)),
      sc_vlan_header_orignal := decode_vlan_hdr (take 4 (drop 14 (frame s1)))\<rparr>"
  have "length (frame s1) = 22" unfolding f by (simp add: tag_frame_def)
  then have "unat (data_end (ctx s1)) = unat (data (ctx s1)) + 22" by (simp add: pkt_len_def)
  then have "int (unat (data_end (ctx s1))) = int (unat (data (ctx s1))) + 22" by (simp only: of_nat_add of_nat_numeral)
  then have "uint (data_end (ctx s1)) = uint (data (ctx s1)) + 22" by simp
  then have "xdp_can ?H (ifc_ifindex (sc_out_config ?sc1)) Decap s1"
    by (simp add: moves_head_def redirects_def ref_adjust_head_def ref_redirect_def Let_def)
  then have "take 4 (drop 12 (frame s1)) = [0x81, 0, of_nat (unat (12 :: u32) mod 4096 div 256),
      of_nat (unat (12 :: u32) mod 256)] \<and>
      (\<exists>s2. xdp_l2_decap_vlan_and_send ?H ?sc1 s1 = Some (0, s2) \<and> frame s2 = frame ?s)"
    using tag_untag_roundtrip [OF ref_helpers_laws _ _ _ s1, of ?sc1] by simp
  then show ?thesis by auto
qed

text \<open>What forwarding on the XDP path does to a frame whose output port is cached. If the
  egress rule allows the port and the kernel grants the room and the redirect, the frame in the
  packet buffer is the frame with its tag stripped, added or kept as the rule says, and a redirect
  to the port is pending; otherwise no redirect is requested. In every case the verdict is
  \<open>XDP_DROP\<close>, and configuration, forwarding table, cache and locks are as before.\<close>

theorem xdp_l2_out_exact:
  assumes "xdp_laws H" and "held s = None" and "14 \<le> pkt_len (ctx s)"
    and "tagged \<longrightarrow> 18 \<le> pkt_len (ctx s)"
    and "xdp_forward_config_cache s 0 = Some fc" and "ifc_ifindex (fc_out_if_config fc) \<noteq> 0"
  shows "\<exists>s'. xdp_l2_out H (ptr (data (ctx s))) (vlan_ptr s tagged) vid s = Some (XDP_DROP, s') \<and>
    kept s s' \<and>
    (if eligible (fc_out_if_config fc) (fc_in_if_config fc) vid tagged \<and>
        xdp_can H (ifc_ifindex (fc_out_if_config fc))
          (l2_egress (fc_out_if_config fc) (fc_in_if_config fc) vid tagged) s
     then frame s' =
            out_frame (l2_egress (fc_out_if_config fc) (fc_in_if_config fc) vid tagged) vid (frame s) \<and>
          redirect_to s' = Some (ifc_ifindex (fc_out_if_config fc))
     else redirect_to s' = redirect_to s)"
  using xdp_l2_out_contract [OF xdp_lawsD(1) [OF assms(1)] assms(2-6)]
  by (auto simp: succeeds_iff split del: if_split)

theorem xdp_l2_out_exact_witness:
  "\<exists>s'. xdp_l2_out (ref_helpers 0) (ptr 4096) NULL 5
      (sample_state (plain_frame mac_a mac_b) 1 Map.empty
        (zero_cache\<lparr>fc_in_if_config := sample_config 1 VLAN_ACCESS 5,
                    fc_out_if_config := sample_config 2 VLAN_ACCESS 5\<rparr>)) = Some (XDP_DROP, s') \<and>
    frame s' = plain_frame mac_a mac_b \<and> redirect_to s' = Some 2"
proof -
  let ?fc = "zero_cache\<lparr>fc_in_if_config := sample_config 1 VLAN_ACCESS 5,
                    fc_out_if_config := sample_config 2 VLAN_ACCESS 5\<rparr>"
  let ?s = "sample_state (plain_frame mac_a mac_b) 1 Map.empty ?fc"
  have e: "eligible (fc_out_if_config ?fc) (fc_in_if_config ?fc) 5 False"
    "l2_egress (fc_out_if_config ?fc) (fc_in_if_config ?fc) 5 False = Direct"
    by (simp_all add: l2_egress_def eligible_def egress_member_def sample_config_def sample_l2_def)
  have i: "ifc_ifindex (fc_out_if_config ?fc) = 2" "redirects (ref_helpers 0) 2"
    by (simp_all add: sample_config_def redirects_def ref_redirect_def)
  show ?thesis
    using xdp_l2_out_exact [of "ref_helpers 0" ?s False ?fc 5] e i
    by (auto simp: vlan_ptr_def out_frame_def)
qed

text \<open>What the flood hand-over writes. When the kernel grants 24 bytes in front of the packet,
  the verdict is \<open>XDP_PASS\<close>, the packet is untouched, and the metadata carries the magic number,
  the layer-2 type, the frame's VLAN and the flood flag; but the other flags and the layer-3 part
  are whatever the memory held, because only the first 8 bytes are cleared. Otherwise the frame is
  dropped.\<close>

theorem fdb_flood_tag_exact:
  assumes "xdp_laws H" and "held s = None"
    and "h_adjust_meta H (ctx s) (mem s) (-24) = (rc, c, m)"
  shows "\<exists>act s'. fdb_flood_tag H eth vlan vid s = Some (act, s') \<and> kept s s' \<and>
    redirect_to s' = redirect_to s \<and>
    (if 0 \<le> rc \<and> unat (data_meta c) + 24 \<le> unat (data c)
     then act = XDP_PASS \<and> ctx s' = c \<and> frame s' = frame s \<and>
       meta_at c (mem s') = flood_meta (vlan \<noteq> NULL) vid (meta_at c m)
     else act = XDP_DROP)"
  using fdb_flood_tag_contract [OF xdp_lawsD(2) [OF assms(1)] assms(2,3)]
  by (auto simp: succeeds_iff split del: if_split)

theorem fdb_flood_tag_exact_witness:
  "\<exists>s'. fdb_flood_tag (ref_helpers 0) (ptr 4096) NULL 5
      (sample_state (plain_frame mac_a mac_b) 1 Map.empty zero_cache) = Some (XDP_PASS, s') \<and>
    frame s' = plain_frame mac_a mac_b \<and> md_magic (meta_at (ctx s') (mem s')) = DP_META_MAGIC \<and>
    l2m_vlan_id (md_l2 (meta_at (ctx s') (mem s'))) = 5"
proof -
  let ?s = "sample_state (plain_frame mac_a mac_b) 1 Map.empty zero_cache"
  let ?c = "ctx ?s\<lparr>data_meta := addr32 4072\<rparr>"
  have adj: "h_adjust_meta (ref_helpers 0) (ctx ?s) (mem ?s) (-24) = (0, ?c, mem ?s)"
    by (simp add: ref_adjust_meta_def)
  show ?thesis
    using fdb_flood_tag_exact [OF ref_helpers_laws _ adj, of "ptr 4096" NULL 5]
    by (auto simp: flood_meta_def)
qed

text \<open>C36: an untagged frame can reach TC marked as a VLAN packet: the mark of an untagged frame is
  the bit the memory happened to hold, so it is set exactly when that bit was.\<close>

theorem flood_tag_leaks_vlan_flag:
  assumes "xdp_laws H" and "held s = None"
    and "h_adjust_meta H (ctx s) (mem s) (-24) = (rc, c, m)"
    and "fdb_flood_tag H eth NULL vid s = Some (XDP_PASS, s')"
  shows "l2m_flags (md_l2 (meta_at c (mem s'))) AND L2_VLAN_PACKET =
    l2m_flags (md_l2 (meta_at c m)) AND L2_VLAN_PACKET"
proof -
  have "meta_at c (mem s') = flood_meta False vid (meta_at c m)"
    using fdb_flood_tag_contract [OF xdp_lawsD(2) [OF assms(1)] assms(2,3), of eth NULL vid] assms(4)
    by (simp split: if_splits)
  moreover have "(w OR L2_FLOOD) AND L2_VLAN_PACKET = w AND L2_VLAN_PACKET" for w
    by (simp add: bit.conj_disj_distrib2 L2_FLOOD_def L2_VLAN_PACKET_def)
  ultimately show ?thesis by (simp add: flood_meta_def)
qed

theorem flood_tag_leaks_vlan_flag_witness:
  "\<exists>s'. fdb_flood_tag (ref_helpers 0) (ptr 4096) NULL 5
      (sample_state (plain_frame mac_a mac_b) 1 Map.empty zero_cache\<lparr>mem := \<lambda>_. 0xFF\<rparr>) =
        Some (XDP_PASS, s') \<and>
    l2m_flags (md_l2 (meta_at (ctx s') (mem s'))) AND L2_VLAN_PACKET \<noteq> 0"
proof -
  let ?s = "sample_state (plain_frame mac_a mac_b) 1 Map.empty zero_cache\<lparr>mem := \<lambda>_. 0xFF\<rparr>"
  let ?c = "ctx ?s\<lparr>data_meta := addr32 4072\<rparr>"
  have adj: "h_adjust_meta (ref_helpers 0) (ctx ?s) (mem ?s) (-24) = (0, ?c, mem ?s)"
    by (simp add: ref_adjust_meta_def)
  have "load_bytes (\<lambda>_. 0xFF) p 4 = [0xFF, 0xFF, 0xFF, 0xFF]" for p
    by (rule nth_equalityI) (auto simp: less_Suc_eq nth_Cons' numeral_eq_Suc)
  then have "l2m_flags (md_l2 (meta_at ?c (mem ?s))) AND L2_VLAN_PACKET \<noteq> 0"
    by (simp add: meta_at_fields word32_def L2_VLAN_PACKET_def)
  then show ?thesis
    using fdb_flood_tag_contract [OF xdp_lawsD(2) [OF ref_helpers_laws] _ adj, of "ptr 4096" NULL 5]
      flood_tag_leaks_vlan_flag [OF ref_helpers_laws _ adj, of "ptr 4096" 5]
    by (auto simp: succeeds_iff)
qed

end
