(* ===== verification/Layout.thy ===== *)
theory Layout
  imports Forward_Config
begin

text \<open>
  The memory layout of the structures the programs share: among the functions of the data plane,
  with the kernel (vmlinux.h), and with the Go programs, which read and write the maps through the
  structures that bpf2go generates (dataplane_bpfel.go). A type is described as it is declared; its
  layout is computed by the rule of the C ABI. The rule has one parameter, the largest alignment of
  a machine integer: 8 on the BPF target and on 64-bit Go targets, 4 on the 32-bit Go targets.
\<close>

section \<open>Types and the layout rule\<close>

text \<open>
  \<open>Uint n\<close> is an integer or pointer of \<open>n\<close> bytes. An aggregate carries the alignment that an
  \<open>aligned\<close> attribute asks for, and so does a member; 1 stands for none. A member named \<open>_\<close> is
  padding written out, as Go does.
\<close>

datatype ty = Uint nat | Array ty nat | Aggregate members nat
  and members = No_more | Member string nat ty members

primrec al :: "nat \<Rightarrow> ty \<Rightarrow> nat" and als :: "nat \<Rightarrow> members \<Rightarrow> nat" where
  "al cap (Uint n) = min n cap"
| "al cap (Array t n) = al cap t"
| "al cap (Aggregate ms a) = max a (als cap ms)"
| "als cap No_more = 1"
| "als cap (Member f a t ms) = max (max a (al cap t)) (als cap ms)"

primrec sz :: "nat \<Rightarrow> ty \<Rightarrow> nat" and end_of :: "nat \<Rightarrow> members \<Rightarrow> nat \<Rightarrow> nat" where
  "sz cap (Uint n) = n"
| "sz cap (Array t n) = n * sz cap t"
| "sz cap (Aggregate ms a) = align_up (end_of cap ms 0) (max a (als cap ms))"
| "end_of cap No_more pos = pos"
| "end_of cap (Member f a t ms) pos = end_of cap ms (align_up pos (max a (al cap t)) + sz cap t)"

text \<open>The named scalars and arrays of a type: path, offset, size and alignment.\<close>

type_synonym leaf = "string list \<times> nat \<times> nat \<times> nat"

primrec leaves :: "nat \<Rightarrow> ty \<Rightarrow> string list \<Rightarrow> nat \<Rightarrow> leaf list"
  and leaves_of :: "nat \<Rightarrow> members \<Rightarrow> string list \<Rightarrow> nat \<Rightarrow> nat \<Rightarrow> leaf list" where
  "leaves cap (Uint n) path base = [(path, base, n, min n cap)]"
| "leaves cap (Array t n) path base = [(path, base, n * sz cap t, al cap t)]"
| "leaves cap (Aggregate ms a) path base = leaves_of cap ms path base 0"
| "leaves_of cap No_more path base pos = []"
| "leaves_of cap (Member f a t ms) path base pos =
     (let off = align_up pos (max a (al cap t))
      in (if f = ''_'' then [] else leaves cap t (path @ [f]) (base + off)) @
         leaves_of cap ms path base (off + sz cap t))"

section \<open>Members of a structure\<close>

text \<open>
  \<open>offsetof\<close> and \<open>container_of\<close> of bpf_helpers.h, on the BPF target: the address a member would have
  in a structure at address 0, and the way back from a member to its structure. A member is named by
  its path; one that does not exist does not compile.
\<close>

definition member_at :: "u64 \<Rightarrow> ty \<Rightarrow> string list \<Rightarrow> u64 option" where
  "member_at base t path = map_option (\<lambda>(off, s, a). base + of_nat off) (map_of (leaves 8 t [] 0) path)"

definition offsetof :: "ty \<Rightarrow> string list \<Rightarrow> u64 option" where
  "offsetof t path = member_at 0 t path"

definition container_of :: "u64 \<Rightarrow> ty \<Rightarrow> string list \<Rightarrow> u64 option" where
  "container_of p t path = do { off \<leftarrow> offsetof t path; Some (p - off) }"

text \<open>From a member of a structure, anywhere in the address space, \<open>container_of\<close> finds the structure.\<close>

theorem container_of_member:
  assumes "member_at base t path = Some p"
  shows "container_of p t path = Some base"
  using assms by (auto simp: container_of_def offsetof_def member_at_def)

section \<open>The rule is sound\<close>

definition pow :: "nat \<Rightarrow> bool" where
  "pow a \<longleftrightarrow> a \<in> {1, 2, 4, 8}"

primrec wf_ty :: "nat \<Rightarrow> ty \<Rightarrow> bool" and wf_members :: "nat \<Rightarrow> members \<Rightarrow> bool" where
  "wf_ty cap (Uint n) \<longleftrightarrow> pow (min n cap)"
| "wf_ty cap (Array t n) \<longleftrightarrow> wf_ty cap t"
| "wf_ty cap (Aggregate ms a) \<longleftrightarrow> pow a \<and> wf_members cap ms"
| "wf_members cap No_more \<longleftrightarrow> True"
| "wf_members cap (Member f a t ms) \<longleftrightarrow> pow a \<and> wf_ty cap t \<and> wf_members cap ms"

text \<open>Leaves that follow each other without overlap between two offsets, each aligned.\<close>

fun in_order :: "nat \<Rightarrow> leaf list \<Rightarrow> nat \<Rightarrow> bool" where
  "in_order lo [] hi \<longleftrightarrow> lo \<le> hi"
| "in_order lo ((path, off, s, a) # ls) hi \<longleftrightarrow> lo \<le> off \<and> a dvd off \<and> in_order (off + s) ls hi"

lemma pow_pos: "pow a \<Longrightarrow> 0 < a"
  by (auto simp: pow_def)

lemma pow_1 [simp]: "pow (Suc 0)"
  by (simp add: pow_def)

lemma pow_max: "pow a \<Longrightarrow> pow b \<Longrightarrow> pow (max a b)"
  by (auto simp: pow_def max_def)

lemma pow_dvd: "pow a \<Longrightarrow> pow b \<Longrightarrow> a \<le> b \<Longrightarrow> a dvd b"
  by (auto simp: pow_def)

lemma align_up_ge: "0 < a \<Longrightarrow> n \<le> align_up n a"
  using mod_less_divisor [of a "n + a - 1"] minus_mod_eq_div_mult [of "n + a - 1" a]
  unfolding align_up_def by linarith

lemma align_up_dvd: "a dvd align_up n a"
  by (simp add: align_up_def)

lemma pow_al: "wf_ty cap t \<Longrightarrow> pow (al cap t)" and pow_als: "wf_members cap ms \<Longrightarrow> pow (als cap ms)"
  by (induction t and ms rule: ty.induct members.induct) (auto intro: pow_max)

lemma end_of_ge: "wf_members cap ms \<Longrightarrow> pos \<le> end_of cap ms pos"
proof (induction ms arbitrary: pos rule: members.induct [where ?P1.0 = "\<lambda>_. True"])
  case (Member f a t ms)
  have "pos \<le> align_up pos (max a (al cap t)) + sz cap t"
    using Member.prems align_up_ge [OF pow_pos [OF pow_max [OF _ pow_al]], of a cap t pos] by simp
  also have "\<dots> \<le> end_of cap ms \<dots>" using Member by simp
  finally show ?case by simp
qed simp_all

lemma in_order_append: "in_order lo xs m \<Longrightarrow> in_order m ys hi \<Longrightarrow> in_order lo (xs @ ys) hi"
proof (induction xs arbitrary: lo)
  case Nil
  then show ?case by (cases ys) auto
qed auto

lemma in_order_mono: "in_order lo xs hi \<Longrightarrow> lo' \<le> lo \<Longrightarrow> hi \<le> hi' \<Longrightarrow> in_order lo' xs hi'"
  by (induction xs arbitrary: lo lo') auto

lemma leaves_in_order:
  "wf_ty cap t \<Longrightarrow> al cap t dvd base \<Longrightarrow> in_order base (leaves cap t path base) (base + sz cap t)"
  and leaves_of_in_order:
  "wf_members cap ms \<Longrightarrow> als cap ms dvd base \<Longrightarrow>
     in_order (base + pos) (leaves_of cap ms path base pos) (base + end_of cap ms pos)"
proof (induction t and ms arbitrary: path base and path base pos rule: ty.induct members.induct)
  case (Aggregate ms a)
  have p: "pow (max a (als cap ms))" "pow (als cap ms)"
    using Aggregate.prems by (auto intro: pow_max pow_als)
  then have "als cap ms dvd base"
    using Aggregate.prems by (auto intro: dvd_trans [OF pow_dvd])
  then have "in_order (base + 0) (leaves_of cap ms path base 0) (base + end_of cap ms 0)"
    using Aggregate.IH [of base 0 path] Aggregate.prems by simp
  then show ?case
    using align_up_ge [OF pow_pos [OF p(1)], of "end_of cap ms 0"] by (auto intro: in_order_mono)
next
  case (Member f a t ms)
  let ?o = "align_up pos (max a (al cap t))"
  have p: "pow a" "pow (al cap t)" "pow (max a (al cap t))" "pow (als cap (Member f a t ms))" "pow (als cap ms)"
    using Member.prems by (auto intro!: pow_max pow_al pow_als)
  have off: "pos \<le> ?o" using p(3) by (intro align_up_ge pow_pos)
  have "als cap ms dvd base"
    using p Member.prems by (auto intro: dvd_trans [OF pow_dvd])
  then have rest: "in_order (base + (?o + sz cap t)) (leaves_of cap ms path base (?o + sz cap t))
      (base + end_of cap ms (?o + sz cap t))"
    using Member by simp
  have "al cap t dvd base"
    using p Member.prems by (auto intro: dvd_trans [OF pow_dvd])
  moreover have "al cap t dvd ?o"
    using p by (auto intro: dvd_trans [OF pow_dvd align_up_dvd])
  ultimately have "in_order (base + ?o) (leaves cap t (path @ [f]) (base + ?o)) (base + ?o + sz cap t)"
    using Member.prems by (intro Member.IH(1)) simp_all
  then have "in_order (base + pos) (if f = ''_'' then [] else leaves cap t (path @ [f]) (base + ?o))
      (base + (?o + sz cap t))"
    using off by (auto simp: add.assoc intro: in_order_mono)
  from in_order_append [OF this rest] show ?case by (simp add: Let_def)
qed simp_all

section \<open>The structures\<close>

abbreviation U8 :: ty where "U8 \<equiv> Uint 1"
abbreviation U16 :: ty where "U16 \<equiv> Uint 2"
abbreviation U32 :: ty where "U32 \<equiv> Uint 4"
abbreviation U64 :: ty where "U64 \<equiv> Uint 8"
abbreviation Pointer :: ty where "Pointer \<equiv> Uint 8"

text \<open>A structure from its members in order, each with a name, and an \<open>aligned\<close> attribute.\<close>

primrec member_list :: "(string \<times> nat \<times> ty) list \<Rightarrow> members" where
  "member_list [] = No_more"
| "member_list (f # fs) = (case f of (n, a, t) \<Rightarrow> Member n a t (member_list fs))"

definition struct :: "nat \<Rightarrow> (string \<times> ty) list \<Rightarrow> ty" where
  "struct a fs = Aggregate (member_list (map (\<lambda>(n, t). (n, 1, t)) fs)) a"

text \<open>vmlinux.h.\<close>

definition ethhdr_ty :: ty where
  "ethhdr_ty = struct 1 [(''h_dest'', Array U8 6), (''h_source'', Array U8 6), (''h_proto'', U16)]"

definition vlan_hdr_ty :: ty where
  "vlan_hdr_ty = struct 1 [(''h_vlan_TCI'', U16), (''h_vlan_encapsulated_proto'', U16)]"

definition arphdr_ty :: ty where
  "arphdr_ty = struct 1 [(''ar_hrd'', U16), (''ar_pro'', U16), (''ar_hln'', U8), (''ar_pln'', U8),
     (''ar_op'', U16)]"

definition xdp_md_ty :: ty where
  "xdp_md_ty = struct 1 [(''data'', U32), (''data_end'', U32), (''data_meta'', U32),
     (''ingress_ifindex'', U32), (''rx_queue_index'', U32), (''egress_ifindex'', U32)]"

definition spin_lock_ty :: ty where
  "spin_lock_ty = struct 1 [(''val'', U32)]"

definition sk_buff_ty :: ty where
  "sk_buff_ty = struct 1 [(''len'', U32), (''pkt_type'', U32), (''mark'', U32),
     (''queue_mapping'', U32), (''protocol'', U32), (''vlan_present'', U32), (''vlan_tci'', U32),
     (''vlan_proto'', U32), (''priority'', U32), (''ingress_ifindex'', U32), (''ifindex'', U32),
     (''tc_index'', U32), (''cb'', Array U32 5), (''hash'', U32), (''tc_classid'', U32),
     (''data'', U32), (''data_end'', U32), (''napi_id'', U32), (''family'', U32),
     (''remote_ip4'', U32), (''local_ip4'', U32), (''remote_ip6'', Array U32 4),
     (''local_ip6'', Array U32 4), (''remote_port'', U32), (''local_port'', U32),
     (''data_meta'', U32), (''flow_keys'', struct 1 [(''flow_keys'', Pointer)]),
     (''tstamp'', U64), (''wire_len'', U32), (''gso_segs'', U32),
     (''sk'', struct 1 [(''sk'', Pointer)]), (''gso_size'', U32), (''tstamp_type'', U8),
     (''hwtstamp'', U64)]"

text \<open>forward_config.h.\<close>

definition iface_config_l2_ty :: ty where
  "iface_config_l2_ty = struct 8 [(''vlan_id'', U32), (''vlan_mode'', U32),
     (''vlan_range_start'', U32), (''vlan_range_end'', U32)]"

definition iface_config_ty :: ty where
  "iface_config_ty = Aggregate (member_list [(''ifindex'', 1, U32), (''name'', 1, Array U8 64),
     (''node_mac'', 1, Array U8 6), (''mode'', 1, U16), (''l2'', 8, iface_config_l2_ty)]) 8"

definition iface_config_item_ty :: ty where
  "iface_config_item_ty = struct 8 [(''lock'', spin_lock_ty), (''config'', iface_config_ty)]"

definition fdb_key_ty :: ty where
  "fdb_key_ty = struct 8 [(''mac'', Array U8 6), (''vlan_id'', U16)]"

definition fdb_value_ty :: ty where
  "fdb_value_ty = struct 8 [(''ifindex'', U32), (''last_seen'', U64)]"

definition fdb_value_item_ty :: ty where
  "fdb_value_item_ty = struct 8 [(''lock'', spin_lock_ty), (''value'', fdb_value_ty)]"

definition forward_config_ty :: ty where
  "forward_config_ty = struct 8 [(''in_if_config'', iface_config_ty),
     (''out_if_config'', iface_config_ty), (''fdb_value'', fdb_value_ty)]"

definition l2_metadata_ty :: ty where
  "l2_metadata_ty = struct 8 [(''flags'', U32), (''vlan_id'', U32)]"

definition l3_metadata_ty :: ty where
  "l3_metadata_ty = struct 8 [(''flags'', U32)]"

definition dp_metadata_ty :: ty where
  "dp_metadata_ty = struct 8 [(''magic'', U32), (''meta_type'', U32), (''l2'', l2_metadata_ty),
     (''l3'', l3_metadata_ty)]"

text \<open>l2.h.\<close>

definition flood_context_ty :: ty where
  "flood_context_ty = struct 1 [(''skb'', Pointer), (''md'', dp_metadata_ty)]"

definition xdp_l2_send_context_ty :: ty where
  "xdp_l2_send_context_ty = struct 1 [(''flages'', U32), (''ctx'', Pointer),
     (''ether_header_orignal'', ethhdr_ty), (''vlan_header_orignal'', vlan_hdr_ty),
     (''out_config'', iface_config_ty), (''vlan_id'', U32)]"

definition tc_l2_send_context_ty :: ty where
  "tc_l2_send_context_ty = struct 1 [(''skb'', Pointer), (''out_if_index'', U32), (''vlan_id'', U32)]"

lemmas struct_defs = ethhdr_ty_def vlan_hdr_ty_def arphdr_ty_def xdp_md_ty_def spin_lock_ty_def
  sk_buff_ty_def iface_config_l2_ty_def iface_config_ty_def iface_config_item_ty_def fdb_key_ty_def
  fdb_value_ty_def fdb_value_item_ty_def forward_config_ty_def l2_metadata_ty_def
  l3_metadata_ty_def dp_metadata_ty_def flood_context_ty_def xdp_l2_send_context_ty_def
  tc_l2_send_context_ty_def struct_def

definition c_structs :: "ty list" where
  "c_structs = [ethhdr_ty, vlan_hdr_ty, arphdr_ty, xdp_md_ty, spin_lock_ty, sk_buff_ty,
     iface_config_l2_ty, iface_config_ty, iface_config_item_ty, fdb_key_ty, fdb_value_ty,
     fdb_value_item_ty, forward_config_ty, l2_metadata_ty, l3_metadata_ty, dp_metadata_ty,
     flood_context_ty, xdp_l2_send_context_ty, tc_l2_send_context_ty]"

lemma c_structs_wf: "list_all (wf_ty 8) c_structs"
  by (simp add: c_structs_def struct_defs pow_def)

text \<open>The structures the programs share with the kernel and with each other are laid out
  soundly: in each, the fields lie one after another without overlap, each at a multiple of its
  alignment and inside the structure, and the size is a multiple of the alignment, so that arrays
  of them (the values of a map) are aligned as well.\<close>

theorem structs_laid_out_soundly:
  "list_all (\<lambda>t. in_order 0 (leaves 8 t [] 0) (sz 8 t) \<and> al 8 t dvd sz 8 t) c_structs"
proof -
  have "in_order 0 (leaves 8 t [] 0) (sz 8 t)" if "wf_ty 8 t" for t
    using leaves_in_order [OF that, of 0 "[]"] by simp
  moreover have "al 8 t dvd sz 8 t" if "t \<in> set c_structs" for t
    using that by (auto simp: c_structs_def iface_config_ty_def struct_defs align_up_dvd)
  ultimately show ?thesis using c_structs_wf by (simp add: list_all_iff)
qed

section \<open>The model reads the fields the layout names\<close>

text \<open>The bytes of a field in the bytes of a structure.\<close>

definition field :: "ty \<Rightarrow> string list \<Rightarrow> u8 list \<Rightarrow> u8 list" where
  "field t path bs =
     concat (map (\<lambda>(p, off, n, a). if p = path then take n (drop off bs) else []) (leaves 8 t [] 0))"

lemma header_leaves:
  "leaves 8 ethhdr_ty [] 0 = [([''h_dest''], 0, 6, 1), ([''h_source''], 6, 6, 1), ([''h_proto''], 12, 2, 2)]"
  "leaves 8 vlan_hdr_ty [] 0 = [([''h_vlan_TCI''], 0, 2, 2), ([''h_vlan_encapsulated_proto''], 2, 2, 2)]"
  "leaves 8 dp_metadata_ty [] 0 = [([''magic''], 0, 4, 4), ([''meta_type''], 4, 4, 4),
     ([''l2'', ''flags''], 8, 4, 4), ([''l2'', ''vlan_id''], 12, 4, 4), ([''l3'', ''flags''], 16, 4, 4)]"
  by code_simp+

lemma struct_sizes:
  "sz 8 ethhdr_ty = 14" "sz 8 vlan_hdr_ty = 4" "sz 8 arphdr_ty = 8" "sz 8 dp_metadata_ty = 24"
  "sz 8 l2_metadata_ty = 8" "sz 8 iface_config_ty = 96" "sz 8 fdb_value_ty = 16" "sz 8 fdb_key_ty = 8"
  by code_simp+

text \<open>The packet and metadata accesses of the model are those of the C structures: the sizes it
  uses are the sizes of the structures, and every header and metadata field it decodes is the
  field of that name at the offset the layout gives it.\<close>

theorem model_reads_struct_fields:
  "sz 8 ethhdr_ty = sizeof_ethhdr \<and> sz 8 vlan_hdr_ty = sizeof_vlan_hdr \<and>
   sz 8 arphdr_ty = sizeof_arphdr \<and> sz 8 dp_metadata_ty = sizeof_dp_metadata \<and>
   sz 8 l2_metadata_ty = sizeof_l2_metadata \<and> sz 8 iface_config_ty = sizeof_iface_config \<and>
   sz 8 fdb_value_ty = sizeof_fdb_value \<and> sz 8 fdb_key_ty = sizeof_fdb_key \<and>
   decode_ethhdr bs = \<lparr>h_dest = field ethhdr_ty [''h_dest''] bs,
     h_source = field ethhdr_ty [''h_source''] bs, h_proto = word16 (field ethhdr_ty [''h_proto''] bs)\<rparr> \<and>
   decode_vlan_hdr bs = \<lparr>h_vlan_TCI = word16 (field vlan_hdr_ty [''h_vlan_TCI''] bs),
     h_vlan_encapsulated_proto = word16 (field vlan_hdr_ty [''h_vlan_encapsulated_proto''] bs)\<rparr> \<and>
   decode_dp_metadata bs = \<lparr>md_magic = word32 (field dp_metadata_ty [''magic''] bs),
     md_meta_type = word32 (field dp_metadata_ty [''meta_type''] bs),
     md_l2 = \<lparr>l2m_flags = word32 (field dp_metadata_ty [''l2'', ''flags''] bs),
       l2m_vlan_id = word32 (field dp_metadata_ty [''l2'', ''vlan_id''] bs)\<rparr>,
     md_l3 = \<lparr>l3m_flags = word32 (field dp_metadata_ty [''l3'', ''flags''] bs)\<rparr>\<rparr>"
  unfolding field_def header_leaves
  by (simp add: struct_sizes sizeof_defs sizeof_forwarding_structs decode_ethhdr_def
    decode_vlan_hdr_def decode_dp_metadata_def)

section \<open>Keys of the forwarding table\<close>

text \<open>
  The kernel compares map keys byte by byte. A key on the stack of the program is its bytes, and
  the model's key is a record; the two agree because the structure has no padding.
\<close>

definition fdb_key_bytes :: "fdb_key \<Rightarrow> u8 list" where
  "fdb_key_bytes k = fk_mac k @ bytes16 (fk_vlan_id k)"

definition fdb_key_of_bytes :: "u8 list \<Rightarrow> fdb_key" where
  "fdb_key_of_bytes bs = \<lparr>fk_mac = field fdb_key_ty [''mac''] bs,
     fk_vlan_id = word16 (field fdb_key_ty [''vlan_id''] bs)\<rparr>"

lemma fdb_key_leaves:
  "leaves 8 fdb_key_ty [] 0 = [([''mac''], 0, 6, 1), ([''vlan_id''], 6, 2, 2)]"
  by code_simp

text \<open>The bytes of a forwarding key determine it and are all of it: a key of six address bytes fills
  the structure without padding, is read back from its bytes by the layout, and two such keys are
  the same to the kernel exactly when address and VLAN are the same.\<close>

theorem fdb_key_roundtrip:
  assumes "length (fk_mac k) = 6" and "length (fk_mac k') = 6"
  shows "length (fdb_key_bytes k) = sz 8 fdb_key_ty \<and> fdb_key_of_bytes (fdb_key_bytes k) = k \<and>
    (fdb_key_bytes k = fdb_key_bytes k' \<longleftrightarrow> k = k')"
proof -
  have r: "fdb_key_of_bytes (fdb_key_bytes q) = q" if "length (fk_mac q) = 6" for q
    using that by (simp add: fdb_key_of_bytes_def fdb_key_bytes_def field_def fdb_key_leaves)
  then have "fdb_key_bytes k = fdb_key_bytes k' \<Longrightarrow> k = k'"
    using assms by metis
  with r assms show ?thesis by (auto simp: fdb_key_bytes_def struct_sizes)
qed

theorem fdb_key_roundtrip_witness:
  "fdb_key_bytes \<lparr>fk_mac = [2, 0, 0, 0, 0, 1], fk_vlan_id = 5\<rparr> \<noteq>
   fdb_key_bytes \<lparr>fk_mac = [2, 0, 0, 0, 0, 1], fk_vlan_id = 6\<rparr>"
  using fdb_key_roundtrip [of "\<lparr>fk_mac = [2, 0, 0, 0, 0, 1], fk_vlan_id = 5\<rparr>"
      "\<lparr>fk_mac = [2, 0, 0, 0, 0, 1], fk_vlan_id = 6\<rparr>"] by simp

section \<open>The structures of the Go programs\<close>

text \<open>
  dataplane_bpfel.go, where bpf2go writes the padding out. The marker \<open>structs.HostLayout\<close>
  takes no space.
\<close>

abbreviation host_layout :: "string \<times> ty" where
  "host_layout \<equiv> (''_'', Aggregate No_more 1)"

abbreviation pad4 :: "string \<times> ty" where
  "pad4 \<equiv> (''_'', Array U8 4)"

definition go_fdb_key :: ty where
  "go_fdb_key = struct 1 [host_layout, (''Mac'', Array U8 6), (''VlanId'', U16)]"

definition go_lock :: ty where
  "go_lock = struct 1 [host_layout, (''Val'', U32)]"

definition go_fdb_value :: ty where
  "go_fdb_value = struct 1 [host_layout, (''Ifindex'', U32), pad4, (''LastSeen'', U64)]"

definition go_fdb_value_item :: ty where
  "go_fdb_value_item = struct 1 [host_layout, (''Lock'', go_lock), pad4, (''Value'', go_fdb_value)]"

definition go_iface_config_l2 :: ty where
  "go_iface_config_l2 = struct 1 [host_layout, (''VlanId'', U32), (''VlanMode'', U32),
     (''VlanRangeStart'', U32), (''VlanRangeEnd'', U32)]"

definition go_iface_config :: ty where
  "go_iface_config = struct 1 [host_layout, (''Ifindex'', U32), (''Name'', Array U8 64),
     (''NodeMac'', Array U8 6), (''Mode'', U16), pad4, (''L2'', go_iface_config_l2)]"

definition go_iface_config_item :: ty where
  "go_iface_config_item =
     struct 1 [host_layout, (''Lock'', go_lock), pad4, (''Config'', go_iface_config)]"

definition go_forward_config :: ty where
  "go_forward_config = struct 1 [host_layout, (''InIfConfig'', go_iface_config),
     (''OutIfConfig'', go_iface_config), (''FdbValue'', go_fdb_value)]"

text \<open>The service declares its own structures (server.go), without the explicit padding.\<close>

definition server_fdb_key :: ty where
  "server_fdb_key = struct 1 [(''Mac'', Array U8 6), (''VlanId'', U16)]"

definition server_fdb_value_item :: ty where
  "server_fdb_value_item = struct 1 [(''Lock'', U32),
     (''Value'', struct 1 [(''Ifindex'', U32), (''LastSeen'', U64)])]"

lemmas go_struct_defs = go_fdb_key_def go_lock_def go_fdb_value_def go_fdb_value_item_def
  go_iface_config_l2_def go_iface_config_def go_iface_config_item_def go_forward_config_def

text \<open>The Go name of a C field: \<open>vlan_id\<close> becomes \<open>VlanId\<close>.\<close>

definition upper :: "char \<Rightarrow> char" where
  "upper c = (case map_of (zip ''abcdefghijklmnopqrstuvwxyz'' ''ABCDEFGHIJKLMNOPQRSTUVWXYZ'') c of
     None \<Rightarrow> c | Some u \<Rightarrow> u)"

fun camel_from :: "bool \<Rightarrow> string \<Rightarrow> string" where
  "camel_from up [] = []"
| "camel_from up (c # cs) =
     (if c = CHR ''_'' then camel_from True cs else (if up then upper c else c) # camel_from False cs)"

definition camel :: "string \<Rightarrow> string" where
  "camel = camel_from True"

text \<open>What a program sees of a layout: the size, and each field's name, offset and size.\<close>

definition seen :: "nat \<Rightarrow> ty \<Rightarrow> nat \<times> (string list \<times> nat \<times> nat) list" where
  "seen cap t = (sz cap t, map (\<lambda>(p, off, n, a). (p, off, n)) (leaves cap t [] 0))"

definition places :: "nat \<Rightarrow> ty \<Rightarrow> nat \<times> (nat \<times> nat) list" where
  "places cap t = (sz cap t, map (\<lambda>(p, off, n, a). (off, n)) (leaves cap t [] 0))"

definition named_in_go :: "nat \<times> (string list \<times> nat \<times> nat) list \<Rightarrow> nat \<times> (string list \<times> nat \<times> nat) list" where
  "named_in_go v = (fst v, map (\<lambda>(p, off, n). (map camel p, off, n)) (snd v))"

text \<open>The Go programs and the C programs read the same bytes of every map: each Go structure has
  the size of the C structure, and the same fields under their Go names at the same offsets with
  the same sizes, on 64-bit targets and also on the 32-bit targets, where Go aligns 64-bit integers
  to four bytes only. The structures that the service declares for itself have the places of the C
  fields on 64-bit targets only: on 32-bit targets its item has 16 bytes, the kernel's 24.\<close>

theorem go_structs_match_c:
  "seen 8 go_fdb_key = named_in_go (seen 8 fdb_key_ty) \<and>
   seen 8 go_fdb_value_item = named_in_go (seen 8 fdb_value_item_ty) \<and>
   seen 8 go_iface_config_item = named_in_go (seen 8 iface_config_item_ty) \<and>
   seen 8 go_forward_config = named_in_go (seen 8 forward_config_ty) \<and>
   list_all (\<lambda>t. seen 4 t = seen 8 t)
     [go_fdb_key, go_fdb_value_item, go_iface_config_item, go_forward_config] \<and>
   places 8 server_fdb_key = places 8 fdb_key_ty \<and>
   places 8 server_fdb_value_item = places 8 fdb_value_item_ty \<and>
   fst (places 4 server_fdb_value_item) = 16 \<and> fst (places 8 fdb_value_item_ty) = 24"
  by code_simp

theorem container_of_member_witness:
  "container_of 0x1010 fdb_value_item_ty [''value'', ''last_seen''] = Some 0x1000"
proof -
  have "map_of (leaves 8 fdb_value_item_ty [] 0) [''value'', ''last_seen''] = Some (16, 8, 8)" by code_simp
  then have "member_at 0x1000 fdb_value_item_ty [''value'', ''last_seen''] = Some 0x1010"
    by (simp add: member_at_def)
  then show ?thesis by (rule container_of_member)
qed

end
