(* ===== verification/Arp.thy ===== *)
theory Arp
  imports Xdp_Out Layout
begin

text \<open>
  The ARP responder of l3.h. It is compiled out (\<open>#if 0\<close>, and the call in \<open>xdp_l3_process\<close> is a
  comment), and it reads a structure \<open>bpf_config\<close> and a map \<open>config_map\<close> that the repository does
  not declare: what the lookup of \<open>config_map\<close> returns, the address bytes \<open>node_mac\<close> and the number
  \<open>node_ip\<close>, is an argument here.
\<close>

section \<open>The code\<close>

definition arp_payload_ty :: ty where
  "arp_payload_ty = struct 8 [(''sha'', Array U8 6), (''spa'', U32), (''tha'', Array U8 6), (''tpa'', U32)]"

definition offset_of :: "ty \<Rightarrow> string \<Rightarrow> nat" where
  "offset_of t f = (case map_of (leaves 8 t [] 0) [f] of None \<Rightarrow> 0 | Some (off, n, a) \<Rightarrow> off)"

record arp_payload =
  arp_sha :: "u8 list"
  arp_spa :: u32
  arp_tha :: "u8 list"
  arp_tpa :: u32

definition decode_arp_payload :: "u8 list \<Rightarrow> arp_payload" where
  "decode_arp_payload bs =
     \<lparr>arp_sha = field arp_payload_ty [''sha''] bs, arp_spa = word32 (field arp_payload_ty [''spa''] bs),
      arp_tha = field arp_payload_ty [''tha''] bs, arp_tpa = word32 (field arp_payload_ty [''tpa''] bs)\<rparr>"

definition rd32 :: "addr \<Rightarrow> xdp_state \<Rightarrow> u32 option" where
  "rd32 p s = do { bs \<leftarrow> rd p 4 s; Some (word32 bs) }"

definition wr32 :: "addr \<Rightarrow> u32 \<Rightarrow> xdp_state \<Rightarrow> xdp_state option" where
  "wr32 p x s = wr p (bytes32 x) s"

text \<open>The part that turns the request in place into the reply.\<close>

definition arp_reply :: "u8 list \<Rightarrow> addr \<Rightarrow> addr \<Rightarrow> addr \<Rightarrow> xdp_state \<Rightarrow> xdp_state option" where
  "arp_reply node_mac eth arp_header payload s = do {
     src \<leftarrow> rd (ptr_add eth 6) 6 s;
     s \<leftarrow> wr eth src s;
     s \<leftarrow> wr (ptr_add eth 6) node_mac s;
     s \<leftarrow> wr (ptr_add arp_header (offset_of arphdr_ty ''ar_op'')) (bytes16 (bpf_htons True ARPOP_REPLY)) s;
     target_ip \<leftarrow> rd32 (ptr_add payload (offset_of arp_payload_ty ''tpa'')) s;
     spa \<leftarrow> rd32 (ptr_add payload (offset_of arp_payload_ty ''spa'')) s;
     s \<leftarrow> wr32 (ptr_add payload (offset_of arp_payload_ty ''tpa'')) spa s;
     s \<leftarrow> wr32 (ptr_add payload (offset_of arp_payload_ty ''spa'')) target_ip s;
     sha \<leftarrow> rd (ptr_add payload (offset_of arp_payload_ty ''sha'')) 6 s;
     s \<leftarrow> wr (ptr_add payload (offset_of arp_payload_ty ''tha'')) sha s;
     src \<leftarrow> rd (ptr_add eth 6) 6 s;
     wr (ptr_add payload (offset_of arp_payload_ty ''sha'')) src s
   }"

definition arp_process ::
  "(u8 list \<times> u32) option \<Rightarrow> addr \<Rightarrow> xdp_state \<Rightarrow> (xdp_action \<times> xdp_state) option" where
  "arp_process config_map ether_next_data s = do {
     config \<leftarrow> helper_call s config_map;
     (case config of None \<Rightarrow> Some (XDP_DROP, s) | Some (node_mac, node_ip) \<Rightarrow>
       (case ethernet_arp_hdr (ctx s) ether_next_data of None \<Rightarrow> Some (XDP_DROP, s) | Some arp_header \<Rightarrow>
         (case proto_payload (ctx s) (ptr_add arp_header sizeof_arphdr) (of_nat (sz 8 arp_payload_ty)) of
            None \<Rightarrow> Some (XDP_DROP, s)
          | Some payload \<Rightarrow> do {
              ar_op \<leftarrow> rd16 (ptr_add arp_header (offset_of arphdr_ty ''ar_op'')) s;
              let op = bpf_ntohs False ar_op;
              if op = ARPOP_REQUEST then do {
                target_ip \<leftarrow> rd32 (ptr_add payload (offset_of arp_payload_ty ''tpa'')) s;
                (case ethernet_ethhdr (ctx s) of None \<Rightarrow> Some (XDP_DROP, s) | Some eth \<Rightarrow> do {
                   spa \<leftarrow> rd32 (ptr_add payload (offset_of arp_payload_ty ''spa'')) s;
                   tpa \<leftarrow> rd32 (ptr_add payload (offset_of arp_payload_ty ''tpa'')) s;
                   if spa = tpa then Some (XDP_DROP, s)
                   else if target_ip \<noteq> bpf_ntohl False node_ip then Some (XDP_DROP, s)
                   else do {
                     s \<leftarrow> arp_reply node_mac eth arp_header payload s;
                     Some (XDP_TX, s)
                   }
                 })
              }
              else if op = 2 then do {
                source_ip \<leftarrow> rd32 (ptr_add payload (offset_of arp_payload_ty ''spa'')) s;
                Some (XDP_PASS, s)
              }
              else Some (XDP_DROP, s)
            })))
   }"

section \<open>Layout\<close>

lemma arp_leaves:
  "leaves 8 arp_payload_ty [] 0 =
     [([''sha''], 0, 6, 1), ([''spa''], 8, 4, 4), ([''tha''], 12, 6, 1), ([''tpa''], 20, 4, 4)]"
  "leaves 8 arphdr_ty [] 0 =
     [([''ar_hrd''], 0, 2, 2), ([''ar_pro''], 2, 2, 2), ([''ar_hln''], 4, 1, 1), ([''ar_pln''], 5, 1, 1),
      ([''ar_op''], 6, 2, 2)]"
  by code_simp+

lemma arp_offsets [simp]:
  "offset_of arp_payload_ty ''sha'' = 0" "offset_of arp_payload_ty ''spa'' = 8"
  "offset_of arp_payload_ty ''tha'' = 12" "offset_of arp_payload_ty ''tpa'' = 20"
  "offset_of arphdr_ty ''ar_op'' = 6"
  by (simp_all add: offset_of_def arp_leaves)

lemma sz_arp_payload [simp]: "sz 8 arp_payload_ty = 24"
  by code_simp

lemma decode_arp_payload_eq:
  "decode_arp_payload bs = \<lparr>arp_sha = take 6 bs, arp_spa = word32 (take 4 (drop 8 bs)),
     arp_tha = take 6 (drop 12 bs), arp_tpa = word32 (take 4 (drop 20 bs))\<rparr>"
  by (simp add: decode_arp_payload_def field_def arp_leaves)

lemma decode_arp_payload_at:
  "decode_arp_payload (drop (k + 8) bs) = \<lparr>arp_sha = take 6 (drop (k + 8) bs),
     arp_spa = word32 (take 4 (drop (k + 16) bs)), arp_tha = take 6 (drop (k + 20) bs),
     arp_tpa = word32 (take 4 (drop (k + 28) bs))\<rparr>"
  by (simp add: decode_arp_payload_eq add.commute [of k])

section \<open>What the responder does to the frame\<close>

text \<open>The reply to the request \<open>f\<close> whose ARP header is at offset \<open>k\<close>, the stores in the code's order.\<close>

definition arp_reply_frame :: "u8 list \<Rightarrow> nat \<Rightarrow> u8 list \<Rightarrow> u8 list" where
  "arp_reply_frame node_mac k f =
     patch (k + 8) node_mac (patch (k + 20) (take 6 (drop (k + 8) f))
      (patch (k + 16) (take 4 (drop (k + 28) f)) (patch (k + 28) (take 4 (drop (k + 16) f))
       (patch (k + 6) (bytes16 (bpf_htons True ARPOP_REPLY)) (patch 6 node_mac
        (patch 0 (take 6 (drop 6 f)) f))))))"

lemma bytes32_word32: "length bs = 4 \<Longrightarrow> bytes32 (word32 bs) = bs"
  using le_enc_dec [of bs] le_dec_bound [of bs]
  by (simp add: bytes32_def word32_def unsigned_of_nat take_bit_eq_mod)

text \<open>Loads and stores at an offset into the frame.\<close>

lemma pkt_len_le:
  "k + n \<le> pkt_len (ctx s) \<Longrightarrow> 0 < n \<Longrightarrow> unat (data (ctx s)) + k + n \<le> unat (data_end (ctx s))"
  by (simp add: pkt_len_def)

lemma rd_frame: "ctx s = c \<Longrightarrow> k + n \<le> pkt_len c \<Longrightarrow> 0 < n \<Longrightarrow>
    rd (ptr_add (ptr (data c)) k) n s = Some (take n (drop k (pkt_bytes c (mem s))))"
  by (auto simp: rd_off pkt_len_le)

lemma rd32_frame: "ctx s = c \<Longrightarrow> k + 4 \<le> pkt_len c \<Longrightarrow>
    rd32 (ptr_add (ptr (data c)) k) s = Some (word32 (take 4 (drop k (pkt_bytes c (mem s)))))"
  by (simp add: rd32_def rd_frame)

lemma rd16_frame: "ctx s = c \<Longrightarrow> k + 2 \<le> pkt_len c \<Longrightarrow>
    rd16 (ptr_add (ptr (data c)) k) s = Some (word16 (take 2 (drop k (pkt_bytes c (mem s)))))"
  by (simp add: rd16_def rd_frame)

lemma wr_frame: "ctx s = c \<Longrightarrow> k + length bs \<le> pkt_len c \<Longrightarrow> bs \<noteq> [] \<Longrightarrow>
    wr (ptr_add (ptr (data c)) k) bs s =
      Some (s\<lparr>mem := store_bytes (mem s) (ptr_add (ptr (data c)) k) bs\<rparr>)"
  using pkt_len_le [of k "length bs" s] unat_u32_less [of "data_end (ctx s)"] by (auto simp: wr_run)

lemma frame_store: "k + length bs \<le> pkt_len c \<Longrightarrow> bs \<noteq> [] \<Longrightarrow>
    pkt_bytes c (store_bytes m (ptr_add (ptr (data c)) k) bs) = patch k bs (pkt_bytes c m)"
  by (rule pkt_bytes_store) (cases bs; simp add: pkt_len_def)

lemmas frame_runs = rd_frame rd32_frame rd16_frame wr_frame wr_frame [of _ _ 0, simplified] frame_store
  frame_store [of 0, simplified] wr32_def

lemma patched:
  assumes "g = patch k bs f" and "k + length bs \<le> length f"
  shows "length g = length f" and "take (length bs) (drop k g) = bs"
    and "j + n \<le> k \<or> k + length bs \<le> j \<Longrightarrow> take n (drop j g) = take n (drop j f)"
    and "n \<le> k \<Longrightarrow> take n g = take n f"
  using assms by (simp_all add: patch_same patch_other patch_head)

text \<open>One store: the new memory, and the frame in it.\<close>

lemma wr_patch:
  assumes "ctx s = c" and "k + length bs \<le> pkt_len c" and "bs \<noteq> []" and "f = pkt_bytes c (mem s)"
  obtains m where "wr (ptr_add (ptr (data c)) k) bs s = Some (s\<lparr>mem := m\<rparr>)"
    and "pkt_bytes c m = patch k bs f"
  using that wr_frame [OF assms(1-3)] frame_store [OF assms(2,3)] assms(4) by blast

lemma arp_reply_run:
  assumes "14 \<le> k" and "k + 32 \<le> pkt_len (ctx s)" and "length node_mac = 6"
  shows "\<exists>m. arp_reply node_mac (ptr (data (ctx s))) (ptr_add (ptr (data (ctx s))) k)
      (ptr_add (ptr (data (ctx s))) (k + 8)) s = Some (s\<lparr>mem := m\<rparr>) \<and>
    pkt_bytes (ctx s) m = arp_reply_frame node_mac k (frame s)"
proof -
  let ?p = "ptr_add (ptr (data (ctx s)))" and ?f = "frame s"
  have ne: "node_mac \<noteq> []" "length ?f = pkt_len (ctx s)" using assms(3) by auto
  obtain m1 where m1: "wr (?p 0) (take 6 (drop 6 ?f)) s = Some (s\<lparr>mem := m1\<rparr>)"
    and f1: "pkt_bytes (ctx s) m1 = patch 0 (take 6 (drop 6 ?f)) ?f"
    by (rule wr_patch [of s _ 0 "take 6 (drop 6 ?f)"]) (use assms(2) in auto)
  obtain m2 where m2: "wr (?p 6) node_mac (s\<lparr>mem := m1\<rparr>) = Some (s\<lparr>mem := m2\<rparr>)"
    and f2: "pkt_bytes (ctx s) m2 = patch 6 node_mac (pkt_bytes (ctx s) m1)"
    by (rule wr_patch [of "s\<lparr>mem := m1\<rparr>" _ 6 node_mac]) (use assms ne in auto)
  obtain m3 where m3: "wr (?p (k + 6)) (bytes16 (bpf_htons True ARPOP_REPLY)) (s\<lparr>mem := m2\<rparr>) = Some (s\<lparr>mem := m3\<rparr>)"
    and f3: "pkt_bytes (ctx s) m3 = patch (k + 6) (bytes16 (bpf_htons True ARPOP_REPLY)) (pkt_bytes (ctx s) m2)"
    by (rule wr_patch [of "s\<lparr>mem := m2\<rparr>" _ "k + 6" "bytes16 (bpf_htons True ARPOP_REPLY)"]) (use assms in auto)
  obtain m4 where m4: "wr (?p (k + 28)) (take 4 (drop (k + 16) ?f)) (s\<lparr>mem := m3\<rparr>) = Some (s\<lparr>mem := m4\<rparr>)"
    and f4: "pkt_bytes (ctx s) m4 = patch (k + 28) (take 4 (drop (k + 16) ?f)) (pkt_bytes (ctx s) m3)"
    by (rule wr_patch [of "s\<lparr>mem := m3\<rparr>" _ "k + 28" "take 4 (drop (k + 16) ?f)"]) (use assms in auto)
  obtain m5 where m5: "wr (?p (k + 16)) (take 4 (drop (k + 28) ?f)) (s\<lparr>mem := m4\<rparr>) = Some (s\<lparr>mem := m5\<rparr>)"
    and f5: "pkt_bytes (ctx s) m5 = patch (k + 16) (take 4 (drop (k + 28) ?f)) (pkt_bytes (ctx s) m4)"
    by (rule wr_patch [of "s\<lparr>mem := m4\<rparr>" _ "k + 16" "take 4 (drop (k + 28) ?f)"]) (use assms in auto)
  obtain m6 where m6: "wr (?p (k + 20)) (take 6 (drop (k + 8) ?f)) (s\<lparr>mem := m5\<rparr>) = Some (s\<lparr>mem := m6\<rparr>)"
    and f6: "pkt_bytes (ctx s) m6 = patch (k + 20) (take 6 (drop (k + 8) ?f)) (pkt_bytes (ctx s) m5)"
    by (rule wr_patch [of "s\<lparr>mem := m5\<rparr>" _ "k + 20" "take 6 (drop (k + 8) ?f)"]) (use assms in auto)
  obtain m7 where m7: "wr (?p (k + 8)) node_mac (s\<lparr>mem := m6\<rparr>) = Some (s\<lparr>mem := m7\<rparr>)"
    and f7: "pkt_bytes (ctx s) m7 = patch (k + 8) node_mac (pkt_bytes (ctx s) m6)"
    by (rule wr_patch [of "s\<lparr>mem := m6\<rparr>" _ "k + 8" node_mac]) (use assms ne in auto)
  note p = patched(2,3) [OF f1] patched(2,3) [OF f2] patched(2,3) [OF f3] patched(2,3) [OF f4]
    patched(2,3) [OF f5] patched(2,3) [OF f6]
  have r: "take 4 (drop (k + 28) (pkt_bytes (ctx s) m3)) = take 4 (drop (k + 28) ?f)"
    "take 4 (drop (k + 16) (pkt_bytes (ctx s) m3)) = take 4 (drop (k + 16) ?f)"
    "take 6 (drop (k + 8) (pkt_bytes (ctx s) m5)) = take 6 (drop (k + 8) ?f)"
    "take 6 (drop 6 (pkt_bytes (ctx s) m6)) = node_mac"
    using assms p(3) by (simp_all add: p)
  have off: "ptr_add (?p (k + 8)) j = ?p (k + (8 + j))" for j by (simp add: add.assoc)
  have "arp_reply node_mac (ptr (data (ctx s))) (?p k) (?p (k + 8)) s = Some (s\<lparr>mem := m7\<rparr>)"
    unfolding arp_reply_def arp_offsets off
    using assms m1 m2 m3 m4 m5 m6 m7 by (simp add: rd_frame rd32_frame wr32_def bytes32_word32 r)
  moreover have "pkt_bytes (ctx s) m7 = arp_reply_frame node_mac k ?f"
    by (simp only: f1 f2 f3 f4 f5 f6 f7 arp_reply_frame_def)
  ultimately show ?thesis by blast
qed

text \<open>The verdict on a frame whose ARP header is at offset \<open>k\<close>, for the node's address and number.\<close>

definition arp_verdict :: "(u8 list \<times> u32) option \<Rightarrow> nat \<Rightarrow> u8 list \<Rightarrow> xdp_action" where
  "arp_verdict config k f = (case config of None \<Rightarrow> XDP_DROP | Some (node_mac, node_ip) \<Rightarrow>
     if length f < k + 32 then XDP_DROP
     else
       let op = bpf_ntohs False (word16 (take 2 (drop (k + 6) f)));
           p = decode_arp_payload (drop (k + 8) f) in
       if op = ARPOP_REQUEST then
         (if arp_spa p = arp_tpa p \<or> arp_tpa p \<noteq> bpf_ntohl False node_ip then XDP_DROP else XDP_TX)
       else if op = ARPOP_REPLY then XDP_PASS else XDP_DROP)"

lemma arp_parsers:
  assumes "k \<le> pkt_len c"
  shows "ethernet_arp_hdr c (ptr_add (ptr (data c)) k) =
      (if k + 8 \<le> pkt_len c then Some (ptr_add (ptr (data c)) k) else None)"
    and "k + 8 \<le> pkt_len c \<Longrightarrow> proto_payload c (ptr_add (ptr (data c)) (k + 8)) 24 =
      (if k + 32 \<le> pkt_len c then Some (ptr_add (ptr (data c)) (k + 8)) else None)"
proof -
  have k: "k < 4294967288" if "k + 8 \<le> pkt_len c"
    using that unat_u32_less [of "data_end c"] by (simp add: pkt_len_def)
  have "k < 4294967296" using assms unat_u32_less [of "data_end c"] by (simp add: pkt_len_def)
  then have "unat (ptr_add (ptr (data c)) (k + 8)) = unat (data c) + (k + 8)"
    using unat_u32_less [of "data c"] by (intro unat_ptr_add [THEN trans]) simp_all
  then show "ethernet_arp_hdr c (ptr_add (ptr (data c)) k) =
      (if k + 8 \<le> pkt_len c then Some (ptr_add (ptr (data c)) k) else None)"
    by (auto simp: ethernet_arp_hdr_def Let_def sizeof_arphdr_def word_less_nat_alt pkt_len_def)
  assume "k + 8 \<le> pkt_len c"
  then show "proto_payload c (ptr_add (ptr (data c)) (k + 8)) 24 =
      (if k + 32 \<le> pkt_len c then Some (ptr_add (ptr (data c)) (k + 8)) else None)"
    using k unat_u32_less [of "data c"]
    by (auto simp: proto_payload_def Let_def word_less_nat_alt pkt_len_def unat_ptr_add)
qed

lemma arp_process_run:
  assumes "held s = None" and "14 \<le> k" and "k \<le> pkt_len (ctx s)"
    and "case config of None \<Rightarrow> True | Some (node_mac, node_ip) \<Rightarrow> length node_mac = 6"
  shows "\<exists>m. arp_process config (ptr_add (ptr (data (ctx s))) k) s =
      Some (arp_verdict config k (frame s), s\<lparr>mem := m\<rparr>) \<and>
    pkt_bytes (ctx s) m =
      (if arp_verdict config k (frame s) = XDP_TX then arp_reply_frame (fst (the config)) k (frame s)
       else frame s)"
proof (cases "config = None \<or> pkt_len (ctx s) < k + 32")
  case True
  then show ?thesis
    using assms(1,3) arp_parsers [of k "ctx s"]
    by (auto simp: arp_process_def arp_verdict_def runs sizeof_arphdr_def split: option.splits
      intro!: exI [of _ "mem s"])
next
  case False
  then obtain node_mac node_ip where c: "config = Some (node_mac, node_ip)" by auto
  have len: "k + 32 \<le> pkt_len (ctx s)" using False by simp
  have eth: "ethernet_ethhdr (ctx s) = Some (ptr (data (ctx s)))"
    using len assms(2) by (simp add: runs pkt_len_def)
  obtain m where m: "arp_reply node_mac (ptr (data (ctx s))) (ptr_add (ptr (data (ctx s))) k)
      (ptr_add (ptr (data (ctx s))) (k + 8)) s = Some (s\<lparr>mem := m\<rparr>)"
    "pkt_bytes (ctx s) m = arp_reply_frame node_mac k (frame s)"
    using arp_reply_run [OF assms(2) len] assms(4) c by auto
  let ?p = "ptr_add (ptr (data (ctx s)))"
  have parse: "ethernet_arp_hdr (ctx s) (?p k) = Some (?p k)"
    "proto_payload (ctx s) (?p (k + 8)) 24 = Some (?p (k + 8))"
    using len assms(3) arp_parsers [of k "ctx s"] by simp_all
  have rds: "rd16 (?p (k + 6)) s = Some (word16 (take 2 (drop (k + 6) (frame s))))"
    "rd32 (?p (k + 16)) s = Some (word32 (take 4 (drop (k + 16) (frame s))))"
    "rd32 (?p (k + 28)) s = Some (word32 (take 4 (drop (k + 28) (frame s))))"
    using len by (simp_all add: rd16_frame rd32_frame)
  have off: "ptr_add (?p k) 8 = ?p (k + 8)" "ptr_add (?p k) 6 = ?p (k + 6)"
    "ptr_add (?p (k + 8)) 20 = ?p (k + 28)" "ptr_add (?p (k + 8)) 8 = ?p (k + 16)"
    by (simp_all add: add.commute)
  have len': "\<not> length (frame s) < k + 32" using len by simp
  show ?thesis
    unfolding arp_process_def arp_verdict_def c arp_offsets sizeof_arphdr_def sz_arp_payload
      helper_call_free [OF assms(1)] decode_arp_payload_at
    using m by (simp add: parse rds off eth len' Let_def ARPOP_REPLY_def ARPOP_REQUEST_def
      del: length_pkt_bytes ptr_add_add split: if_split) (auto intro: exI [of _ "mem s"])
qed

section \<open>Properties\<close>

text \<open>C33: the ARP responder implements its decision on every frame: it never accesses memory outside the
  packet; it answers (\<open>XDP_TX\<close>) exactly the requests, not gratuitous, whose target is the node's
  address, passes replies on, and drops everything else, and it changes the frame only to answer.\<close>

theorem arp_process_refines_verdict:
  assumes "held s = None" and "14 \<le> k" and "k \<le> pkt_len (ctx s)"
    and "case config of None \<Rightarrow> True | Some (node_mac, node_ip) \<Rightarrow> length node_mac = 6"
  shows "\<exists>m. arp_process config (ptr_add (ptr (data (ctx s))) k) s =
      Some (arp_verdict config k (frame s), s\<lparr>mem := m\<rparr>) \<and>
    (arp_verdict config k (frame s) \<noteq> XDP_TX \<longrightarrow> pkt_bytes (ctx s) m = frame s)"
  using arp_process_run [OF assms] by auto

text \<open>A request in the layout the code expects: from \<open>mac_b\<close>, 10.0.0.2, for 10.0.0.1.\<close>

definition sample_request :: "u8 list" where
  "sample_request = mac_a @ mac_b @ [8, 6] @ [0, 1, 8, 0, 6, 4, 0, 1] @
     mac_b @ [0, 0] @ [10, 0, 0, 2] @ replicate 6 0 @ [0, 0] @ [10, 0, 0, 1]"

lemma length_macs: "length mac_a = 6" "length mac_b = 6"
  by (simp_all add: mac_a_def mac_b_def)

lemma sample_request_verdict:
  "length sample_request = 46"
  "arp_verdict (Some (mac_a, 0x0A000001)) 14 sample_request = XDP_TX"
proof -
  show "length sample_request = 46" by (simp add: sample_request_def mac_a_def mac_b_def)
  have "length [1, 0, 0, 10 :: u8] = 4" "le_dec [1, 0, 0, 10] = unat (0x0A000001 :: u32)" by simp_all
  with le_enc_dec [of "[1, 0, 0, 10]"] have "le_enc 4 (unat (0x0A000001 :: u32)) = [1, 0, 0, 10]"
    by (simp only:)
  then have "bpf_ntohl False 0x0A000001 = of_nat (le_dec (rev [1, 0, 0, 10]))"
    by (simp only: bpf_ntohl_def bswap32_def if_False)
  then have "bpf_ntohl False 0x0A000001 = 0x0100000A" by simp
  moreover have "bpf_ntohs False (word16 (take 2 (drop 20 sample_request))) = ARPOP_REQUEST"
    by (simp add: sample_request_def mac_a_def mac_b_def ntohs_word16 ARPOP_REQUEST_def)
  moreover have "word32 (take 4 (drop 30 sample_request)) = 0x0200000A"
    "word32 (take 4 (drop 42 sample_request)) = 0x0100000A"
    by (simp_all add: sample_request_def mac_a_def mac_b_def word32_def)
  ultimately show "arp_verdict (Some (mac_a, 0x0A000001)) 14 sample_request = XDP_TX"
    using \<open>length sample_request = 46\<close> by (simp add: arp_verdict_def Let_def decode_arp_payload_eq)
qed

lemma arp_reply_frame_fields:
  assumes "14 \<le> k" and "k + 32 \<le> length f" and "length node_mac = 6"
  defines "g \<equiv> arp_reply_frame node_mac k f"
  shows "take 6 g = take 6 (drop 6 f)" and "take 6 (drop 6 g) = node_mac"
    and "take 2 (drop (k + 6) g) = bytes16 (bpf_htons True ARPOP_REPLY)"
    and "decode_arp_payload (drop (k + 8) g) =
      (let p = decode_arp_payload (drop (k + 8) f)
       in \<lparr>arp_sha = node_mac, arp_spa = arp_tpa p, arp_tha = arp_sha p, arp_tpa = arp_spa p\<rparr>)"
    and "length g = length f"
proof -
  define f1 where "f1 = patch 0 (take 6 (drop 6 f)) f"
  define f2 where "f2 = patch 6 node_mac f1"
  define f3 where "f3 = patch (k + 6) (bytes16 (bpf_htons True ARPOP_REPLY)) f2"
  define f4 where "f4 = patch (k + 28) (take 4 (drop (k + 16) f)) f3"
  define f5 where "f5 = patch (k + 16) (take 4 (drop (k + 28) f)) f4"
  define f6 where "f6 = patch (k + 20) (take 6 (drop (k + 8) f)) f5"
  have g: "g = patch (k + 8) node_mac f6"
    by (simp only: g_def arp_reply_frame_def f1_def f2_def f3_def f4_def f5_def f6_def)
  have l1: "length f1 = length f" using assms(1-3) by (simp add: patched(1) [OF f1_def])
  have l2: "length f2 = length f" using assms(1-3) l1 by (simp add: patched(1) [OF f2_def])
  have l3: "length f3 = length f" using assms(1-3) l2 by (simp add: patched(1) [OF f3_def])
  have l4: "length f4 = length f" using assms(1-3) l3 by (simp add: patched(1) [OF f4_def])
  have l5: "length f5 = length f" using assms(1-3) l4 by (simp add: patched(1) [OF f5_def])
  have l6: "length f6 = length f" using assms(1-3) l5 by (simp add: patched(1) [OF f6_def])
  have q2: "take n (drop j f2) = take n (drop j f1)" if "j + n \<le> 6 \<or> 12 \<le> j" for n j
    by (rule patched(3) [OF f2_def]) (use that assms(1-3) l1 in auto)
  have q3: "take n (drop j f3) = take n (drop j f2)" if "j + n \<le> k + 6 \<or> k + 8 \<le> j" for n j
    by (rule patched(3) [OF f3_def]) (use that assms(1-3) l2 in auto)
  have q4: "take n (drop j f4) = take n (drop j f3)" if "j + n \<le> k + 28 \<or> k + 32 \<le> j" for n j
    by (rule patched(3) [OF f4_def]) (use that assms(1-3) l3 in auto)
  have q5: "take n (drop j f5) = take n (drop j f4)" if "j + n \<le> k + 16 \<or> k + 20 \<le> j" for n j
    by (rule patched(3) [OF f5_def]) (use that assms(1-3) l4 in auto)
  have q6: "take n (drop j f6) = take n (drop j f5)" if "j + n \<le> k + 20 \<or> k + 26 \<le> j" for n j
    by (rule patched(3) [OF f6_def]) (use that assms(1-3) l5 in auto)
  have q7: "take n (drop j g) = take n (drop j f6)" if "j + n \<le> k + 8 \<or> k + 14 \<le> j" for n j
    by (rule patched(3) [OF g]) (use that assms(1-3) l6 in auto)
  have o2: "take 6 (drop (6) f2) = node_mac"
    using patched(2) [OF f2_def] assms(1-3) l1 by simp
  have o3: "take 2 (drop (k + 6) f3) = bytes16 (bpf_htons True ARPOP_REPLY)"
    using patched(2) [OF f3_def] assms(1-3) l2 by simp
  have o4: "take 4 (drop (k + 28) f4) = take 4 (drop (k + 16) f)"
    using patched(2) [OF f4_def] assms(1-3) l3 by simp
  have o5: "take 4 (drop (k + 16) f5) = take 4 (drop (k + 28) f)"
    using patched(2) [OF f5_def] assms(1-3) l4 by simp
  have o6: "take 6 (drop (k + 20) f6) = take 6 (drop (k + 8) f)"
    using patched(2) [OF f6_def] assms(1-3) l5 by simp
  have o7: "take 6 (drop (k + 8) g) = node_mac"
    using patched(2) [OF g] assms(1-3) l6 by simp
  show "length g = length f" using assms(1-3) l6 by (simp add: patched(1) [OF g])
  have "take 6 g = take 6 f1"
    using assms(1) q2 [of 0 6] q3 [of 0 6] q4 [of 0 6] q5 [of 0 6] q6 [of 0 6] q7 [of 0 6] by simp
  then show "take 6 g = take 6 (drop 6 f)" using assms(1-3) by (simp add: f1_def patch_head)
  show "take 6 (drop 6 g) = node_mac" using assms(1) by (simp add: q7 q6 q5 q4 q3 o2)
  show "take 2 (drop (k + 6) g) = bytes16 (bpf_htons True ARPOP_REPLY)" by (simp add: q7 q6 q5 q4 o3)
  have "take 6 (drop (k + 8) g) = node_mac" by (rule o7)
  moreover have "take 4 (drop (k + 16) g) = take 4 (drop (k + 28) f)" by (simp add: q7 q6 o5)
  moreover have "take 6 (drop (k + 20) g) = take 6 (drop (k + 8) f)" by (simp add: q7 o6)
  moreover have "take 4 (drop (k + 28) g) = take 4 (drop (k + 16) f)" by (simp add: q7 q6 q5 o4)
  ultimately show "decode_arp_payload (drop (k + 8) g) =
      (let p = decode_arp_payload (drop (k + 8) f)
       in \<lparr>arp_sha = node_mac, arp_spa = arp_tpa p, arp_tha = arp_sha p, arp_tpa = arp_spa p\<rparr>)"
    by (simp only: decode_arp_payload_at Let_def arp_payload.simps)
qed

theorem arp_process_refines_verdict_witness:
  "\<exists>m. arp_process (Some (mac_a, 0x0A000001)) (ptr_add (ptr 4096) 14)
      (sample_state sample_request 1 Map.empty zero_cache) =
    Some (XDP_TX, (sample_state sample_request 1 Map.empty zero_cache)\<lparr>mem := m\<rparr>)"
  using arp_process_refines_verdict [of "sample_state sample_request 1 Map.empty zero_cache" 14
      "Some (mac_a, 0x0A000001)"]
  by (auto simp: sample_request_verdict length_macs)

text \<open>An answer is a well-formed reply: it goes to the sender's Ethernet address from the node's
  own, carries the reply code, names the node's address as the owner of the number asked for, and
  is addressed to the requester; the frame keeps its length.\<close>

theorem arp_reply_answers_request:
  assumes "held s = None" and "14 \<le> k" and "k \<le> pkt_len (ctx s)" and "length node_mac = 6"
    and "arp_verdict (Some (node_mac, node_ip)) k (frame s) = XDP_TX"
  shows "\<exists>s'. arp_process (Some (node_mac, node_ip)) (ptr_add (ptr (data (ctx s))) k) s = Some (XDP_TX, s') \<and>
    length (frame s') = length (frame s) \<and>
    take 6 (frame s') = take 6 (drop 6 (frame s)) \<and> take 6 (drop 6 (frame s')) = node_mac \<and>
    bpf_ntohs False (word16 (take 2 (drop (k + 6) (frame s')))) = ARPOP_REPLY \<and>
    (let p = decode_arp_payload (drop (k + 8) (frame s));
         q = decode_arp_payload (drop (k + 8) (frame s')) in
     arp_sha q = node_mac \<and> arp_spa q = bpf_ntohl False node_ip \<and>
     arp_tha q = arp_sha p \<and> arp_tpa q = arp_spa p)"
proof -
  have len: "k + 32 \<le> length (frame s)"
    and tpa: "arp_tpa (decode_arp_payload (drop (k + 8) (frame s))) = bpf_ntohl False node_ip"
    using assms(5) by (auto simp: arp_verdict_def Let_def split: if_splits)
  obtain m where m: "arp_process (Some (node_mac, node_ip)) (ptr_add (ptr (data (ctx s))) k) s =
      Some (XDP_TX, s\<lparr>mem := m\<rparr>)" "pkt_bytes (ctx s) m = arp_reply_frame node_mac k (frame s)"
    using arp_process_run [OF assms(1-3), of "Some (node_mac, node_ip)"] assms(4,5) by auto
  have "bpf_ntohs False (bpf_htons True ARPOP_REPLY) = ARPOP_REPLY"
    by (simp add: bpf_ntohs_def bpf_htons_def swab_eqs(1) [symmetric])
  then show ?thesis
    using m arp_reply_frame_fields [OF assms(2) len assms(4)] tpa by (simp add: Let_def)
qed

theorem arp_reply_answers_request_witness:
  "\<exists>s'. arp_process (Some (mac_a, 0x0A000001)) (ptr_add (ptr 4096) 14)
      (sample_state sample_request 1 Map.empty zero_cache) = Some (XDP_TX, s') \<and>
    take 6 (frame s') = mac_b \<and> take 6 (drop 6 (frame s')) = mac_a"
proof -
  let ?s = "sample_state sample_request 1 Map.empty zero_cache"
  have f: "frame ?s = sample_request" by (simp add: sample_request_verdict)
  have "take 6 (drop 6 sample_request) = mac_b" by (simp add: sample_request_def mac_a_def mac_b_def)
  with arp_reply_answers_request [of ?s 14 mac_a "0x0A000001"] f show ?thesis
    by (auto simp: sample_request_verdict length_macs)
qed

section \<open>Requests as they are on the wire\<close>

text \<open>
  An ARP request for IPv4 over Ethernet as RFC 826 lays it out: the header, then sender address,
  sender number, target address and target number without gaps, 28 bytes in all.
\<close>

definition wire_request :: "u8 list \<Rightarrow> u8 list \<Rightarrow> u8 list \<Rightarrow> u8 list" where
  "wire_request sha spa tpa = [0, 1, 8, 0, 6, 4, 0, 1] @ sha @ spa @ replicate 6 0 @ tpa"



end
