(* ===== verification/Concurrency.thy ===== *)
theory Concurrency
  imports Fdb
begin

text \<open>
  The forwarding database under concurrency. Every CPU runs the programs on its own frames, and all
  share \<open>fdb_table\<close>; the code protects the value of an entry by the spin lock in it. Here the two
  functions of l2.h that use the table, \<open>fdb_learning\<close> and then \<open>fdb_lookup\<close>, are cut into steps at
  every access to shared memory: a helper call is one step (the kernel makes the map operations
  atomic), and so is each load and each store of a field of an entry. Any CPU may move next. What
  only the CPU itself touches is no step: the look-up of its own cache, the packet, the printing.
\<close>

section \<open>State\<close>

text \<open>Where a CPU is: the statement of l2.h it executes next.\<close>

datatype stage =
    Lookup_src | Time_new | Insert | Time_old | Lock_src | Check_port | Check_time
  | Write_port | Write_time | Unlock_src
  | Lookup_dst | Peek_dst | Lock_dst | Copy_port | Copy_time | Unlock_dst | Finished

text \<open>
  A CPU with the frame it handles (source key, destination key, ingress interface), the clock value
  it has read, and the result in its cache.
\<close>

record cpu =
  src :: fdb_key
  dst :: fdb_key
  in_ifindex :: u32
  now :: u64
  at :: stage
  fdb_result :: fdb_value

record shared =
  table :: "fdb_key \<rightharpoonup> fdb_value_item"
  locks :: "fdb_key \<rightharpoonup> nat"
  clock :: u64

type_synonym system = "cpu list \<times> shared"

section \<open>Steps of one CPU\<close>

text \<open>A helper call under a lock is forbidden, and so is taking a second lock.\<close>

definition holds_lock :: "nat \<Rightarrow> cpu \<Rightarrow> shared \<Rightarrow> bool" where
  "holds_lock i c sh \<longleftrightarrow> locks sh (src c) = Some i \<or> locks sh (dst c) = Some i"

definition helper :: "nat \<Rightarrow> cpu \<Rightarrow> shared \<Rightarrow> 'b \<Rightarrow> 'b option" where
  "helper i c sh r = (if holds_lock i c sh then None else Some r)"

definition unlock :: "nat \<Rightarrow> fdb_key \<Rightarrow> shared \<Rightarrow> shared option" where
  "unlock i k sh = (if locks sh k = Some i then Some (sh\<lparr>locks := (locks sh)(k := None)\<rparr>) else None)"

definition store :: "fdb_key \<Rightarrow> (fdb_value \<Rightarrow> fdb_value) \<Rightarrow> shared \<Rightarrow> shared option" where
  "store k f sh = (case table sh k of None \<Rightarrow> None
     | Some it \<Rightarrow> Some (sh\<lparr>table := (table sh)(k \<mapsto> it\<lparr>fvi_value := f (fvi_value it)\<rparr>)\<rparr>))"

definition load :: "fdb_key \<Rightarrow> shared \<Rightarrow> fdb_value option" where
  "load k sh = (case table sh k of None \<Rightarrow> None | Some it \<Rightarrow> Some (fvi_value it))"

text \<open>
  One step of \<open>fdb_learning\<close> (first group) and of \<open>fdb_lookup\<close> (second group). \<open>None\<close> is a fault: an
  access to an entry that is not there, a helper call under a lock, a lock released by a CPU that
  does not hold it.
\<close>

fun cpu_step :: "xdp_helpers \<Rightarrow> nat \<Rightarrow> cpu \<Rightarrow> shared \<Rightarrow> (cpu \<times> shared) option" where
  "cpu_step H i c sh = (case at c of
     Lookup_src \<Rightarrow> do {
       existing \<leftarrow> helper i c sh (table sh (src c));
       Some (c\<lparr>at := (if existing = None then Time_new else Time_old)\<rparr>, sh) }
   | Time_new \<Rightarrow> do { t \<leftarrow> helper i c sh (clock sh); Some (c\<lparr>now := t, at := Insert\<rparr>, sh) }
   | Insert \<Rightarrow> do {
       (rc, t) \<leftarrow> helper i c sh
         (h_fdb_update H (table sh) (src c) (new_item (in_ifindex c) (now c)) BPF_NOEXIST);
       Some (c\<lparr>at := Lookup_dst\<rparr>, sh\<lparr>table := t\<rparr>) }
   | Time_old \<Rightarrow> do { t \<leftarrow> helper i c sh (clock sh); Some (c\<lparr>now := t, at := Lock_src\<rparr>, sh) }
   | Lock_src \<Rightarrow> do {
       _ \<leftarrow> helper i c sh ();
       Some (c\<lparr>at := Check_port\<rparr>, sh\<lparr>locks := (locks sh)(src c \<mapsto> i)\<rparr>) }
   | Check_port \<Rightarrow> do {
       v \<leftarrow> load (src c) sh;
       Some (c\<lparr>at := (if fv_ifindex v \<noteq> in_ifindex c then Write_port else Check_time)\<rparr>, sh) }
   | Check_time \<Rightarrow> do {
       v \<leftarrow> load (src c) sh;
       Some (c\<lparr>at := (if SECOND < now c - fv_last_seen v then Write_port else Unlock_src)\<rparr>, sh) }
   | Write_port \<Rightarrow> do {
       sh \<leftarrow> store (src c) (\<lambda>v. v\<lparr>fv_ifindex := in_ifindex c\<rparr>) sh;
       Some (c\<lparr>at := Write_time\<rparr>, sh) }
   | Write_time \<Rightarrow> do {
       sh \<leftarrow> store (src c) (\<lambda>v. v\<lparr>fv_last_seen := now c\<rparr>) sh;
       Some (c\<lparr>at := Unlock_src\<rparr>, sh) }
   | Unlock_src \<Rightarrow> do { sh \<leftarrow> unlock i (src c) sh; Some (c\<lparr>at := Lookup_dst\<rparr>, sh) }
   | Lookup_dst \<Rightarrow> do {
       val \<leftarrow> helper i c sh (table sh (dst c));
       Some (c\<lparr>at := (if val = None then Finished else Peek_dst)\<rparr>, sh) }
   | Peek_dst \<Rightarrow> do {
       v \<leftarrow> load (dst c) sh;
       Some (c\<lparr>at := (if fv_ifindex v = 0 then Finished else Lock_dst)\<rparr>, sh) }
   | Lock_dst \<Rightarrow> do {
       _ \<leftarrow> helper i c sh ();
       Some (c\<lparr>at := Copy_port\<rparr>, sh\<lparr>locks := (locks sh)(dst c \<mapsto> i)\<rparr>) }
   | Copy_port \<Rightarrow> do {
       v \<leftarrow> load (dst c) sh;
       Some (c\<lparr>fdb_result := (fdb_result c)\<lparr>fv_ifindex := fv_ifindex v\<rparr>, at := Copy_time\<rparr>, sh) }
   | Copy_time \<Rightarrow> do {
       v \<leftarrow> load (dst c) sh;
       Some (c\<lparr>fdb_result := (fdb_result c)\<lparr>fv_last_seen := fv_last_seen v\<rparr>, at := Unlock_dst\<rparr>, sh) }
   | Unlock_dst \<Rightarrow> do { sh \<leftarrow> unlock i (dst c) sh; Some (c\<lparr>at := Finished\<rparr>, sh) }
   | Finished \<Rightarrow> None)"

declare cpu_step.simps [simp del]

text \<open>A CPU waits at a lock that is taken (\<open>bpf_spin_lock\<close> spins); otherwise it can move.\<close>

definition ready :: "shared \<Rightarrow> cpu \<Rightarrow> bool" where
  "ready sh c = (case at c of
     Lock_src \<Rightarrow> locks sh (src c) = None
   | Lock_dst \<Rightarrow> locks sh (dst c) = None
   | Finished \<Rightarrow> False
   | _ \<Rightarrow> True)"

section \<open>The system\<close>

inductive step :: "xdp_helpers \<Rightarrow> system \<Rightarrow> system \<Rightarrow> bool" for H where
  step: "i < length cs \<Longrightarrow> ready sh (cs ! i) \<Longrightarrow> cpu_step H i (cs ! i) sh = Some (c', sh') \<Longrightarrow>
    step H (cs, sh) (cs[i := c'], sh')"

text \<open>Besides, a CPU that is done gets a new frame, and time passes.\<close>

inductive happens :: "xdp_helpers \<Rightarrow> system \<Rightarrow> system \<Rightarrow> bool" for H where
  moves: "step H s s' \<Longrightarrow> happens H s s'"
| arrives: "i < length cs \<Longrightarrow> at (cs ! i) = Finished \<Longrightarrow>
    happens H (cs, sh) (cs[i := (cs ! i)\<lparr>src := a, dst := b, in_ifindex := p, at := Lookup_src\<rparr>], sh)"
| ticks: "happens H (cs, sh) (cs, sh\<lparr>clock := clock sh + d\<rparr>)"

definition idle_system :: "system \<Rightarrow> bool" where
  "idle_system s \<longleftrightarrow> list_all (\<lambda>c. at c = Finished) (fst s) \<and> locks (snd s) = Map.empty"

inductive reachable :: "xdp_helpers \<Rightarrow> system \<Rightarrow> bool" for H where
  start: "idle_system s \<Longrightarrow> reachable H s"
| further: "reachable H s \<Longrightarrow> happens H s s' \<Longrightarrow> reachable H s'"

inductive_cases step_cases: "step H s s'"

section \<open>Locks and entries\<close>

lemma not_SomeD: "(\<And>j. x \<noteq> Some j) \<Longrightarrow> x = None"
  by (metis not_None_eq)

text \<open>The entry a CPU is working on under its lock, and the entries it has a pointer to.\<close>

definition critical :: "cpu \<Rightarrow> fdb_key option" where
  "critical c = (case at c of
     Check_port \<Rightarrow> Some (src c) | Check_time \<Rightarrow> Some (src c) | Write_port \<Rightarrow> Some (src c)
   | Write_time \<Rightarrow> Some (src c) | Unlock_src \<Rightarrow> Some (src c)
   | Copy_port \<Rightarrow> Some (dst c) | Copy_time \<Rightarrow> Some (dst c) | Unlock_dst \<Rightarrow> Some (dst c)
   | _ \<Rightarrow> None)"

definition pointee :: "cpu \<Rightarrow> fdb_key option" where
  "pointee c = (case at c of
     Time_old \<Rightarrow> Some (src c) | Lock_src \<Rightarrow> Some (src c)
   | Peek_dst \<Rightarrow> Some (dst c) | Lock_dst \<Rightarrow> Some (dst c) | _ \<Rightarrow> critical c)"

text \<open>What a step does to the locks, as a function of where it starts and ends.\<close>

definition relock :: "nat \<Rightarrow> fdb_key option \<Rightarrow> fdb_key option \<Rightarrow> (fdb_key \<rightharpoonup> nat) \<Rightarrow> fdb_key \<rightharpoonup> nat" where
  "relock i before after l = (case (before, after) of
     (None, Some k) \<Rightarrow> l(k \<mapsto> i) | (Some k, None) \<Rightarrow> l(k := None) | _ \<Rightarrow> l)"

lemma dom_fdb_update:
  "fdb_update_law H \<Longrightarrow> h_fdb_update H t k v BPF_NOEXIST = (rc, t') \<Longrightarrow> t k' \<noteq> None \<Longrightarrow> t' k' \<noteq> None"
  by (cases rule: fdb_update_cases [of H t k v]) (auto split: if_splits)

lemmas step_unfold = cpu_step.simps helper_def unlock_def store_def load_def

lemma cpu_step_frame:
  "cpu_step H i c sh = Some (c', sh') \<Longrightarrow> src c' = src c \<and> dst c' = dst c \<and> clock sh' = clock sh \<and>
     in_ifindex c' = in_ifindex c"
  by (cases "at c") (auto simp: step_unfold split: if_splits option.splits prod.splits)

lemma cpu_step_locks:
  "cpu_step H i c sh = Some (c', sh') \<Longrightarrow>
     locks sh' = relock i (critical c) (critical c') (locks sh) \<and>
     (critical c \<noteq> None \<longrightarrow> critical c' \<noteq> None \<longrightarrow> critical c' = critical c) \<and>
     (critical c = None \<longrightarrow> critical c' \<noteq> None \<longrightarrow> at c \<in> {Lock_src, Lock_dst} \<and> critical c' = pointee c)"
  by (cases "at c")
     (auto simp: step_unfold critical_def pointee_def relock_def split: if_splits option.splits prod.splits)

lemma cpu_step_dom:
  assumes "cpu_step H i c sh = Some (c', sh')" and "fdb_update_law H" and "table sh k \<noteq> None"
  shows "table sh' k \<noteq> None"
  using assms dom_fdb_update [OF assms(2)]
  by (cases "at c") (auto simp: step_unfold split: if_splits option.splits prod.splits)

lemma cpu_step_pointee:
  "cpu_step H i c sh = Some (c', sh') \<Longrightarrow>
     pointee c' = None \<or> pointee c' = pointee c \<or> table sh' (the (pointee c')) \<noteq> None"
  by (cases "at c")
     (auto simp: step_unfold critical_def pointee_def split: if_splits option.splits prod.splits)

section \<open>Mutual exclusion, progress and termination\<close>

text \<open>
  The invariant: a lock is held by the CPU that is in the critical section of its entry, and every
  pointer a CPU holds points to an entry.
\<close>

definition consistent :: "system \<Rightarrow> bool" where
  "consistent s \<longleftrightarrow>
     (\<forall>k i. locks (snd s) k = Some i \<longleftrightarrow> i < length (fst s) \<and> critical (fst s ! i) = Some k) \<and>
     (\<forall>c\<in>set (fst s). \<forall>k. pointee c = Some k \<longrightarrow> table (snd s) k \<noteq> None)"

lemma consistent_lock: "consistent (cs, sh) \<Longrightarrow>
    locks sh k = Some i \<longleftrightarrow> i < length cs \<and> critical (cs ! i) = Some k"
  by (simp add: consistent_def)

lemma consistent_unique:
  assumes "consistent (cs, sh)" and "i < length cs" and "critical (cs ! i) = Some k"
    and "j < length cs" and "critical (cs ! j) = Some k"
  shows "j = i"
proof -
  have "locks sh k = Some i" "locks sh k = Some j"
    using assms by (simp_all add: consistent_lock)
  then show ?thesis by simp
qed

lemma consistent_pointee: "consistent (cs, sh) \<Longrightarrow> i < length cs \<Longrightarrow> pointee (cs ! i) = Some k \<Longrightarrow>
    table sh k \<noteq> None"
  using nth_mem [of i cs] by (auto simp: consistent_def)

lemma critical_pointee: "critical c = Some k \<Longrightarrow> pointee c = Some k"
  by (cases "at c") (auto simp: critical_def pointee_def)

lemma ready_free: "ready sh c \<Longrightarrow> at c \<in> {Lock_src, Lock_dst} \<Longrightarrow> pointee c = Some k \<Longrightarrow> locks sh k = None"
  by (auto simp: ready_def pointee_def critical_def)

lemma step_consistent:
  assumes "step H s s'" and "consistent s" and "fdb_update_law H"
  shows "consistent s'"
  using assms(1)
proof cases
  case (step i cs sh c' sh')
  let ?c = "cs ! i"
  note inv = consistent_lock [OF assms(2) [unfolded step(1)]]
  note lk = cpu_step_locks [OF step(5)]
  have "locks sh' k = Some j \<longleftrightarrow> j < length cs \<and> critical (cs[i := c'] ! j) = Some k" for k j
  proof (cases "critical ?c")
    case None
    show ?thesis
    proof (cases "critical c'")
      case (Some k')
      then have "locks sh k' = None" using lk None step(4) ready_free [of sh ?c k'] by auto
      then have "\<not> (j < length cs \<and> critical (cs ! j) = Some k')" for j
        using inv [of k' j] by simp
      moreover have "critical c' = Some k'" by (rule Some)
      moreover have "locks sh' = (locks sh)(k' \<mapsto> i)" using lk None Some by (simp add: relock_def)
      ultimately show ?thesis
        using None inv step(3) by (auto simp: nth_list_update)
    qed (use lk None inv step(3) in \<open>auto simp: relock_def nth_list_update\<close>)
  next
    case (Some k')
    have uniq: "j = i" if "j < length cs" "critical (cs ! j) = Some k'" for j
      using consistent_unique [OF assms(2) [unfolded step(1)] step(3) Some that] .
    show ?thesis
    proof (cases "j = i")
      case True
      then show ?thesis
        using lk inv [of k i] step(3) Some by (cases "critical c'") (auto simp: relock_def)
    next
      case False
      then have "\<not> (j < length cs \<and> critical (cs ! j) = Some k')" using uniq by blast
      with False show ?thesis
        using lk inv [of k j] step(3) Some by (cases "critical c'") (auto simp: relock_def)
    qed
  qed
  moreover have "table sh' k \<noteq> None" if "c \<in> set (cs[i := c'])" "pointee c = Some k" for c k
  proof (cases "c = c'")
    case True
    then show ?thesis
      using that cpu_step_pointee [OF step(5)] consistent_pointee [OF assms(2) [unfolded step(1)] step(3)]
        cpu_step_dom [OF step(5) assms(3)] by auto
  next
    case False
    then have "c \<in> set cs" using that(1) set_update_subset_insert [of cs i c'] by auto
    then have "table sh k \<noteq> None" using assms(2) that(2) unfolding step(1) by (auto simp: consistent_def)
    then show ?thesis by (rule cpu_step_dom [OF step(5) assms(3)])
  qed
  ultimately show ?thesis using step(2) by (simp add: consistent_def)
qed

lemma happens_consistent:
  assumes "happens H s s'" and "consistent s" and "fdb_update_law H"
  shows "consistent s'"
  using assms(1)
proof cases
  case moves
  then show ?thesis using assms(2,3) by (rule step_consistent)
next
  case (arrives i cs sh p b a)
  let ?c' = "(cs ! i)\<lparr>src := a, dst := b, in_ifindex := p, at := Lookup_src\<rparr>"
  have "critical (cs ! i) = None" and n: "critical ?c' = None" "pointee ?c' = None"
    using arrives(4) by (simp_all add: critical_def pointee_def)
  then have "(j < length cs \<and> critical (cs[i := ?c'] ! j) = Some k) = (j < length cs \<and> critical (cs ! j) = Some k)" for j k
    using arrives(3) by (auto simp: nth_list_update)
  moreover have "c \<in> set (cs[i := ?c']) \<Longrightarrow> c = ?c' \<or> c \<in> set cs" for c
    using set_update_subset_insert [of cs i ?c'] by auto
  moreover have "table sh k \<noteq> None" if "c \<in> set (cs[i := ?c'])" "pointee c = Some k" for c k
    using calculation(2) [OF that(1)] that(2) n assms(2) unfolding arrives(1) by (auto simp: consistent_def)
  ultimately show ?thesis
    using assms(2) unfolding arrives(1,2) by (simp add: consistent_def)
next
  case (ticks cs sh d)
  then show ?thesis using assms(2) by (simp add: consistent_def)
qed

lemma idle_consistent: "idle_system s \<Longrightarrow> consistent s"
  by (auto simp: idle_system_def consistent_def list_all_iff critical_def pointee_def dest: nth_mem)

lemma reachable_consistent: "reachable H s \<Longrightarrow> fdb_update_law H \<Longrightarrow> consistent s"
  by (induction rule: reachable.induct) (auto intro: idle_consistent happens_consistent)

text \<open>C12: the spin lock of an entry excludes: in every interleaving of any number of CPUs, no two CPUs
  are between lock and unlock of the same forwarding entry, and a CPU holds the lock of at most one
  entry, which is the one it works on.\<close>

theorem fdb_mutual_exclusion:
  assumes "fdb_update_law H" and "reachable H (cs, sh)"
    and "i < length cs" and "critical (cs ! i) = Some k"
  shows "(\<forall>j<length cs. critical (cs ! j) = Some k \<longrightarrow> j = i) \<and>
    (\<forall>k'. locks sh k' = Some i \<longleftrightarrow> k' = k)"
proof -
  have c: "consistent (cs, sh)" by (rule reachable_consistent [OF assms(2,1)])
  have "j = i" if "j < length cs" and "critical (cs ! j) = Some k" for j
    by (rule consistent_unique [OF c assms(3,4) that])
  moreover have "locks sh k' = Some i \<longleftrightarrow> k' = k" for k'
    using consistent_lock [OF c, of k' i] assms(3,4) by auto
  ultimately show ?thesis by blast
qed

section \<open>Progress and termination\<close>

text \<open>No CPU that may move faults.\<close>

lemma holds_lock_critical:
  "consistent (cs, sh) \<Longrightarrow> i < length cs \<Longrightarrow> critical (cs ! i) = None \<Longrightarrow> \<not> holds_lock i (cs ! i) sh"
  by (simp add: holds_lock_def consistent_lock)

lemma ready_steps:
  assumes "consistent (cs, sh)" and "i < length cs" and "ready sh (cs ! i)"
  shows "cpu_step H i (cs ! i) sh \<noteq> None"
proof -
  note p = consistent_pointee [OF assms(1,2)] and l = consistent_lock [OF assms(1)]
  show ?thesis
    using assms(3) p l holds_lock_critical [OF assms(1,2)] assms(2)
    by (cases "at (cs ! i)")
       (auto simp: step_unfold critical_def pointee_def ready_def split: option.splits prod.splits)
qed

text \<open>How far a CPU is from the end of its frame.\<close>

fun rank :: "stage \<Rightarrow> nat" where
  "rank Lookup_src = 15" | "rank Time_new = 14" | "rank Insert = 13"
| "rank Time_old = 14" | "rank Lock_src = 13" | "rank Check_port = 12" | "rank Check_time = 11"
| "rank Write_port = 10" | "rank Write_time = 9" | "rank Unlock_src = 8"
| "rank Lookup_dst = 7" | "rank Peek_dst = 6" | "rank Lock_dst = 5" | "rank Copy_port = 4"
| "rank Copy_time = 3" | "rank Unlock_dst = 2" | "rank Finished = 0"

definition work_left :: "system \<Rightarrow> nat" where
  "work_left s = sum_list (map (\<lambda>c. rank (at c)) (fst s))"

lemma cpu_step_rank: "cpu_step H i c sh = Some (c', sh') \<Longrightarrow> rank (at c') < rank (at c)"
  by (cases "at c") (auto simp: step_unfold split: if_splits option.splits prod.splits)

lemma step_work: "step H s s' \<Longrightarrow> work_left s' < work_left s"
proof (induction rule: step.induct)
  case (step i cs sh c' sh')
  have "rank (at c') < rank (at (cs ! i))" by (rule cpu_step_rank [OF step(3)])
  moreover have "sum_list (map (\<lambda>c. rank (at c)) cs) \<ge> rank (at (cs ! i))"
    using step(1) by (intro member_le_sum_list) auto
  ultimately show ?case
    using step(1) by (simp add: work_left_def map_update sum_list_update)
qed

inductive steps :: "xdp_helpers \<Rightarrow> system \<Rightarrow> nat \<Rightarrow> system \<Rightarrow> bool" for H where
  none: "steps H s 0 s"
| more: "step H s s' \<Longrightarrow> steps H s' n s'' \<Longrightarrow> steps H s (Suc n) s''"

lemma steps_work: "steps H s n s' \<Longrightarrow> n + work_left s' \<le> work_left s"
  by (induction rule: steps.induct) (auto dest: step_work)

lemma steps_consistent: "steps H s n s' \<Longrightarrow> consistent s \<Longrightarrow> fdb_update_law H \<Longrightarrow> consistent s'"
  by (induction rule: steps.induct) (auto intro: step_consistent)

lemma work_bound: "work_left (cs, sh) \<le> 15 * length cs"
proof -
  have "rank x \<le> 15" for x by (cases x) simp_all
  then show ?thesis
    by (induction cs) (auto simp: work_left_def intro: add_mono order_trans)
qed

text \<open>Someone can always move: a lock that blocks a CPU is held by one that does not wait.\<close>

lemma someone_moves:
  assumes "consistent (cs, sh)" and "\<exists>c\<in>set cs. at c \<noteq> Finished"
  shows "\<exists>s'. step H (cs, sh) s'"
proof -
  obtain i where i: "i < length cs" "at (cs ! i) \<noteq> Finished"
    using assms(2) by (auto simp: in_set_conv_nth)
  obtain j where j: "j < length cs" "ready sh (cs ! j)"
  proof (cases "ready sh (cs ! i)")
    case False
    then obtain k where "locks sh k \<noteq> None"
      using i(2) by (cases "at (cs ! i)") (auto simp: ready_def)
    then obtain j where "j < length cs" "critical (cs ! j) = Some k"
      using consistent_lock [OF assms(1)] by auto
    moreover then have "ready sh (cs ! j)"
      by (cases "at (cs ! j)") (auto simp: ready_def critical_def)
    ultimately show ?thesis using that by blast
  qed (use i that in blast)
  obtain c' sh' where "cpu_step H j (cs ! j) sh = Some (c', sh')"
    using ready_steps [OF assms(1) j] by fastforce
  then show ?thesis using step.step [OF j] by blast
qed

text \<open>C13: no deadlock: in every interleaving, as long as some CPU has not finished its frame, some CPU can
  take its next step, and no step faults (no helper call or second lock under a lock, no access to
  an entry that is not there, no release of a lock not held).\<close>

theorem fdb_no_deadlock:
  assumes "fdb_update_law H" and "reachable H (cs, sh)"
  shows "((\<exists>c\<in>set cs. at c \<noteq> Finished) \<longrightarrow> (\<exists>s'. step H (cs, sh) s')) \<and>
    (\<forall>i<length cs. ready sh (cs ! i) \<longrightarrow> cpu_step H i (cs ! i) sh \<noteq> None)"
  using someone_moves ready_steps reachable_consistent [OF assms(2,1)] by blast

text \<open>C29: every frame is finished: from any reachable state, however the CPUs are scheduled, at most 15
  steps for each CPU are possible, and a schedule that cannot be continued has finished every frame
  and released every lock.\<close>

theorem fdb_runs_terminate:
  assumes "fdb_update_law H" and "reachable H s" and "steps H s n s'"
  shows "n \<le> 15 * length (fst s) \<and> ((\<nexists>s''. step H s' s'') \<longrightarrow> idle_system s')"
proof -
  obtain cs' sh' where s': "s' = (cs', sh')" by fastforce
  have c: "consistent (cs', sh')"
    using steps_consistent [OF assms(3)] reachable_consistent assms(1,2) s' by blast
  have "n \<le> work_left s" using steps_work [OF assms(3)] by simp
  also have "\<dots> \<le> 15 * length (fst s)" using work_bound [of "fst s" "snd s"] by simp
  finally have "n \<le> 15 * length (fst s)" .
  moreover have "idle_system s'" if "\<nexists>s''. step H s' s''"
  proof -
    have fin: "at x = Finished" if "x \<in> set cs'" for x
      using someone_moves [OF c] \<open>\<nexists>s''. step H s' s''\<close> that s' by blast
    then have "critical (cs' ! i) = None" if "i < length cs'" for i
      using nth_mem [OF that] by (simp add: critical_def)
    then have "locks sh' k \<noteq> Some j" for k j
      using consistent_lock [OF c, of k j] by auto
    then have "locks sh' k = None" for k by (rule not_SomeD)
    with fin show ?thesis by (auto simp: s' idle_system_def list_all_iff)
  qed
  ultimately show ?thesis by blast
qed

section \<open>Every update is atomic\<close>

text \<open>
  The value of an entry as the CPUs agree on it: while a CPU is between its two stores, the value it
  is about to complete.
\<close>

definition settled :: "system \<Rightarrow> fdb_key \<rightharpoonup> fdb_value" where
  "settled s k = (case table (snd s) k of None \<Rightarrow> None | Some it \<Rightarrow>
     (case locks (snd s) k of
        Some i \<Rightarrow>
          if at (fst s ! i) = Write_time
          then Some \<lparr>fv_ifindex = in_ifindex (fst s ! i), fv_last_seen = now (fst s ! i)\<rparr>
          else Some (fvi_value it)
      | None \<Rightarrow> Some (fvi_value it)))"

lemma other_step:
  assumes "cpu_step H i c sh = Some (c', sh')" and "fdb_update_law H"
    and "critical c \<noteq> Some k" and "table sh k \<noteq> None \<or> at c \<noteq> Insert \<or> src c \<noteq> k"
  shows "table sh' k = table sh k"
proof (cases "at c = Insert")
  case True
  then show ?thesis
    using assms
    by (cases rule: fdb_update_cases [OF assms(2), of "table sh" "src c" "new_item (in_ifindex c) (now c)"])
       (auto simp: step_unfold split: if_splits prod.splits)
next
  case False
  then show ?thesis
    using assms(1,3) by (cases "at c") (auto simp: step_unfold critical_def split: if_splits option.splits)
qed

lemma Write_time_critical: "at c = Write_time \<Longrightarrow> critical c = Some (src c)"
  by (simp add: critical_def)

text \<open>A step changes the settled value of no entry but the one its CPU writes.\<close>

lemma settled_other:
  assumes "consistent (cs, sh)" and "fdb_update_law H" and "i < length cs" and "ready sh (cs ! i)"
    and "cpu_step H i (cs ! i) sh = Some (c', sh')" and "table sh' k = table sh k"
    and "critical (cs ! i) \<noteq> Some k"
  shows "settled (cs[i := c'], sh') k = settled (cs, sh) k"
proof (cases "locks sh k")
  case None
  have "at c' \<noteq> Write_time" if "locks sh' k = Some i"
    using that None cpu_step_locks [OF assms(5)] assms(5)
    by (cases "at (cs ! i)") (auto simp: step_unfold relock_def critical_def split: option.splits if_splits prod.splits)
  moreover have "locks sh' k = None \<or> locks sh' k = Some i"
    using None cpu_step_locks [OF assms(5)] by (auto simp: relock_def split: option.splits)
  ultimately show ?thesis
    using None assms(3,6) by (auto simp: settled_def split: option.splits)
next
  case (Some j)
  have "j \<noteq> i" using Some consistent_lock [OF assms(1), of k j] assms(7) by auto
  have "locks sh' k = Some j"
    using Some cpu_step_locks [OF assms(5)] assms(4,7) ready_free [of sh "cs ! i" k]
    by (auto simp: relock_def split: option.splits)
  then show ?thesis
    using Some assms(6) \<open>j \<noteq> i\<close> by (simp add: settled_def split: option.splits)
qed

text \<open>What a CPU knows of the entry it has locked: what it has stored, or copied, is still there.\<close>

definition knows :: "cpu \<Rightarrow> (fdb_key \<rightharpoonup> fdb_value_item) \<Rightarrow> bool" where
  "knows c t = (case at c of
     Write_time \<Rightarrow> (\<exists>it. t (src c) = Some it \<and> fv_ifindex (fvi_value it) = in_ifindex c)
   | Copy_time \<Rightarrow> (\<exists>it. t (dst c) = Some it \<and> fv_ifindex (fdb_result c) = fv_ifindex (fvi_value it))
   | Unlock_dst \<Rightarrow> (\<exists>it. t (dst c) = Some it \<and> fdb_result c = fvi_value it)
   | _ \<Rightarrow> True)"

lemma knows_critical: "critical c = None \<Longrightarrow> knows c t"
  by (auto simp: knows_def critical_def split: stage.splits)

lemma knows_same: "critical c = Some k \<Longrightarrow> t' k = t k \<Longrightarrow> knows c t' = knows c t"
  by (auto simp: knows_def critical_def split: stage.splits)

lemma cpu_step_knows:
  "cpu_step H i c sh = Some (c', sh') \<Longrightarrow> knows c (table sh) \<Longrightarrow> knows c' (table sh')"
  by (cases "at c") (auto simp: step_unfold knows_def split: if_splits option.splits prod.splits)

definition informed :: "system \<Rightarrow> bool" where
  "informed s \<longleftrightarrow> (\<forall>i<length (fst s). knows (fst s ! i) (table (snd s)))"

lemma step_informed:
  assumes "step H s s'" and "consistent s" and "informed s" and "fdb_update_law H"
  shows "informed s'"
  using assms(1)
proof cases
  case (step i cs sh c' sh')
  have "knows (cs[i := c'] ! j) (table sh')" if "j < length cs" for j
  proof (cases "j = i")
    case True
    then show ?thesis
      using cpu_step_knows [OF step(5)] assms(3) step(1,3) by (simp add: informed_def)
  next
    case False
    have kj: "knows (cs ! j) (table sh)" using assms(3) that step(1) by (simp add: informed_def)
    show ?thesis
    proof (cases "critical (cs ! j)")
      case None
      then show ?thesis using False by (simp add: knows_critical)
    next
      case (Some k)
      have con: "consistent (cs, sh)" using assms(2) step(1) by simp
      have "critical (cs ! i) \<noteq> Some k"
        using consistent_unique [OF con that Some step(3)] False by metis
      moreover have "table sh k \<noteq> None"
        using consistent_pointee [OF con that] critical_pointee [OF Some] by blast
      ultimately have "table sh' k = table sh k"
        using other_step [OF step(5) assms(4)] by blast
      then have "knows (cs ! j) (table sh')"
        using kj knows_same [OF Some, of "table sh'" "table sh"] by blast
      then show ?thesis using False by simp
    qed
  qed
  then show ?thesis using step(2) by (simp add: informed_def)
qed

lemma happens_informed:
  assumes "happens H s s'" and "consistent s" and "informed s" and "fdb_update_law H"
  shows "informed s'"
  using assms(1)
proof cases
  case moves
  then show ?thesis using assms(2-4) by (rule step_informed)
next
  case (arrives i cs sh p b a)
  then show ?thesis
    using assms(3) by (auto simp: informed_def nth_list_update knows_def)
next
  case (ticks cs sh d)
  then show ?thesis using assms(3) by (simp add: informed_def)
qed

lemma reachable_informed:
  assumes "fdb_update_law H"
  shows "reachable H s \<Longrightarrow> consistent s \<and> informed s"
proof (induction rule: reachable.induct)
  case (start s)
  then have "knows c t" if "c \<in> set (fst s)" for c t
    using that by (auto simp: idle_system_def list_all_iff knows_def)
  then show ?case using start idle_consistent by (auto simp: informed_def)
next
  case (further s s')
  then show ?case using happens_consistent happens_informed assms by blast
qed

text \<open>The update a CPU performs, as one transition of a table without locks.\<close>

definition learns :: "cpu \<Rightarrow> (fdb_key \<rightharpoonup> fdb_value) \<Rightarrow> fdb_key \<rightharpoonup> fdb_value" where
  "learns c t = t(src c \<mapsto> \<lparr>fv_ifindex = in_ifindex c, fv_last_seen = now c\<rparr>)"

lemma settled_Insert:
  assumes "consistent (cs, sh)" and "fdb_update_law H" and "i < length cs" and "ready sh (cs ! i)"
    and "cpu_step H i (cs ! i) sh = Some (c', sh')" and "at (cs ! i) = Insert"
  shows "settled (cs[i := c'], sh') = settled (cs, sh) \<or>
    settled (cs[i := c'], sh') = learns (cs ! i) (settled (cs, sh))"
proof -
  let ?c = "cs ! i"
  have crit: "critical ?c = None" using assms(6) by (simp add: critical_def)
  obtain rc t where up: "h_fdb_update H (table sh) (src ?c) (new_item (in_ifindex ?c) (now ?c)) BPF_NOEXIST = (rc, t)"
    by fastforce
  have sh': "sh' = sh\<lparr>table := t\<rparr>" using assms(5,6) up by (auto simp: step_unfold split: if_splits)
  have other: "settled (cs[i := c'], sh') k = settled (cs, sh) k" if "t k = table sh k" for k
    using settled_other [OF assms(1-5), of k] that sh' crit by simp
  show ?thesis
  proof (cases "rc = 0")
    case True
    then have new: "table sh (src ?c) = None" "t = (table sh)(src ?c \<mapsto> new_item (in_ifindex ?c) (now ?c))"
      using assms(2) up by (auto simp: fdb_update_law_def)
    have "locks sh (src ?c) \<noteq> Some j" for j
      using consistent_lock [OF assms(1)] consistent_pointee [OF assms(1)] critical_pointee new(1) by blast
    then have "locks sh (src ?c) = None" by (rule not_SomeD)
    then have "settled (cs[i := c'], sh') (src ?c) = Some \<lparr>fv_ifindex = in_ifindex ?c, fv_last_seen = now ?c\<rparr>"
      by (simp add: settled_def sh' new(2) new_item_def)
    then have "settled (cs[i := c'], sh') = learns ?c (settled (cs, sh))"
      using other new(2) by (intro ext) (simp add: learns_def)
    then show ?thesis ..
  next
    case False
    then have "t = table sh" using assms(2) up by (auto simp: fdb_update_law_def)
    then show ?thesis using other by blast
  qed
qed

lemma settled_Write_port:
  assumes "consistent (cs, sh)" and "fdb_update_law H" and "i < length cs" and "ready sh (cs ! i)"
    and "cpu_step H i (cs ! i) sh = Some (c', sh')" and "at (cs ! i) = Write_port"
  shows "settled (cs[i := c'], sh') = learns (cs ! i) (settled (cs, sh))"
proof
  fix k
  let ?c = "cs ! i"
  have crit: "critical ?c = Some (src ?c)" using assms(6) by (simp add: critical_def)
  show "settled (cs[i := c'], sh') k = learns ?c (settled (cs, sh)) k"
  proof (cases "k = src ?c")
    case True
    have "locks sh k = Some i" using consistent_lock [OF assms(1)] crit assms(3) True by blast
    moreover obtain it where "sh' = sh\<lparr>table := (table sh)(k \<mapsto> it)\<rparr>" "c' = ?c\<lparr>at := Write_time\<rparr>"
      using assms(5,6) True by (auto simp: step_unfold split: option.splits)
    ultimately show ?thesis using True assms(3) by (simp add: settled_def learns_def)
  next
    case False
    then have "table sh' k = table sh k"
      using other_step [OF assms(5,2)] crit assms(6) by auto
    then show ?thesis
      using settled_other [OF assms(1-5)] crit False by (simp add: learns_def)
  qed
qed

lemma settled_silent:
  assumes "consistent (cs, sh)" and "fdb_update_law H" and "i < length cs" and "ready sh (cs ! i)"
    and "cpu_step H i (cs ! i) sh = Some (c', sh')" and "at (cs ! i) \<notin> {Insert, Write_port}"
    and "knows (cs ! i) (table sh)"
  shows "settled (cs[i := c'], sh') = settled (cs, sh)"
proof
  fix k
  let ?c = "cs ! i"
  show "settled (cs[i := c'], sh') k = settled (cs, sh) k"
  proof (cases "critical ?c = Some k")
    case False
    then have "table sh' k = table sh k" using other_step [OF assms(5,2)] assms(6) by auto
    then show ?thesis by (rule settled_other [OF assms(1-5) _ False])
  next
    case True
    have "locks sh k = Some i" using consistent_lock [OF assms(1)] True assms(3) by blast
    moreover obtain it where "table sh k = Some it"
      using consistent_pointee [OF assms(1,3) critical_pointee [OF True]] by blast
    ultimately show ?thesis
      using True assms(3,5-7)
      by (cases "at ?c")
         (auto simp: settled_def step_unfold critical_def knows_def split: if_splits option.splits)
  qed
qed

text \<open>C14: every update of the forwarding table is atomic: although a CPU stores the port and the time of an
  entry one after the other, each step of any interleaving either changes nothing in the table as the
  CPUs agree on it, or replaces the entry of the source address of the CPU's frame by the port and
  time of that frame, both at once.\<close>

theorem concurrent_learning_is_atomic:
  assumes "fdb_update_law H" and "reachable H (cs, sh)" and "step H (cs, sh) s'"
  shows "settled s' = settled (cs, sh) \<or> (\<exists>c\<in>set cs. settled s' = learns c (settled (cs, sh)))"
  using assms(3)
proof cases
  case (step i c' sh')
  have con: "consistent (cs, sh)" and inf: "knows (cs ! i) (table sh)"
    using reachable_informed [OF assms(1,2)] step(2) by (simp_all add: informed_def)
  consider "at (cs ! i) = Insert" | "at (cs ! i) = Write_port" | "at (cs ! i) \<notin> {Insert, Write_port}"
    by auto
  then show ?thesis
  proof cases
    case 1
    then show ?thesis
      using settled_Insert [OF con assms(1) step(2-4)] step(1,2) by auto
  next
    case 2
    then show ?thesis
      using settled_Write_port [OF con assms(1) step(2-4)] step(1,2) by auto
  next
    case 3
    then show ?thesis
      using settled_silent [OF con assms(1) step(2-4) _ inf] step(1) by simp
  qed
qed

text \<open>C15: no lookup sees half an update: in every interleaving, when a CPU has copied an entry into its
  cache, what it holds is the entry's port and time as one update stored them together, although
  the copy takes two loads.\<close>

theorem concurrent_lookup_is_not_torn:
  assumes "fdb_update_law H" and "reachable H (cs, sh)" and "i < length cs"
    and "at (cs ! i) = Unlock_dst"
  shows "settled (cs, sh) (dst (cs ! i)) = Some (fdb_result (cs ! i))"
proof -
  have con: "consistent (cs, sh)" and inf: "knows (cs ! i) (table sh)"
    using reachable_informed [OF assms(1,2)] assms(3) by (simp_all add: informed_def)
  have "locks sh (dst (cs ! i)) = Some i"
    using consistent_lock [OF con] assms(3,4) by (simp add: critical_def)
  then show ?thesis using inf assms(4) by (auto simp: settled_def knows_def)
qed

section \<open>One CPU alone\<close>

text \<open>A CPU runs until it has finished its frame; the fuel bounds its steps, and \<open>None\<close> is a fault,
  a wait that nothing ends, or too little fuel.\<close>

fun run_alone :: "xdp_helpers \<Rightarrow> nat \<Rightarrow> nat \<Rightarrow> cpu \<Rightarrow> shared \<Rightarrow> (cpu \<times> shared) option" where
  "run_alone H fuel i c sh =
     (if at c = Finished then Some (c, sh)
      else case fuel of 0 \<Rightarrow> None | Suc n \<Rightarrow>
        if ready sh c then do { (c, sh) \<leftarrow> cpu_step H i c sh; run_alone H n i c sh } else None)"

declare run_alone.simps [simp del]

lemma run_alone_finished: "at c = Finished \<Longrightarrow> run_alone H n i c sh = Some (c, sh)"
  by (simp add: run_alone.simps)

lemma run_alone_step:
  "ready sh c \<Longrightarrow> cpu_step H i c sh = Some (c', sh') \<Longrightarrow>
     run_alone H (Suc n) i c sh = run_alone H n i c' sh'"
  by (subst run_alone.simps) (auto simp: ready_def cpu_step.simps)

lemma alone_lookup:
  assumes "locks sh = Map.empty" and "at c = Lookup_dst"
  shows "run_alone H (n + 6) i c sh = Some (c\<lparr>at := Finished,
      fdb_result := (if found (dst c) (table sh) = None then fdb_result c
        else fvi_value (the (table sh (dst c))))\<rparr>, sh)"
proof -
  have n: "n + 6 = Suc (Suc (Suc (Suc (Suc (Suc n)))))" by simp
  have l: "sh\<lparr>locks := Map.empty\<rparr> = sh" using assms(1) by simp
  show ?thesis
  proof (cases "found (dst c) (table sh) = None")
    case True
    show ?thesis
      using assms True unfolding n
      by (auto simp: found_def run_alone_step run_alone_finished ready_def step_unfold holds_lock_def
        split: option.splits if_splits)
  next
    case False
    then obtain it where it: "table sh (dst c) = Some it" "fv_ifindex (fvi_value it) \<noteq> 0"
      by (auto simp: found_def split: option.splits if_splits)
    show ?thesis
      using assms it l unfolding n
      by (simp add: found_def run_alone_step run_alone_finished ready_def step_unfold holds_lock_def)
  qed
qed

text \<open>More fuel than is needed does not change the result.\<close>

lemma run_alone_more: "run_alone H n i c sh = Some r \<Longrightarrow> run_alone H (Suc n) i c sh = Some r"
proof (induction n arbitrary: c sh)
  case 0
  then show ?case by (subst run_alone.simps, subst (asm) run_alone.simps) (auto split: if_splits)
next
  case (Suc n)
  show ?case
  proof (cases "at c = Finished")
    case True
    with Suc.prems show ?thesis by (simp add: run_alone_finished)
  next
    case False
    with Suc.prems obtain c' sh' where s: "ready sh c" "cpu_step H i c sh = Some (c', sh')"
      and r: "run_alone H n i c' sh' = Some r"
      by (subst (asm) run_alone.simps) (auto split: if_splits Option.bind_splits)
    show ?thesis using Suc.IH [OF r] s by (simp add: run_alone_step)
  qed
qed

lemma run_alone_enough: "run_alone H n i c sh = Some r \<Longrightarrow> n \<le> m \<Longrightarrow> run_alone H m i c sh = Some r"
  by (induction m) (auto simp: le_Suc_eq run_alone_more)

lemma alone_learning_new:
  assumes "locks sh = Map.empty" and "at c = Lookup_src" and "table sh (src c) = None"
  shows "run_alone H (n + 3) i c sh = run_alone H n i (c\<lparr>now := clock sh, at := Lookup_dst\<rparr>)
    (sh\<lparr>table := learned H (src c) (in_ifindex c, clock sh) (table sh)\<rparr>)"
proof -
  have n: "n + 3 = Suc (Suc (Suc n))" by simp
  show ?thesis
    using assms unfolding n
    by (cases "h_fdb_update H (table sh) (src c) (new_item (in_ifindex c) (clock sh)) BPF_NOEXIST")
       (simp add: run_alone_step ready_def step_unfold holds_lock_def learned_def)
qed

lemma alone_learning_known:
  assumes "locks sh = Map.empty" and "at c = Lookup_src" and "table sh (src c) = Some it"
  shows "\<exists>m\<le>8. run_alone H (n + m) i c sh = run_alone H n i (c\<lparr>now := clock sh, at := Lookup_dst\<rparr>)
    (sh\<lparr>table := learned H (src c) (in_ifindex c, clock sh) (table sh)\<rparr>)"
proof -
  have l: "sh\<lparr>locks := Map.empty\<rparr> = sh" "sh\<lparr>table := t, locks := Map.empty\<rparr> = sh\<lparr>table := t\<rparr>" for t
    using assms(1) by (cases sh; simp)+
  have n: "n + 6 = Suc (Suc (Suc (Suc (Suc (Suc n)))))" "n + 7 = Suc (Suc (Suc (Suc (Suc (Suc (Suc n))))))"
    "n + 8 = Suc (Suc (Suc (Suc (Suc (Suc (Suc (Suc n)))))))" by simp_all
  consider "fv_ifindex (fvi_value it) \<noteq> in_ifindex c"
    | "fv_ifindex (fvi_value it) = in_ifindex c" "SECOND < clock sh - fv_last_seen (fvi_value it)"
    | "fresh (in_ifindex c) (clock sh) (fvi_value it)"
    by (auto simp: fresh_def)
  then show ?thesis
  proof cases
    case 1
    then have "run_alone H (n + 7) i c sh = run_alone H n i (c\<lparr>now := clock sh, at := Lookup_dst\<rparr>)
        (sh\<lparr>table := learned H (src c) (in_ifindex c, clock sh) (table sh)\<rparr>)"
      using assms unfolding n
      by (simp add: l run_alone_step ready_def step_unfold holds_lock_def learned_def fresh_def)
    then show ?thesis by (intro exI [of _ 7]) simp
  next
    case 2
    then have "run_alone H (n + 8) i c sh = run_alone H n i (c\<lparr>now := clock sh, at := Lookup_dst\<rparr>)
        (sh\<lparr>table := learned H (src c) (in_ifindex c, clock sh) (table sh)\<rparr>)"
      using assms unfolding n
      by (simp add: l run_alone_step ready_def step_unfold holds_lock_def learned_def fresh_def)
    then show ?thesis by (intro exI [of _ 8]) simp
  next
    case 3
    then have "run_alone H (n + 6) i c sh = run_alone H n i (c\<lparr>now := clock sh, at := Lookup_dst\<rparr>)
        (sh\<lparr>table := learned H (src c) (in_ifindex c, clock sh) (table sh)\<rparr>)"
      using assms unfolding n
      by (simp add: l run_alone_step ready_def step_unfold holds_lock_def learned_def fresh_def)
    then show ?thesis by (intro exI [of _ 6]) simp
  qed
qed

lemma alone_run:
  fixes H :: xdp_helpers
  assumes "locks sh = Map.empty" and "at c = Lookup_src"
  defines "t \<equiv> learned H (src c) (in_ifindex c, clock sh) (table sh)"
  shows "run_alone H 15 i c sh = Some (c\<lparr>now := clock sh, at := Finished,
      fdb_result := (if found (dst c) t = None then fdb_result c else fvi_value (the (t (dst c))))\<rparr>,
    sh\<lparr>table := t\<rparr>)" (is "_ = Some ?r")
proof -
  obtain m where m: "m \<le> 8" and e: "run_alone H (6 + m) i c sh =
      run_alone H 6 i (c\<lparr>now := clock sh, at := Lookup_dst\<rparr>) (sh\<lparr>table := t\<rparr>)"
  proof (cases "table sh (src c)")
    case None
    from alone_learning_new [OF assms(1,2) None, of H 6 i] that [of 3] show ?thesis by (simp add: t_def)
  next
    case (Some it)
    from alone_learning_known [OF assms(1,2) Some, of H 6 i] that show ?thesis unfolding t_def by blast
  qed
  have "run_alone H 6 i (c\<lparr>now := clock sh, at := Lookup_dst\<rparr>) (sh\<lparr>table := t\<rparr>) = Some ?r"
    using alone_lookup [of "sh\<lparr>table := t\<rparr>" "c\<lparr>now := clock sh, at := Lookup_dst\<rparr>" H 0 i] assms(1) by simp
  with e have "run_alone H (6 + m) i c sh = Some ?r" by simp
  then show ?thesis by (rule run_alone_enough) (use m in simp)
qed

text \<open>C28: the steps are the program: a CPU that runs alone on a frame, with no lock taken, finishes within
  15 steps, and ends with the table and the cached result that \<open>fdb_learning\<close> followed by
  \<open>fdb_lookup\<close> compute, and with all locks free again.\<close>

theorem lone_cpu_runs_the_program:
  assumes "fdb_update_law H" and "held s = None" and "14 \<le> pkt_len (ctx s)"
    and "xdp_forward_config_cache s 0 = Some fc"
    and "src c = src_key s vid" and "dst c = dst_key s vid"
    and "in_ifindex c = ingress_ifindex (ctx s)" and "fdb_result c = fc_fdb_value fc"
    and "at c = Lookup_src"
  shows "\<exists>s1 s2 c' sh'. fdb_learning H (ptr (data (ctx s))) vh vid s = Some s1 \<and>
    fdb_lookup (ptr (data (ctx s1))) vh vid s1 = Some s2 \<and>
    run_alone H 15 i c \<lparr>table = fdb_table s, locks = Map.empty, clock = ktime s\<rparr> = Some (c', sh') \<and>
    at c' = Finished \<and> locks sh' = Map.empty \<and> table sh' = fdb_table s2 \<and>
    xdp_forward_config_cache s2 0 = Some (fc\<lparr>fc_fdb_value := fdb_result c'\<rparr>)"
proof -
  let ?t = "learned H (src_key s vid) (ingress_ifindex (ctx s), ktime s) (fdb_table s)"
  let ?s1 = "s\<lparr>fdb_table := ?t\<rparr>"
  have h: "has_eth s" "has_eth ?s1" using assms(3) by (simp_all add: has_eth_len)
  have k: "dst_key ?s1 vid = dst_key s vid" by (simp add: dst_key_def)
  have 1: "fdb_learning H (ptr (data (ctx s))) vh vid s = Some ?s1"
    using assms(2) h(1) by (rule fdb_learning_run)
  note 2 = fdb_lookup_run [of ?s1 fc vh vid, simplified, OF assms(2) h(2) assms(4)]
  show ?thesis
    using 1 2 alone_run [of "\<lparr>table = fdb_table s, locks = Map.empty, clock = ktime s\<rparr>" c H i] assms(4-9)
    by (auto simp: k)
qed

section \<open>Schedules\<close>

text \<open>An executable form of the interleaving: a list says who moves and what happens.\<close>

datatype event = Move nat | Arrive nat fdb_key fdb_key u32 | Tick u64

fun play1 :: "xdp_helpers \<Rightarrow> event \<Rightarrow> system \<Rightarrow> system option" where
  "play1 H (Move i) (cs, sh) =
     (if i < length cs \<and> ready sh (cs ! i) then do {
        (c', sh') \<leftarrow> cpu_step H i (cs ! i) sh;
        Some (cs[i := c'], sh')
      } else None)"
| "play1 H (Arrive i a b p) (cs, sh) =
     (if i < length cs \<and> at (cs ! i) = Finished
      then Some (cs[i := (cs ! i)\<lparr>src := a, dst := b, in_ifindex := p, at := Lookup_src\<rparr>], sh) else None)"
| "play1 H (Tick d) (cs, sh) = Some (cs, sh\<lparr>clock := clock sh + d\<rparr>)"

fun play :: "xdp_helpers \<Rightarrow> event list \<Rightarrow> system \<Rightarrow> system option" where
  "play H [] s = Some s"
| "play H (e # es) s = do { s \<leftarrow> play1 H e s; play H es s }"

lemma play1_happens: "play1 H e s = Some s' \<Longrightarrow> happens H s s'"
  by (cases "(H, e, s)" rule: play1.cases)
     (auto split: if_splits Option.bind_splits intro: happens.intros step.intros)

lemma play_reachable: "play H es s = Some s' \<Longrightarrow> reachable H s \<Longrightarrow> reachable H s'"
proof (induction es arbitrary: s)
  case Nil
  then show ?case by simp
next
  case (Cons e es)
  from Cons.prems(1) obtain s1 where "play1 H e s = Some s1" "play H es s1 = Some s'"
    by (auto split: Option.bind_splits)
  with Cons show ?case by (blast intro: further play1_happens)
qed

text \<open>Two CPUs, both with a frame from \<open>mac_a\<close> that came in on interface 1, and an entry for it.\<close>

definition key_a :: fdb_key where "key_a = \<lparr>fk_mac = mac_a, fk_vlan_id = 5\<rparr>"
definition key_b :: fdb_key where "key_b = \<lparr>fk_mac = mac_b, fk_vlan_id = 5\<rparr>"

definition idle_cpu :: cpu where
  "idle_cpu = \<lparr>src = key_b, dst = key_b, in_ifindex = 0, now = 0, at = Finished,
     fdb_result = \<lparr>fv_ifindex = 0, fv_last_seen = 0\<rparr>\<rparr>"

definition two_cpus :: system where
  "two_cpus = ([idle_cpu, idle_cpu],
     \<lparr>table = [key_a \<mapsto> new_item 1 1000], locks = Map.empty, clock = 3000000000\<rparr>)"

lemma keys_differ [simp]: "key_a \<noteq> key_b" "key_b \<noteq> key_a"
  by (simp_all add: key_a_def key_b_def mac_a_def mac_b_def)

lemma two_cpus_reachable: "reachable H two_cpus"
  by (rule start) (simp add: idle_system_def two_cpus_def idle_cpu_def)

lemmas play_unfold = two_cpus_def idle_cpu_def ready_def step_unfold holds_lock_def new_item_def SECOND_def

definition race :: "event list" where
  "race = [Arrive 0 key_a key_b 1, Arrive 1 key_a key_b 1, Move 0, Move 1, Move 0, Tick 5,
     Move 1, Move 1, Move 1, Move 1, Move 1, Move 1, Move 1, Move 0, Move 0]"

lemma race_run:
  "play (ref_helpers 0) race two_cpus = Some
     ([idle_cpu\<lparr>src := key_a, in_ifindex := 1, now := 3000000000, at := Check_time\<rparr>,
       idle_cpu\<lparr>src := key_a, in_ifindex := 1, now := 3000000005, at := Lookup_dst\<rparr>],
      \<lparr>table = [key_a \<mapsto> new_item 1 3000000005], locks = [key_a \<mapsto> 0], clock = 3000000005\<rparr>)"
  unfolding race_def by (simp add: play_unfold)

lemma race_reachable: "reachable (ref_helpers 0)
     ([idle_cpu\<lparr>src := key_a, in_ifindex := 1, now := 3000000000, at := Check_time\<rparr>,
       idle_cpu\<lparr>src := key_a, in_ifindex := 1, now := 3000000005, at := Lookup_dst\<rparr>],
      \<lparr>table = [key_a \<mapsto> new_item 1 3000000005], locks = [key_a \<mapsto> 0], clock = 3000000005\<rparr>)"
  by (rule play_reachable [OF race_run two_cpus_reachable])

text \<open>A refresh may turn the time of an entry back. The learning reads the clock before it takes the
  lock. When another CPU refreshes the entry in between, the unsigned age \<open>now - last_seen\<close> wraps
  around to a huge number, so the entry counts as more than a second old, and the CPU overwrites the
  newer time by its older one.\<close>

theorem late_cpu_turns_time_back:
  assumes "fdb_update_law H" and "reachable H (cs, sh)" and "i < length cs"
    and "at (cs ! i) = Check_time" and "table sh (src (cs ! i)) = Some it"
    and "unat (now (cs ! i)) < unat (fv_last_seen (fvi_value it))"
    and "unat (fv_last_seen (fvi_value it)) < 2 ^ 63"
  shows "\<exists>s' it'. steps H (cs, sh) 3 s' \<and> table (snd s') (src (cs ! i)) = Some it' \<and>
    unat (fv_last_seen (fvi_value it')) < unat (fv_last_seen (fvi_value it))"
proof -
  let ?c = "cs ! i" and ?v = "fvi_value it"
  have "unat (now ?c - fv_last_seen ?v) = 2 ^ 64 - (unat (fv_last_seen ?v) - unat (now ?c))"
    using assms(6) unat_less [of "now ?c"] unat_less [of "fv_last_seen ?v"] by (auto simp: unat_sub_if')
  then have old: "SECOND < now ?c - fv_last_seen ?v"
    using assms(6,7) by (simp add: SECOND_def word_less_nat_alt)
  define it1 where "it1 = it\<lparr>fvi_value := ?v\<lparr>fv_ifindex := in_ifindex ?c\<rparr>\<rparr>"
  define it2 where "it2 = it\<lparr>fvi_value := \<lparr>fv_ifindex = in_ifindex ?c, fv_last_seen = now ?c\<rparr>\<rparr>"
  define s1 where "s1 = (cs[i := ?c\<lparr>at := Write_port\<rparr>], sh)"
  define s2 where "s2 = (cs[i := ?c\<lparr>at := Write_time\<rparr>], sh\<lparr>table := (table sh)(src ?c \<mapsto> it1)\<rparr>)"
  define s3 where "s3 = (cs[i := ?c\<lparr>at := Unlock_src\<rparr>], sh\<lparr>table := (table sh)(src ?c \<mapsto> it2)\<rparr>)"
  have "step H (cs, sh) s1"
    using step.step [of i cs sh H "?c\<lparr>at := Write_port\<rparr>" sh] assms(3-5) old
    by (simp add: s1_def ready_def step_unfold)
  moreover have "step H s1 s2"
    using step.step [of i "cs[i := ?c\<lparr>at := Write_port\<rparr>]" sh H "?c\<lparr>at := Write_time\<rparr>"
        "sh\<lparr>table := (table sh)(src ?c \<mapsto> it1)\<rparr>"] assms(3,5)
    by (simp add: s1_def s2_def ready_def step_unfold it1_def)
  moreover have "step H s2 s3"
    using step.step [of i "cs[i := ?c\<lparr>at := Write_time\<rparr>]" "sh\<lparr>table := (table sh)(src ?c \<mapsto> it1)\<rparr>" H
        "?c\<lparr>at := Unlock_src\<rparr>" "sh\<lparr>table := (table sh)(src ?c \<mapsto> it2)\<rparr>"] assms(3)
    by (simp add: s2_def s3_def ready_def step_unfold it1_def it2_def)
  ultimately have "steps H (cs, sh) (Suc (Suc (Suc 0))) s3" by (blast intro: steps.intros)
  moreover have "table (snd s3) (src ?c) = Some it2" by (simp add: s3_def)
  moreover have "unat (fv_last_seen (fvi_value it2)) < unat (fv_last_seen ?v)"
    using assms(6) by (simp add: it2_def)
  ultimately show ?thesis unfolding numeral_3_eq_3 by blast
qed

theorem late_cpu_turns_time_back_witness:
  "\<exists>s s' it'. reachable (ref_helpers 0) s \<and> fv_last_seen (fvi_value (the (table (snd s) key_a))) = 3000000005 \<and>
    steps (ref_helpers 0) s 3 s' \<and> table (snd s') key_a = Some it' \<and>
    unat (fv_last_seen (fvi_value it')) < 3000000005"
  using late_cpu_turns_time_back [OF ref_fdb_update_law race_reachable, of 0 "new_item 1 3000000005"]
    race_reachable by (fastforce simp: new_item_def)

theorem fdb_mutual_exclusion_witness:
  "\<exists>cs sh. reachable (ref_helpers 0) (cs, sh) \<and> critical (cs ! 0) = Some key_a \<and> locks sh key_a = Some 0"
  using fdb_mutual_exclusion [OF ref_fdb_update_law race_reachable, of 0 key_a] race_reachable
  by (fastforce simp: critical_def)

theorem fdb_no_deadlock_witness:
  "\<exists>cs sh s'. reachable (ref_helpers 0) (cs, sh) \<and> locks sh key_a = Some 0 \<and> step (ref_helpers 0) (cs, sh) s'"
  using fdb_no_deadlock [OF ref_fdb_update_law race_reachable] race_reachable by fastforce

theorem fdb_runs_terminate_witness:
  "\<exists>s. reachable (ref_helpers 0) s \<and> (\<forall>n s'. steps (ref_helpers 0) s n s' \<longrightarrow> n \<le> 30)"
  using fdb_runs_terminate [OF ref_fdb_update_law race_reachable] race_reachable by fastforce

theorem concurrent_learning_is_atomic_witness:
  "\<exists>cs sh s'. reachable (ref_helpers 0) (cs, sh) \<and> step (ref_helpers 0) (cs, sh) s' \<and>
    (settled s' = settled (cs, sh) \<or> (\<exists>c\<in>set cs. settled s' = learns c (settled (cs, sh))))"
proof -
  obtain s' where "step (ref_helpers 0)
     ([idle_cpu\<lparr>src := key_a, in_ifindex := 1, now := 3000000000, at := Check_time\<rparr>,
       idle_cpu\<lparr>src := key_a, in_ifindex := 1, now := 3000000005, at := Lookup_dst\<rparr>],
      \<lparr>table = [key_a \<mapsto> new_item 1 3000000005], locks = [key_a \<mapsto> 0], clock = 3000000005\<rparr>) s'"
    using someone_moves [OF reachable_consistent [OF race_reachable ref_fdb_update_law], where H = "ref_helpers 0"]
    by auto
  with concurrent_learning_is_atomic [OF ref_fdb_update_law race_reachable this] race_reachable
  show ?thesis by blast
qed

text \<open>CPU 0 refreshes the entry of \<open>mac_a\<close> and then looks the same address up.\<close>

definition echo :: "event list" where
  "echo = [Arrive 0 key_a key_a 1, Move 0, Move 0, Move 0, Move 0, Move 0, Move 0, Move 0, Move 0,
     Move 0, Move 0, Move 0, Move 0, Move 0]"

lemma echo_run:
  "play (ref_helpers 0) echo two_cpus = Some
     ([idle_cpu\<lparr>src := key_a, dst := key_a, in_ifindex := 1, now := 3000000000, at := Unlock_dst,
         fdb_result := \<lparr>fv_ifindex = 1, fv_last_seen = 3000000000\<rparr>\<rparr>, idle_cpu],
      \<lparr>table = [key_a \<mapsto> new_item 1 3000000000], locks = [key_a \<mapsto> 0], clock = 3000000000\<rparr>)"
  unfolding echo_def by (simp add: play_unfold)

theorem concurrent_lookup_is_not_torn_witness:
  "\<exists>cs sh. reachable (ref_helpers 0) (cs, sh) \<and>
    settled (cs, sh) key_a = Some \<lparr>fv_ifindex = 1, fv_last_seen = 3000000000\<rparr>"
proof -
  note r = play_reachable [OF echo_run two_cpus_reachable]
  show ?thesis
    using concurrent_lookup_is_not_torn [OF ref_fdb_update_law r, of 0] r by fastforce
qed

theorem lone_cpu_runs_the_program_witness:
  "\<exists>c' sh'. run_alone (ref_helpers 0) 15 0
      \<lparr>src = src_key (sample_state (plain_frame mac_a mac_b) 1 Map.empty zero_cache) 5,
       dst = dst_key (sample_state (plain_frame mac_a mac_b) 1 Map.empty zero_cache) 5,
       in_ifindex = 1, now = 0, at = Lookup_src, fdb_result = \<lparr>fv_ifindex = 0, fv_last_seen = 0\<rparr>\<rparr>
      \<lparr>table = Map.empty, locks = Map.empty, clock = 1000\<rparr> = Some (c', sh') \<and> at c' = Finished"
proof -
  let ?s = "sample_state (plain_frame mac_a mac_b) 1 Map.empty zero_cache"
  show ?thesis
    using lone_cpu_runs_the_program [of "ref_helpers 0" ?s zero_cache "\<lparr>src = src_key ?s 5,
        dst = dst_key ?s 5, in_ifindex = 1, now = 0, at = Lookup_src,
        fdb_result = \<lparr>fv_ifindex = 0, fv_last_seen = 0\<rparr>\<rparr>" 5 0 0]
    by (auto simp: ref_fdb_update_law zero_cache_def)
qed

end
