(* ===== verification/Tc_Flood.thy ===== *)
theory Tc_Flood
  imports L2_Out Tc_Helpers "HOL-Library.Sublist"
begin

text \<open>
  The flood (l2.h): \<open>fdb_flood\<close> runs \<open>tc_l2_out\<close> over every configured interface; for each the
  egress decision picks one of the three TC send functions, which clone the socket buffer to the
  port and undo what they did to it. The send functions meet the same contract as the XDP ones.
\<close>

section \<open>The code\<close>

record flood_context =
  flc_md :: dp_metadata

record tc_l2_send_context =
  tsc_out_if_index :: u32
  tsc_vlan_id :: u32

definition tc_l2_decap_vlan_and_send ::
  "tc_helpers \<Rightarrow> tc_l2_send_context \<Rightarrow> tc_state \<Rightarrow> (int \<times> tc_state) option" where
  "tc_l2_decap_vlan_and_send H send_ctx s = do {
     (ret, s) \<leftarrow> bpf_skb_vlan_pop H s;
     if ret \<noteq> 0 then Some (-1, s)
     else do {
       (ret, s) \<leftarrow> bpf_clone_redirect H (tsc_out_if_index send_ctx) 0 s;
       if ret \<noteq> 0 then Some (-1, s)
       else do {
         (ret, s) \<leftarrow> bpf_skb_vlan_push H (bpf_htons True ETH_P_8021Q) (ucast (tsc_vlan_id send_ctx)) s;
         if ret \<noteq> 0 then Some (-1, s) else Some (0, s)
       }
     }
   }"

definition tc_l2_send_directly ::
  "tc_helpers \<Rightarrow> tc_l2_send_context \<Rightarrow> tc_state \<Rightarrow> (int \<times> tc_state) option" where
  "tc_l2_send_directly H send_ctx s = do {
     (ret, s) \<leftarrow> bpf_clone_redirect H (tsc_out_if_index send_ctx) 0 s;
     if ret \<noteq> 0 then Some (-1, s) else Some (0, s)
   }"

definition tc_l2_encap_vlan_and_send ::
  "tc_helpers \<Rightarrow> tc_l2_send_context \<Rightarrow> tc_state \<Rightarrow> (int \<times> tc_state) option" where
  "tc_l2_encap_vlan_and_send H send_ctx s = do {
     (ret, s) \<leftarrow> bpf_skb_vlan_push H (bpf_htons True ETH_P_8021Q) (ucast (tsc_vlan_id send_ctx)) s;
     if ret \<noteq> 0 then Some (-1, s)
     else do {
       (ret, s) \<leftarrow> bpf_clone_redirect H (tsc_out_if_index send_ctx) 0 s;
       if ret \<noteq> 0 then Some (-1, s)
       else do {
         (ret, s) \<leftarrow> bpf_skb_vlan_pop H s;
         if ret \<noteq> 0 then Some (-1, s) else Some (0, s)
       }
     }
   }"

definition tc_l2_out ::
  "tc_helpers \<Rightarrow> flood_context \<Rightarrow> u32 \<Rightarrow> tc_state \<Rightarrow> (int \<times> tc_state) option" where
  "tc_l2_out H flood_ctx key s = do {
     (out_if_config, s) \<leftarrow> snapshot_iface key s;
     let ifi = skb_ingress_ifindex (skb s);
     in_item \<leftarrow> lookup_iface ifi s;
     (case in_item of
        None \<Rightarrow> Some (xdp_action_val XDP_DROP, s)
      | Some _ \<Rightarrow> do {
          (in_if_config, s) \<leftarrow> snapshot_iface ifi s;
          let md = flc_md flood_ctx;
          let vlan_id = l2m_vlan_id (md_l2 md);
          let send_ctx = \<lparr>tsc_out_if_index = ifc_ifindex out_if_config, tsc_vlan_id = vlan_id\<rparr>;
          (ret, s) \<leftarrow> l2_out out_if_config in_if_config vlan_id
            (l2m_flags (md_l2 md) AND L2_VLAN_PACKET \<noteq> 0)
            (tc_l2_decap_vlan_and_send H send_ctx) (tc_l2_encap_vlan_and_send H send_ctx)
            (tc_l2_send_directly H send_ctx) s;
          if ret \<noteq> 0 then Some (0, s) else Some (0, s)
        })
   }"

definition fdb_flood :: "tc_helpers \<Rightarrow> dp_metadata \<Rightarrow> tc_state \<Rightarrow> (int \<times> tc_state) option" where
  "fdb_flood H md s = do {
     let flood_ctx = \<lparr>flc_md = md\<rparr>;
     (ret, s) \<leftarrow> bpf_for_each_map_elem H (tc_l2_out H flood_ctx) 0 s;
     if ret < 0 then Some (TC_ACT_SHOT, s) else Some (TC_ACT_SHOT, s)
   }"

section \<open>Sending one clone\<close>

abbreviation packet :: "tc_state \<Rightarrow> u8 list" where
  "packet s \<equiv> skb_packet (skb s)"

text \<open>What flooding leaves alone.\<close>

definition tc_kept :: "tc_state \<Rightarrow> tc_state \<Rightarrow> bool" where
  "tc_kept s s' \<longleftrightarrow> held s' = held s \<and> iface_config_map s' = iface_config_map s \<and>
     fdb_table s' = fdb_table s \<and> tc_mem s' = tc_mem s \<and>
     skb_ingress_ifindex (skb s') = skb_ingress_ifindex (skb s)"

lemma tc_kept_refl [simp]: "tc_kept s s"
  by (simp add: tc_kept_def)

lemma tc_kept_trans: "tc_kept s s' \<Longrightarrow> tc_kept s' s'' \<Longrightarrow> tc_kept s s''"
  by (simp add: tc_kept_def)

text \<open>At most one clone, and that to the port \<open>i\<close>.\<close>

definition at_most_one :: "u32 \<Rightarrow> tc_state \<Rightarrow> tc_state \<Rightarrow> bool" where
  "at_most_one i s s' \<longleftrightarrow> tc_kept s s' \<and> (sent s' = sent s \<or> (\<exists>f. sent s' = sent s @ [(i, f)]))"

lemma at_most_one_refl [simp]: "at_most_one i s s"
  by (simp add: at_most_one_def)

lemma pop_run:
  assumes "vlan_law H" and "held s = None"
  obtains rc b where "bpf_skb_vlan_pop H s = Some (rc, s\<lparr>skb := b\<rparr>)" and "h_vlan_pop H (skb s) = (rc, b)"
    and "skb_ingress_ifindex b = skb_ingress_ifindex (skb s)"
    and "rc = 0 \<Longrightarrow> frame_is_tagged (packet s) \<Longrightarrow> skb_packet b = untag_frame (packet s)"
proof -
  obtain rc b where r: "h_vlan_pop H (skb s) = (rc, b)" by fastforce
  show thesis
    by (rule that [OF _ r popD [OF assms(1) r]]) (simp_all add: bpf_skb_vlan_pop_def runs assms(2) r)
qed

lemma push_run:
  assumes "vlan_law H" and "held s = None"
  obtains rc b where "bpf_skb_vlan_push H (bpf_htons True ETH_P_8021Q) tci s = Some (rc, s\<lparr>skb := b\<rparr>)"
    and "h_vlan_push H (bpf_htons True ETH_P_8021Q) tci (skb s) = (rc, b)"
    and "skb_ingress_ifindex b = skb_ingress_ifindex (skb s)"
    and "rc = 0 \<Longrightarrow> skb_packet b = push_tag (bpf_htons True ETH_P_8021Q) tci (packet s)"
proof -
  obtain rc b where r: "h_vlan_push H (bpf_htons True ETH_P_8021Q) tci (skb s) = (rc, b)" by fastforce
  show thesis
    by (rule that [OF _ r pushD [OF assms(1) r]]) (simp_all add: bpf_skb_vlan_push_def runs assms(2) r)
qed

lemma clone_run [runs]:
  "held s = None \<Longrightarrow> bpf_clone_redirect H i 0 s =
     Some (h_clone_redirect H i 0 (skb s) (sent s),
       if h_clone_redirect H i 0 (skb s) (sent s) = 0 then s\<lparr>sent := sent s @ [(i, packet s)]\<rparr> else s)"
  by (simp add: bpf_clone_redirect_def runs)

text \<open>Whether the kernel lets an action through.\<close>

fun tc_can :: "tc_helpers \<Rightarrow> u32 \<Rightarrow> u32 \<Rightarrow> egress \<Rightarrow> tc_state \<Rightarrow> bool" where
  "tc_can H i vid Decap s =
     (let (r1, b1) = h_vlan_pop H (skb s)
      in r1 = 0 \<and> h_clone_redirect H i 0 b1 (sent s) = 0 \<and>
         fst (h_vlan_push H (bpf_htons True ETH_P_8021Q) (ucast vid) b1) = 0)"
| "tc_can H i vid Encap s =
     (let (r1, b1) = h_vlan_push H (bpf_htons True ETH_P_8021Q) (ucast vid) (skb s)
      in r1 = 0 \<and> h_clone_redirect H i 0 b1 (sent s) = 0 \<and> fst (h_vlan_pop H b1) = 0)"
| "tc_can H i vid _ s = (h_clone_redirect H i 0 (skb s) (sent s) = 0)"

text \<open>
  The frame in the buffer afterwards is the frame before, up to the rewriting of a tag that was
  popped and pushed again.
\<close>

definition retag :: "u32 \<Rightarrow> u8 list \<Rightarrow> u8 list" where
  "retag vid f = push_tag (bpf_htons True ETH_P_8021Q) (ucast vid) (untag_frame f)"

definition tc_emitted :: "u32 \<Rightarrow> u32 \<Rightarrow> bool \<Rightarrow> tc_state \<Rightarrow> tc_state \<Rightarrow> u8 list \<Rightarrow> bool" where
  "tc_emitted i vid tagged s s' f \<longleftrightarrow> sent s' = sent s @ [(i, f)] \<and>
     (packet s' = packet s \<or> tagged \<and> packet s' = retag vid (packet s))"

lemma tc_decap_contract:
  assumes "vlan_law H" and "held s = None"
  shows "succeeds (tc_l2_decap_vlan_and_send H \<lparr>tsc_out_if_index = i, tsc_vlan_id = vid\<rparr> s)
    (\<lambda>(rc, s'). at_most_one i s s' \<and>
      (if tc_can H i vid Decap s
       then rc = 0 \<and> (tagged \<longrightarrow> frame_is_tagged (packet s) \<longrightarrow>
         tc_emitted i vid tagged s s' (untag_frame (packet s)))
       else rc = -1))"
proof -
  obtain r1 b1 where pop: "bpf_skb_vlan_pop H s = Some (r1, s\<lparr>skb := b1\<rparr>)"
    "h_vlan_pop H (skb s) = (r1, b1)" "skb_ingress_ifindex b1 = skb_ingress_ifindex (skb s)"
    "r1 = 0 \<Longrightarrow> frame_is_tagged (packet s) \<Longrightarrow> skb_packet b1 = untag_frame (packet s)"
    by (rule pop_run [OF assms(1,2)]) blast
  obtain r2 b2 where push: "\<And>l. bpf_skb_vlan_push H (bpf_htons True ETH_P_8021Q) (ucast vid)
      (s\<lparr>skb := b1, sent := l\<rparr>) = Some (r2, s\<lparr>skb := b2, sent := l\<rparr>)"
    "h_vlan_push H (bpf_htons True ETH_P_8021Q) (ucast vid) b1 = (r2, b2)"
    "skb_ingress_ifindex b2 = skb_ingress_ifindex b1"
    "r2 = 0 \<Longrightarrow> skb_packet b2 = push_tag (bpf_htons True ETH_P_8021Q) (ucast vid) (skb_packet b1)"
  proof -
    obtain r b where r: "h_vlan_push H (bpf_htons True ETH_P_8021Q) (ucast vid) b1 = (r, b)" by fastforce
    show thesis
      by (rule that [OF _ r pushD [OF assms(1) r]]) (simp_all add: bpf_skb_vlan_push_def runs assms(2) r)
  qed
  show ?thesis
    using pop push assms(2)
    by (auto simp: tc_l2_decap_vlan_and_send_def runs at_most_one_def tc_kept_def tc_emitted_def retag_def)
qed

lemma tc_direct_contract:
  assumes "held s = None"
  shows "succeeds (tc_l2_send_directly H \<lparr>tsc_out_if_index = i, tsc_vlan_id = vid\<rparr> s)
    (\<lambda>(rc, s'). at_most_one i s s' \<and>
      (if tc_can H i vid Direct s then rc = 0 \<and> tc_emitted i vid tagged s s' (packet s) else rc = -1))"
  using assms by (auto simp: tc_l2_send_directly_def runs at_most_one_def tc_kept_def tc_emitted_def)

lemma tc_encap_contract:
  assumes "vlan_law H" and "held s = None"
  shows "succeeds (tc_l2_encap_vlan_and_send H \<lparr>tsc_out_if_index = i, tsc_vlan_id = vid\<rparr> s)
    (\<lambda>(rc, s'). at_most_one i s s' \<and>
      (if tc_can H i vid Encap s
       then rc = 0 \<and> (12 \<le> length (packet s) \<longrightarrow> tc_emitted i vid tagged s s'
         (push_tag (bpf_htons True ETH_P_8021Q) (ucast vid) (packet s)))
       else rc = -1))"
proof -
  let ?q = "bpf_htons True ETH_P_8021Q"
  obtain r1 b1 where push: "bpf_skb_vlan_push H ?q (ucast vid) s = Some (r1, s\<lparr>skb := b1\<rparr>)"
    "h_vlan_push H ?q (ucast vid) (skb s) = (r1, b1)"
    "skb_ingress_ifindex b1 = skb_ingress_ifindex (skb s)"
    "r1 = 0 \<Longrightarrow> skb_packet b1 = push_tag ?q (ucast vid) (packet s)"
    by (rule push_run [OF assms(1,2), of "ucast vid"]) blast
  obtain r2 b2 where pop: "\<And>l. bpf_skb_vlan_pop H (s\<lparr>skb := b1, sent := l\<rparr>) = Some (r2, s\<lparr>skb := b2, sent := l\<rparr>)"
    "h_vlan_pop H b1 = (r2, b2)" "skb_ingress_ifindex b2 = skb_ingress_ifindex b1"
    "r2 = 0 \<Longrightarrow> frame_is_tagged (skb_packet b1) \<Longrightarrow> skb_packet b2 = untag_frame (skb_packet b1)"
  proof -
    obtain r b where r: "h_vlan_pop H b1 = (r, b)" by fastforce
    show thesis
      by (rule that [OF _ r popD [OF assms(1) r]]) (simp_all add: bpf_skb_vlan_pop_def runs assms(2) r)
  qed
  show ?thesis
    using push pop assms(2)
    by (auto simp: tc_l2_encap_vlan_and_send_def runs at_most_one_def tc_kept_def tc_emitted_def)
qed

text \<open>The TC functions meet the contract of the senders.\<close>

definition tc_ready :: "tc_helpers \<Rightarrow> bool \<Rightarrow> tc_state \<Rightarrow> tc_state \<Rightarrow> bool" where
  "tc_ready H tagged s0 s \<longleftrightarrow> s = s0 \<and> vlan_law H \<and> held s = None \<and>
     (if tagged then frame_is_tagged (packet s) else 12 \<le> length (packet s))"

interpretation tc_tx: l2_sender
  "tc_l2_decap_vlan_and_send H \<lparr>tsc_out_if_index = i, tsc_vlan_id = vid\<rparr>"
  "tc_l2_encap_vlan_and_send H \<lparr>tsc_out_if_index = i, tsc_vlan_id = vid\<rparr>"
  "tc_l2_send_directly H \<lparr>tsc_out_if_index = i, tsc_vlan_id = vid\<rparr>"
  "tc_ready H tagged s0" "at_most_one i s0" tagged packet untag_frame
  "push_tag (bpf_htons True ETH_P_8021Q) (ucast vid)" "tc_can H i vid" "tc_emitted i vid tagged"
  for H i vid tagged s0
proof (unfold_locales, goal_cases)
  case (1 s)
  then show ?case by (simp add: tc_ready_def)
next
  case (2 s)
  then show ?case
    using tc_decap_contract [of H s i vid tagged]
    by (auto simp: tc_ready_def cong: if_cong split del: if_split)
next
  case (3 s)
  then show ?case
    using tc_encap_contract [of H s i vid tagged]
    by (auto simp: tc_ready_def cong: if_cong split del: if_split)
next
  case (4 s)
  then show ?case
    using tc_direct_contract [of s H i vid tagged] by (auto simp: tc_ready_def split del: if_split)
qed

section \<open>One interface of the flood\<close>

definition port_of :: "iface_config_item \<Rightarrow> u32" where
  "port_of item = ifc_ifindex (ici_config item)"

definition md_tagged :: "dp_metadata \<Rightarrow> bool" where
  "md_tagged md \<longleftrightarrow> l2m_flags (md_l2 md) AND L2_VLAN_PACKET \<noteq> 0"

abbreviation md_vid :: "dp_metadata \<Rightarrow> u32" where
  "md_vid md \<equiv> l2m_vlan_id (md_l2 md)"

text \<open>The interface entries the flood of a frame should reach.\<close>

definition flood_target :: "dp_metadata \<Rightarrow> tc_state \<Rightarrow> u32 \<Rightarrow> bool" where
  "flood_target md s k \<longleftrightarrow>
     (case (iface_config_map s k, iface_config_map s (skb_ingress_ifindex (skb s))) of
        (Some out, Some inn) \<Rightarrow> eligible (ici_config out) (ici_config inn) (md_vid md) (md_tagged md)
      | _ \<Rightarrow> False)"

text \<open>The frame an entry's port receives.\<close>

definition flood_frame :: "dp_metadata \<Rightarrow> tc_state \<Rightarrow> u32 \<Rightarrow> u8 list" where
  "flood_frame md s k =
     egress_frame untag_frame (push_tag (bpf_htons True ETH_P_8021Q) (ucast (md_vid md)))
       (l2_egress (ici_config (the (iface_config_map s k)))
         (ici_config (the (iface_config_map s (skb_ingress_ifindex (skb s))))) (md_vid md) (md_tagged md))
       (packet s)"

abbreviation entry_port :: "tc_state \<Rightarrow> u32 \<Rightarrow> u32" where
  "entry_port s k \<equiv> port_of (the (iface_config_map s k))"

lemma tc_l2_out_run:
  assumes "held s = None" and "iface_config_map s k = Some out"
  shows "tc_l2_out H \<lparr>flc_md = md\<rparr> k s =
    (case iface_config_map s (skb_ingress_ifindex (skb s)) of
       None \<Rightarrow> Some (1, s)
     | Some inn \<Rightarrow> do {
         (ret, s') \<leftarrow> l2_out (ici_config out) (ici_config inn) (md_vid md) (md_tagged md)
           (tc_l2_decap_vlan_and_send H \<lparr>tsc_out_if_index = port_of out, tsc_vlan_id = md_vid md\<rparr>)
           (tc_l2_encap_vlan_and_send H \<lparr>tsc_out_if_index = port_of out, tsc_vlan_id = md_vid md\<rparr>)
           (tc_l2_send_directly H \<lparr>tsc_out_if_index = port_of out, tsc_vlan_id = md_vid md\<rparr>) s;
         Some (0, s')
       })"
  using assms
  by (simp add: tc_l2_out_def runs port_of_def md_tagged_def Let_def split: option.splits)

lemma tc_l2_out_safe:
  assumes "vlan_law H" and "held s = None" and "iface_config_map s k = Some out"
    and "iface_config_map s (skb_ingress_ifindex (skb s)) = Some inn"
  shows "succeeds (tc_l2_out H \<lparr>flc_md = md\<rparr> k s) (\<lambda>(rc, s'). rc = 0 \<and> at_most_one (port_of out) s s' \<and>
    (\<not> flood_target md s k \<longrightarrow> s' = s))"
proof (cases "eligible (ici_config out) (ici_config inn) (md_vid md) (md_tagged md)")
  case False
  then show ?thesis using assms by (simp add: tc_l2_out_run l2_out_refused)
next
  case True
  let ?c = "\<lparr>tsc_out_if_index = port_of out, tsc_vlan_id = md_vid md\<rparr>"
  have "succeeds (l2_out (ici_config out) (ici_config inn) (md_vid md) (md_tagged md)
      (tc_l2_decap_vlan_and_send H ?c) (tc_l2_encap_vlan_and_send H ?c) (tc_l2_send_directly H ?c) s)
      (\<lambda>(rc, s'). at_most_one (port_of out) s s')"
    by (rule l2_out_any, simp,
        rule succeeds_weaken [OF tc_decap_contract [OF assms(1,2)]], force,
        rule succeeds_weaken [OF tc_encap_contract [OF assms(1,2)]], force,
        rule succeeds_weaken [OF tc_direct_contract [OF assms(2)]], force)
  with True assms show ?thesis
    by (auto simp: tc_l2_out_run flood_target_def succeeds_iff)
qed

text \<open>
  A frame whose tag is rewritten to itself: an untagged frame, or an 802.1Q frame whose tag control
  information is the VLAN number alone.
\<close>

definition plain_tag :: "dp_metadata \<Rightarrow> u8 list \<Rightarrow> bool" where
  "plain_tag md f \<longleftrightarrow>
     (if md_tagged md
      then 16 \<le> length f \<and> take 4 (drop 12 f) =
        bytes16 (bpf_htons True ETH_P_8021Q) @ bytes16 (bpf_htons False (ucast (md_vid md)))
      else 12 \<le> length f)"

lemma plain_tag_ready:
  assumes "plain_tag md (packet s)" and "vlan_law H" and "held s = None"
  shows "tc_ready H (md_tagged md) s s"
proof -
  have "take 2 (drop 12 (packet s)) = bytes16 (bpf_htons True ETH_P_8021Q)" if "md_tagged md"
  proof -
    have "take 2 (drop 12 (packet s)) = take 2 (take 4 (drop 12 (packet s)))" by simp
    also have "\<dots> = bytes16 (bpf_htons True ETH_P_8021Q)"
      using that assms(1) by (simp add: plain_tag_def del: take_take)
    finally show ?thesis .
  qed
  with assms show ?thesis by (auto simp: tc_ready_def plain_tag_def frame_is_tagged_def)
qed

lemma plain_tag_retag: "plain_tag md f \<Longrightarrow> md_tagged md \<Longrightarrow> retag (md_vid md) f = f"
  by (simp add: plain_tag_def retag_def push_untag)

lemma accepting_can: "accepting H \<Longrightarrow> tc_can H i vid a s"
  by (cases a) (auto simp: accepting_def split: prod.splits, (metis fst_conv)+)

lemma tc_l2_out_sends:
  assumes "accepting H" and "vlan_law H" and "held s = None" and "plain_tag md (packet s)"
    and out: "iface_config_map s k = Some out"
    and inn: "iface_config_map s (skb_ingress_ifindex (skb s)) = Some inn"
  shows "succeeds (tc_l2_out H \<lparr>flc_md = md\<rparr> k s) (\<lambda>(rc, s'). rc = 0 \<and> tc_kept s s' \<and>
    packet s' = packet s \<and>
    sent s' = sent s @ (if flood_target md s k then [(entry_port s k, flood_frame md s k)] else []))"
proof -
  let ?c = "\<lparr>tsc_out_if_index = port_of out, tsc_vlan_id = md_vid md\<rparr>"
  show ?thesis
  proof (cases "eligible (ici_config out) (ici_config inn) (md_vid md) (md_tagged md)")
    case False
    then show ?thesis using assms by (simp add: tc_l2_out_run l2_out_refused flood_target_def)
  next
    case True
    have "succeeds (l2_out (ici_config out) (ici_config inn) (md_vid md) (md_tagged md)
        (tc_l2_decap_vlan_and_send H ?c) (tc_l2_encap_vlan_and_send H ?c) (tc_l2_send_directly H ?c) s)
        (\<lambda>(rc, s'). at_most_one (port_of out) s s' \<and>
           tc_emitted (port_of out) (md_vid md) (md_tagged md) s s' (flood_frame md s k))"
      using tc_tx.l2_out_contract [OF plain_tag_ready [OF assms(4,2,3)], of "ici_config out" "ici_config inn"
          "md_vid md" "port_of out" "md_vid md"] True accepting_can [OF assms(1)] out inn
      by (simp add: flood_frame_def succeeds_iff) blast
    with True out inn assms(3) plain_tag_retag [OF assms(4)] show ?thesis
      by (auto simp: tc_l2_out_run flood_target_def succeeds_iff tc_emitted_def at_most_one_def)
  qed
qed

section \<open>The whole flood\<close>

lemma flood_unchanged:
  "tc_kept s s' \<Longrightarrow> flood_target md s' = flood_target md s \<and> entry_port s' = entry_port s"
  by (auto simp: fun_eq_iff flood_target_def tc_kept_def)

lemma flood_frame_unchanged:
  "tc_kept s s' \<Longrightarrow> packet s' = packet s \<Longrightarrow> flood_frame md s' = flood_frame md s"
  by (simp add: fun_eq_iff flood_frame_def tc_kept_def)

lemma for_each_safe:
  assumes "vlan_law H" and "held s = None" and "set ks \<subseteq> dom (iface_config_map s)"
    and "iface_config_map s (skb_ingress_ifindex (skb s)) \<noteq> None"
  shows "succeeds (for_each_key (tc_l2_out H \<lparr>flc_md = md\<rparr>) ks n s) (\<lambda>(rc, s'). tc_kept s s' \<and>
    (\<exists>log. sent s' = sent s @ log \<and>
       subseq (map fst log) (map (entry_port s) (filter (flood_target md s) ks))))"
  using assms(2-)
proof (induction ks arbitrary: n s)
  case Nil
  then show ?case by simp
next
  case (Cons k ks)
  from Cons.prems obtain out inn where k: "iface_config_map s k = Some out"
    and inn: "iface_config_map s (skb_ingress_ifindex (skb s)) = Some inn" by auto
  obtain s1 where s1: "tc_l2_out H \<lparr>flc_md = md\<rparr> k s = Some (0, s1)" and one: "at_most_one (port_of out) s s1"
    and no: "\<not> flood_target md s k \<Longrightarrow> s1 = s"
    using tc_l2_out_safe [OF assms(1) Cons.prems(1) k inn, of md] by (auto simp: succeeds_iff)
  have kept: "tc_kept s s1" using one by (simp add: at_most_one_def)
  have "succeeds (for_each_key (tc_l2_out H \<lparr>flc_md = md\<rparr>) ks (n + 1) s1) (\<lambda>(rc, s'). tc_kept s1 s' \<and>
    (\<exists>log. sent s' = sent s1 @ log \<and>
       subseq (map fst log) (map (entry_port s1) (filter (flood_target md s1) ks))))"
    using kept Cons.prems by (intro Cons.IH) (auto simp: tc_kept_def)
  then obtain rc s' log where r: "for_each_key (tc_l2_out H \<lparr>flc_md = md\<rparr>) ks (n + 1) s1 = Some (rc, s')"
    and k': "tc_kept s1 s'" and l: "sent s' = sent s1 @ log"
    and sub: "subseq (map fst log) (map (entry_port s) (filter (flood_target md s) ks))"
    using flood_unchanged [OF kept] by (auto simp: succeeds_iff)
  from one no consider "sent s1 = sent s"
    | f where "sent s1 = sent s @ [(port_of out, f)]" "flood_target md s k"
    unfolding at_most_one_def by fastforce
  then have "\<exists>log'. sent s' = sent s @ log' \<and>
      subseq (map fst log') (map (entry_port s) (filter (flood_target md s) (k # ks)))"
  proof cases
    case 1
    with l sub show ?thesis by auto
  next
    case (2 f)
    with l sub k show ?thesis by (intro exI [of _ "(port_of out, f) # log"]) simp
  qed
  with s1 r tc_kept_trans [OF kept k'] show ?case by simp
qed

lemma for_each_sends:
  assumes "accepting H" and "vlan_law H"
    and "held s = None" and "plain_tag md (packet s)" and "set ks \<subseteq> dom (iface_config_map s)"
    and "iface_config_map s (skb_ingress_ifindex (skb s)) \<noteq> None"
  shows "succeeds (for_each_key (tc_l2_out H \<lparr>flc_md = md\<rparr>) ks n s) (\<lambda>(rc, s').
    rc = n + int (length ks) \<and> tc_kept s s' \<and> packet s' = packet s \<and>
    sent s' = sent s @ map (\<lambda>k. (entry_port s k, flood_frame md s k)) (filter (flood_target md s) ks))"
  using assms(3-)
proof (induction ks arbitrary: n s)
  case Nil
  then show ?case by simp
next
  case (Cons k ks)
  from Cons.prems obtain out inn where k: "iface_config_map s k = Some out"
    and inn: "iface_config_map s (skb_ingress_ifindex (skb s)) = Some inn" by auto
  obtain s1 where s1: "tc_l2_out H \<lparr>flc_md = md\<rparr> k s = Some (0, s1)" and kept: "tc_kept s s1"
    and p: "packet s1 = packet s"
    and l: "sent s1 = sent s @ (if flood_target md s k then [(entry_port s k, flood_frame md s k)] else [])"
    using tc_l2_out_sends [OF assms(1,2) Cons.prems(1,2) k inn] by (auto simp: succeeds_iff)
  have "succeeds (for_each_key (tc_l2_out H \<lparr>flc_md = md\<rparr>) ks (n + 1) s1) (\<lambda>(rc, s').
    rc = n + 1 + int (length ks) \<and> tc_kept s1 s' \<and> packet s' = packet s1 \<and>
    sent s' = sent s1 @ map (\<lambda>k. (entry_port s1 k, flood_frame md s1 k)) (filter (flood_target md s1) ks))"
    using kept p Cons.prems by (intro Cons.IH) (auto simp: tc_kept_def)
  moreover have "iface_config_map s1 = iface_config_map s" using kept by (simp add: tc_kept_def)
  ultimately show ?case
    using s1 l p kept flood_unchanged [OF kept] flood_frame_unchanged [OF kept p]
    by (auto simp: succeeds_iff algebra_simps intro: tc_kept_trans [OF kept])
qed

text \<open>Every interface entry is filed under its own interface number.\<close>

definition well_configured :: "(u32 \<rightharpoonup> iface_config_item) \<Rightarrow> bool" where
  "well_configured m \<longleftrightarrow> finite (dom m) \<and> (\<forall>k item. m k = Some item \<longrightarrow> port_of item = k)"

lemma fdb_flood_sends:
  assumes "tc_laws H" and "accepting H" and "held s = None" and "finite (dom (iface_config_map s))"
    and "plain_tag md (packet s)" and "iface_config_map s (skb_ingress_ifindex (skb s)) \<noteq> None"
  shows "succeeds (fdb_flood H md s) (\<lambda>(act, s'). act = TC_ACT_SHOT \<and> tc_kept s s' \<and> packet s' = packet s \<and>
    sent s' = sent s @ map (\<lambda>k. (entry_port s k, flood_frame md s k))
      (filter (flood_target md s) (h_iteration H (iface_config_map s))))"
  using for_each_sends [OF assms(2) tc_lawsD(1) [OF assms(1)] assms(3,5), of "h_iteration H (iface_config_map s)" 0]
    assms iterationD [OF assms(1,4)]
  by (auto simp: fdb_flood_def bpf_for_each_map_elem_def runs succeeds_iff)

lemma fdb_flood_safe:
  assumes "tc_laws H" and "held s = None" and "finite (dom (iface_config_map s))"
    and "iface_config_map s (skb_ingress_ifindex (skb s)) \<noteq> None"
  shows "succeeds (fdb_flood H md s) (\<lambda>(act, s'). act = TC_ACT_SHOT \<and> tc_kept s s' \<and>
    (\<exists>log. sent s' = sent s @ log \<and> subseq (map fst log) (map (entry_port s)
      (filter (flood_target md s) (h_iteration H (iface_config_map s))))))"
  using for_each_safe [OF tc_lawsD(1) [OF assms(1)] assms(2), of "h_iteration H (iface_config_map s)" md 0]
    assms iterationD [OF assms(1,3)]
  by (auto simp: fdb_flood_def bpf_for_each_map_elem_def runs succeeds_iff)

lemma entry_ports:
  assumes "well_configured (iface_config_map s)" and "set ks \<subseteq> dom (iface_config_map s)"
  shows "map (entry_port s) ks = ks"
  using assms by (auto intro!: map_idI simp: well_configured_def)

lemma fdb_flood_unknown_ingress:
  assumes "tc_laws H" and "held s = None" and "finite (dom (iface_config_map s))"
    and "iface_config_map s (skb_ingress_ifindex (skb s)) = None"
  shows "fdb_flood H md s = Some (TC_ACT_SHOT, s)"
proof -
  have keys: "set (h_iteration H (iface_config_map s)) = dom (iface_config_map s)"
    by (rule iterationD [OF assms(1,3)])
  have "for_each_key (tc_l2_out H \<lparr>flc_md = md\<rparr>) (h_iteration H (iface_config_map s)) 0 s \<in>
      {Some (0, s), Some (1, s)}"
  proof (cases "h_iteration H (iface_config_map s)")
    case (Cons k ks)
    with keys obtain out where "iface_config_map s k = Some out" by fastforce
    with Cons assms(2,4) show ?thesis by (simp add: tc_l2_out_run)
  qed simp
  then show ?thesis using assms(2) by (auto simp: fdb_flood_def bpf_for_each_map_elem_def runs)
qed

lemma flood_target_ports:
  assumes "well_configured (iface_config_map s)"
    and "iface_config_map s (skb_ingress_ifindex (skb s)) = Some inn"
  shows "{k. flood_target md s k} = {k. \<exists>out. iface_config_map s k = Some out \<and>
      ifc_mode (ici_config out) = IF_MODE_L2 \<and> k \<noteq> skb_ingress_ifindex (skb s) \<and>
      egress_member (ifc_l2 (ici_config out)) (md_vid md) \<and> \<not> (md_tagged md \<and> md_vid md = 0)}"
  using assms
  by (auto simp: flood_target_def eligible_def well_configured_def port_of_def split: option.splits)

lemma fdb_flood_members:
  assumes "tc_laws H" and "accepting H" and "held s = None" and "well_configured (iface_config_map s)"
    and "plain_tag md (packet s)" and "iface_config_map s (skb_ingress_ifindex (skb s)) \<noteq> None"
  shows "\<exists>s' log. fdb_flood H md s = Some (TC_ACT_SHOT, s') \<and> sent s' = sent s @ log \<and>
    distinct (map fst log) \<and>
    set (map fst log) = {k. \<exists>out. iface_config_map s k = Some out \<and>
      ifc_mode (ici_config out) = IF_MODE_L2 \<and> k \<noteq> skb_ingress_ifindex (skb s) \<and>
      egress_member (ifc_l2 (ici_config out)) (l2m_vlan_id (md_l2 md)) \<and>
      \<not> (md_tagged md \<and> l2m_vlan_id (md_l2 md) = 0)}"
proof -
  let ?ks = "filter (flood_target md s) (h_iteration H (iface_config_map s))"
  have fin: "finite (dom (iface_config_map s))" using assms(4) by (simp add: well_configured_def)
  note it = iterationD [OF assms(1) fin]
  have keys: "map (entry_port s) ?ks = ?ks"
    by (rule entry_ports [OF assms(4)]) (use it in auto)
  let ?log = "map (\<lambda>k. (entry_port s k, flood_frame md s k)) ?ks"
  obtain s' where s': "fdb_flood H md s = Some (TC_ACT_SHOT, s')" "sent s' = sent s @ ?log"
    using fdb_flood_sends [OF assms(1-3) fin assms(5,6)] by (auto simp: succeeds_iff)
  have log: "map fst ?log = ?ks" using keys by (simp add: comp_def)
  obtain inn where inn: "iface_config_map s (skb_ingress_ifindex (skb s)) = Some inn"
    using assms(6) by auto
  have "set ?ks = {k. flood_target md s k}"
    using it by (auto simp: flood_target_def split: option.splits)
  then show ?thesis
    unfolding flood_target_ports [OF assms(4) inn, symmetric]
    using s' it(1) by (intro exI [of _ s'] exI [of _ ?log]) (simp only: log distinct_filter simp_thms)
qed

lemma fdb_flood_confined:
  assumes "tc_laws H" and "held s = None" and "well_configured (iface_config_map s)"
  shows "\<exists>s' log. fdb_flood H md s = Some (TC_ACT_SHOT, s') \<and> tc_kept s s' \<and> sent s' = sent s @ log \<and>
    distinct (map fst log) \<and>
    (\<forall>(i, f)\<in>set log. i \<noteq> skb_ingress_ifindex (skb s) \<and>
       (\<exists>out. iface_config_map s i = Some out \<and> ifc_mode (ici_config out) = IF_MODE_L2 \<and>
          egress_member (ifc_l2 (ici_config out)) (l2m_vlan_id (md_l2 md))))"
proof (cases "iface_config_map s (skb_ingress_ifindex (skb s))")
  case None
  then show ?thesis
    using fdb_flood_unknown_ingress [OF assms(1,2)] assms(3) by (auto simp: well_configured_def)
next
  case (Some inn)
  let ?ks = "filter (flood_target md s) (h_iteration H (iface_config_map s))"
  have fin: "finite (dom (iface_config_map s))" using assms(3) by (simp add: well_configured_def)
  note it = iterationD [OF assms(1) fin]
  have keys: "map (entry_port s) ?ks = ?ks"
    by (rule entry_ports [OF assms(3)]) (use it in auto)
  obtain s' log where s': "fdb_flood H md s = Some (TC_ACT_SHOT, s')" "tc_kept s s'" "sent s' = sent s @ log"
    and sub: "subseq (map fst log) ?ks"
    using fdb_flood_safe [OF assms(1,2) fin, of md] Some
    unfolding keys succeeds_iff by blast
  have "distinct (map fst log)"
    using it(1) sub by (auto simp: subseq_conv_nths)
  moreover have "flood_target md s i" if "(i, f) \<in> set log" for i f
  proof -
    have "i \<in> set (map fst log)" using that by force
    then have "i \<in> set ?ks" by (rule list_emb_set [OF sub]) simp
    then show ?thesis by simp
  qed
  ultimately show ?thesis
    using s' flood_target_ports [OF assms(3) Some, of md]
    by (intro exI [of _ s'] exI [of _ log]) blast
qed

section \<open>Properties\<close>

definition sample_md :: "u32 \<Rightarrow> u32 \<Rightarrow> dp_metadata" where
  "sample_md flags vid =
     \<lparr>md_magic = DP_META_MAGIC, md_meta_type = DP_META_L2, md_l2 = \<lparr>l2m_flags = flags, l2m_vlan_id = vid\<rparr>,
      md_l3 = \<lparr>l3m_flags = 0\<rparr>\<rparr>"

definition sample_tc :: "u8 list \<Rightarrow> u32 \<Rightarrow> (u32 \<rightharpoonup> iface_config_item) \<Rightarrow> tc_state" where
  "sample_tc f ifi m =
     \<lparr>iface_config_map = m, fdb_table = Map.empty, held = None,
      skb = \<lparr>skb_ingress_ifindex = ifi, skb_data = 4096, skb_data_meta = 4072, skb_packet = f\<rparr>,
      tc_mem = (\<lambda>_. 0), sent = []\<rparr>"

lemma sample_tc_sel [simp]:
  "iface_config_map (sample_tc f i m) = m" "held (sample_tc f i m) = None" "sent (sample_tc f i m) = []"
  "packet (sample_tc f i m) = f" "skb_ingress_ifindex (skb (sample_tc f i m)) = i"
  by (simp_all add: sample_tc_def)

lemma sample_md_sel [simp]: "md_vid (sample_md flags vid) = vid"
  "md_tagged (sample_md flags vid) \<longleftrightarrow> flags AND L2_VLAN_PACKET \<noteq> 0"
  by (simp_all add: sample_md_def md_tagged_def)

lemma sample_ifaces_sel [simp]:
  "dom sample_ifaces = {1, 2, 3}" "sample_ifaces 1 = Some (sample_item 1 VLAN_ACCESS 5)"
  "sample_ifaces 2 = Some (sample_item 2 VLAN_ACCESS 5)" "sample_ifaces 3 = Some (sample_item 3 VLAN_TRUNK 5)"
  by (auto simp: sample_ifaces_def split: if_splits)

lemma sample_well_configured [simp]: "well_configured sample_ifaces"
  by (auto simp: well_configured_def sample_ifaces_def sample_item_def sample_config_def port_of_def
    split: if_splits)



text \<open>With every interface filed under its own number, the flood reaches each member port of
  the VLAN once, all of them, and never the port the frame came from.\<close>

theorem flood_reaches_vlan_members:
  assumes "tc_laws H" and "accepting H" and "held s = None" and "well_configured (iface_config_map s)"
    and "plain_tag md (packet s)" and "iface_config_map s (skb_ingress_ifindex (skb s)) \<noteq> None"
  shows "\<exists>s' log. fdb_flood H md s = Some (TC_ACT_SHOT, s') \<and> sent s' = sent s @ log \<and>
    distinct (map fst log) \<and>
    set (map fst log) = {k. \<exists>out. iface_config_map s k = Some out \<and>
      ifc_mode (ici_config out) = IF_MODE_L2 \<and> k \<noteq> skb_ingress_ifindex (skb s) \<and>
      egress_member (ifc_l2 (ici_config out)) (l2m_vlan_id (md_l2 md)) \<and>
      \<not> (md_tagged md \<and> l2m_vlan_id (md_l2 md) = 0)}"
  by (rule fdb_flood_members [OF assms])

theorem flood_reaches_vlan_members_witness:
  "\<exists>s' log. fdb_flood (ref_tc_helpers []) (sample_md 2 5)
      (sample_tc (plain_frame mac_a mac_b) 1 sample_ifaces) = Some (TC_ACT_SHOT, s') \<and>
    sent s' = log \<and> distinct (map fst log) \<and> 2 \<in> set (map fst log) \<and> 1 \<notin> set (map fst log)"
proof -
  let ?s = "sample_tc (plain_frame mac_a mac_b) 1 sample_ifaces" and ?md = "sample_md 2 5"
  have "plain_tag ?md (packet ?s)" by (simp add: plain_tag_def L2_VLAN_PACKET_def)
  with flood_reaches_vlan_members [OF ref_tc_laws ref_tc_accepting, of ?s ?md]
  obtain s' log where l: "fdb_flood (ref_tc_helpers []) ?md ?s = Some (TC_ACT_SHOT, s')" "sent s' = log"
    "distinct (map fst log)"
    and set: "set (map fst log) = {k. \<exists>out. sample_ifaces k = Some out \<and>
      ifc_mode (ici_config out) = IF_MODE_L2 \<and> k \<noteq> 1 \<and> egress_member (ifc_l2 (ici_config out)) 5 \<and>
      \<not> (md_tagged ?md \<and> (5 :: u32) = 0)}"
    by auto
  have "2 \<in> set (map fst log)" "1 \<notin> set (map fst log)"
    unfolding set by (simp_all add: egress_member_def sample_item_def sample_config_def sample_l2_def)
  with l show ?thesis by blast
qed

text \<open>Whatever the kernel refuses, a flood sends to no port twice, to no port outside the VLAN and
  not back to the ingress port; the original is dropped, and maps, metadata and locks are as
  before.\<close>

theorem flood_safety:
  assumes "tc_laws H" and "held s = None" and "well_configured (iface_config_map s)"
  shows "\<exists>s' log. fdb_flood H md s = Some (TC_ACT_SHOT, s') \<and> tc_kept s s' \<and> sent s' = sent s @ log \<and>
    distinct (map fst log) \<and>
    (\<forall>(i, f)\<in>set log. i \<noteq> skb_ingress_ifindex (skb s) \<and>
       (\<exists>out. iface_config_map s i = Some out \<and> ifc_mode (ici_config out) = IF_MODE_L2 \<and>
          egress_member (ifc_l2 (ici_config out)) (l2m_vlan_id (md_l2 md))))"
  by (rule fdb_flood_confined [OF assms])

theorem flood_safety_witness:
  "\<exists>s' log. fdb_flood (ref_tc_helpers [2]) (sample_md 2 5)
      (sample_tc (plain_frame mac_a mac_b) 1 sample_ifaces) = Some (TC_ACT_SHOT, s') \<and>
    sent s' = log \<and> 1 \<notin> set (map fst log)"
  using flood_safety [OF ref_tc_laws, of "sample_tc (plain_frame mac_a mac_b) 1 sample_ifaces" "[2]" "sample_md 2 5"]
  by fastforce

text \<open>A flood of a frame whose ingress interface has no configuration sends nothing.\<close>

theorem flood_unknown_ingress_sends_nothing:
  assumes "tc_laws H" and "held s = None" and "finite (dom (iface_config_map s))"
    and "iface_config_map s (skb_ingress_ifindex (skb s)) = None"
  shows "fdb_flood H md s = Some (TC_ACT_SHOT, s)"
  by (rule fdb_flood_unknown_ingress [OF assms])

theorem flood_unknown_ingress_sends_nothing_witness:
  "fdb_flood (ref_tc_helpers []) (sample_md 2 5) (sample_tc (plain_frame mac_a mac_b) 9 sample_ifaces) =
     Some (TC_ACT_SHOT, sample_tc (plain_frame mac_a mac_b) 9 sample_ifaces)"
  using flood_unknown_ingress_sends_nothing
    [of "ref_tc_helpers []" "sample_tc (plain_frame mac_a mac_b) 9 sample_ifaces" "sample_md 2 5"]
  by (simp add: sample_ifaces_def)

lemma tc_l2_out_decap_failed:
  assumes "held s = None" and "iface_config_map s k = Some out"
    and "iface_config_map s (skb_ingress_ifindex (skb s)) = Some inn"
    and "l2_egress (ici_config out) (ici_config inn) (md_vid md) (md_tagged md) = Decap"
    and "h_vlan_pop H (skb s) = (0, b)" and "h_clone_redirect H (port_of out) 0 b (sent s) \<noteq> 0"
  shows "tc_l2_out H \<lparr>flc_md = md\<rparr> k s = Some (0, s\<lparr>skb := b\<rparr>)"
  using assms
  by (simp add: tc_l2_out_run l2_out_perform tc_l2_decap_vlan_and_send_def bpf_skb_vlan_pop_def runs)

lemma tc_l2_out_direct_granted:
  assumes "held s = None" and "iface_config_map s k = Some out"
    and "iface_config_map s (skb_ingress_ifindex (skb s)) = Some inn"
    and "l2_egress (ici_config out) (ici_config inn) (md_vid md) (md_tagged md) = Direct"
    and "h_clone_redirect H (port_of out) 0 (skb s) (sent s) = 0"
  shows "tc_l2_out H \<lparr>flc_md = md\<rparr> k s = Some (0, s\<lparr>sent := sent s @ [(port_of out, packet s)]\<rparr>)"
  using assms by (simp add: tc_l2_out_run l2_out_perform tc_l2_send_directly_def runs)

text \<open>C35: a port that fails between stripping the tag and sending spoils the flood for the ports
  after it: the tag is not put back, and a trunk that should get the tagged frame gets it without
  its tag, that is, in its native VLAN.\<close>

theorem failed_clone_strips_later_ports:
  assumes "vlan_law H" and "held s = None" and "frame_is_tagged (packet s)"
    and "iface_config_map s (skb_ingress_ifindex (skb s)) = Some inn"
    and "iface_config_map s k = Some out" and "iface_config_map s k2 = Some out2"
    and "l2_egress (ici_config out) (ici_config inn) (l2m_vlan_id (md_l2 md)) (md_tagged md) = Decap"
    and "l2_egress (ici_config out2) (ici_config inn) (l2m_vlan_id (md_l2 md)) (md_tagged md) = Direct"
    and "h_vlan_pop H (skb s) = (0, b)"
    and "h_clone_redirect H (port_of out) 0 b (sent s) \<noteq> 0"
    and "h_clone_redirect H (port_of out2) 0 b (sent s) = 0"
  shows "for_each_key (tc_l2_out H \<lparr>flc_md = md\<rparr>) [k, k2] 0 s =
    Some (2, s\<lparr>skb := b, sent := sent s @ [(port_of out2, untag_frame (packet s))]\<rparr>)"
proof -
  have b: "skb_packet b = untag_frame (packet s)"
    "skb_ingress_ifindex b = skb_ingress_ifindex (skb s)"
    using popD [OF assms(1,9)] assms(3) by simp_all
  have "tc_l2_out H \<lparr>flc_md = md\<rparr> k s = Some (0, s\<lparr>skb := b\<rparr>)"
    by (rule tc_l2_out_decap_failed [OF assms(2,5,4,7,9,10)])
  moreover have "tc_l2_out H \<lparr>flc_md = md\<rparr> k2 (s\<lparr>skb := b\<rparr>) =
      Some (0, s\<lparr>skb := b, sent := sent s @ [(port_of out2, untag_frame (packet s))]\<rparr>)"
    using tc_l2_out_direct_granted [of "s\<lparr>skb := b\<rparr>" k2 out2 inn md H] assms b by simp
  ultimately show ?thesis by simp
qed

text \<open>Here the frame of VLAN 12 leaves trunk 3 untagged, and so in VLAN 5.\<close>

theorem failed_clone_strips_later_ports_witness:
  "\<exists>s'. for_each_key (tc_l2_out (ref_tc_helpers [2]) \<lparr>flc_md = sample_md 3 12\<rparr>) [2, 3] 0
      (sample_tc (tagged_frame mac_a mac_b 12) 1
        [1 \<mapsto> sample_item 1 VLAN_TRUNK 7, 2 \<mapsto> sample_item 2 VLAN_ACCESS 12, 3 \<mapsto> sample_item 3 VLAN_TRUNK 5]) =
      Some (2, s') \<and> sent s' = [(3, plain_frame mac_a mac_b)]"
proof -
  let ?f = "tagged_frame mac_a mac_b 12"
  let ?m = "[1 \<mapsto> sample_item 1 VLAN_TRUNK 7, 2 \<mapsto> sample_item 2 VLAN_ACCESS 12, 3 \<mapsto> sample_item 3 VLAN_TRUNK 5]"
  let ?s = "sample_tc ?f 1 ?m"
  have tag: "frame_is_tagged ?f"
    by (simp add: frame_is_tagged_def tagged_frame_def mac_a_def mac_b_def bytes16_htons ETH_P_8021Q_def)
  have untag: "untag_frame ?f = plain_frame mac_a mac_b"
    by (simp add: untag_frame_def tagged_frame_def plain_frame_def mac_a_def mac_b_def)
  have flags: "md_tagged (sample_md 3 12)" by (simp add: L2_VLAN_PACKET_def)
  note egress = l2_egress_def eligible_def egress_member_def in_range_def sample_item_def sample_config_def
    sample_l2_def VLAN_TRUNK_def VLAN_ACCESS_def
  have e: "l2_egress (ici_config (sample_item 2 VLAN_ACCESS 12)) (ici_config (sample_item 1 VLAN_TRUNK 7)) 12 True = Decap"
    "l2_egress (ici_config (sample_item 3 VLAN_TRUNK 5)) (ici_config (sample_item 1 VLAN_TRUNK 7)) 12 True = Direct"
    by (simp_all add: egress)
  have ports: "port_of (sample_item i m v) = i" for i m v
    by (simp add: port_of_def sample_item_def sample_config_def)
  show ?thesis
    using failed_clone_strips_later_ports [of "ref_tc_helpers [2]" ?s "sample_item 1 VLAN_TRUNK 7" 2
        "sample_item 2 VLAN_ACCESS 12" 3 "sample_item 3 VLAN_TRUNK 5" "sample_md 3 12"
        "(skb ?s)\<lparr>skb_packet := untag_frame ?f\<rparr>"]
    by (simp add: tag e untag flags ports tc_lawsD(1) [OF ref_tc_laws] ref_vlan_pop_def del: sample_md_sel(2))
qed

end
