(* ===== verification/Dataplane.thy ===== *)
theory Dataplane
  imports Xdp_Out Tc_Flood
begin

text \<open>
  The programs of dataplane.c: \<open>xdp_process\<close>, which dispatches on the mode of the ingress
  interface by tail call, the layer-2 and layer-3 programs it calls, and the TC programs that
  flood what the XDP side has marked. \<open>bpf_printk\<close> lines are left out, except that the bytes
  they print are read.
\<close>

section \<open>XDP programs\<close>

definition print_mac :: "addr \<Rightarrow> xdp_state \<Rightarrow> unit option" where
  "print_mac mac s = do { bytes \<leftarrow> rd mac 6 s; Some () }"

text \<open>The VLAN part of the layer-2 program: \<open>None\<close> drops the frame.\<close>

definition l2_parse_vlan :: "addr \<Rightarrow> u16 \<Rightarrow> xdp_state \<Rightarrow> addr option option" where
  "l2_parse_vlan ether_header eth_proto s =
     (if eth_proto = ETH_P_8021Q \<or> eth_proto = ETH_P_8021AD then
        (case ethernet_vlan_hdr (ctx s) ether_header of
           None \<Rightarrow> Some None
         | Some vlan_header \<Rightarrow> do {
             proto \<leftarrow> rd16 (ptr_add vlan_header 2) s;
             let eth_proto = bpf_ntohs False proto;
             if eth_proto = ETH_P_8021Q \<or> eth_proto = ETH_P_8021AD then Some None
             else do {
               tci \<leftarrow> rd16 vlan_header s;
               let vlan_tci = (ucast (bpf_ntohs False tci) :: u32) AND 0x0FFF;
               if vlan_tci = 0 then Some None
               else (case header_next (ctx s) (ptr_add vlan_header sizeof_vlan_hdr) of
                       None \<Rightarrow> Some None
                     | Some ether_next_data \<Rightarrow> Some (Some vlan_header))
             }
           })
      else Some (Some NULL))"

text \<open>The forwarding part: use the port in the cache, or flood.\<close>

definition l2_forward ::
  "xdp_helpers \<Rightarrow> addr \<Rightarrow> addr \<Rightarrow> u32 \<Rightarrow> xdp_state \<Rightarrow> (xdp_action \<times> xdp_state) option" where
  "l2_forward H ether_header vlan_header vlan_id s = do {
     cache \<leftarrow> xdp_forward_config_cache s 0;
     if fv_ifindex (fc_fdb_value cache) = 0 then do {
       source \<leftarrow> rd (ptr_add ether_header 6) 6 s;
       fdb_flood_tag H ether_header vlan_header vlan_id s
     } else do {
       let out_if_index = fv_ifindex (fc_fdb_value cache);
       out_item \<leftarrow> lookup_iface out_if_index s;
       (case out_item of
          None \<Rightarrow> Some (XDP_DROP, s)
        | Some _ \<Rightarrow> do {
            (out_config, s) \<leftarrow> snapshot_iface out_if_index s;
            let s = s\<lparr>xdp_forward_config_cache := (xdp_forward_config_cache s)
              (0 \<mapsto> cache\<lparr>fc_out_if_config := out_config\<rparr>)\<rparr>;
            xdp_l2_out H ether_header vlan_header vlan_id s
          })
     }
   }"

definition xdp_l2_process :: "xdp_helpers \<Rightarrow> xdp_state \<Rightarrow> (xdp_action \<times> xdp_state) option" where
  "xdp_l2_process H s = do {
     cache \<leftarrow> lookup_cache 0 s;
     (case cache of
        None \<Rightarrow> Some (XDP_DROP, s)
      | Some cache \<Rightarrow>
          if ifc_ifindex (fc_in_if_config cache) = 0 then Some (XDP_DROP, s)
          else (case ethernet_ethhdr (ctx s) of
            None \<Rightarrow> Some (XDP_DROP, s)
          | Some ether_header \<Rightarrow>
              (case header_next (ctx s) (ptr_add ether_header sizeof_ethhdr) of
                 None \<Rightarrow> Some (XDP_DROP, s)
               | Some ether_next_data \<Rightarrow> do {
                   print_mac (ptr_add ether_header 6) s;
                   print_mac ether_header s;
                   proto \<leftarrow> rd16 (ptr_add ether_header 12) s;
                   vlan \<leftarrow> l2_parse_vlan ether_header (bpf_ntohs False proto) s;
                   (case vlan of
                      None \<Rightarrow> Some (XDP_DROP, s)
                    | Some vlan_header \<Rightarrow> do {
                        (act, vlan_id) \<leftarrow> l2_recv_vlan (fc_in_if_config cache) ether_header vlan_header 0 s;
                        if act \<noteq> XDP_PASS then Some (XDP_DROP, s)
                        else do {
                          s \<leftarrow> fdb_learning H ether_header vlan_header vlan_id s;
                          s \<leftarrow> fdb_lookup ether_header vlan_header vlan_id s;
                          l2_forward H ether_header vlan_header vlan_id s
                        }
                      })
                 })))
   }"

definition xdp_l3_process :: "xdp_state \<Rightarrow> (xdp_action \<times> xdp_state) option" where
  "xdp_l3_process s = do {
     cache \<leftarrow> lookup_cache 0 s;
     (case cache of
        None \<Rightarrow> Some (XDP_DROP, s)
      | Some cache \<Rightarrow>
          if ifc_ifindex (fc_in_if_config cache) = 0 then Some (XDP_DROP, s)
          else (case ethernet_ethhdr (ctx s) of
            None \<Rightarrow> Some (XDP_DROP, s)
          | Some ether_header \<Rightarrow>
              (case header_next (ctx s) (ptr_add ether_header sizeof_ethhdr) of
                 None \<Rightarrow> Some (XDP_DROP, s)
               | Some ether_next_data \<Rightarrow> do {
                   proto \<leftarrow> rd16 (ptr_add ether_header 12) s;
                   let eth_proto = bpf_ntohs False proto;
                   if eth_proto = ETH_P_8021Q \<or> eth_proto = ETH_P_8021AD then
                     (case ethernet_vlan_hdr (ctx s) ether_header of
                        None \<Rightarrow> Some (XDP_DROP, s)
                      | Some vlan_header \<Rightarrow> do {
                          proto \<leftarrow> rd16 (ptr_add vlan_header 2) s;
                          let eth_proto = bpf_ntohs False proto;
                          if eth_proto = ETH_P_8021Q \<or> eth_proto = ETH_P_8021AD then Some (XDP_DROP, s)
                          else do {
                            tci \<leftarrow> rd16 vlan_header s;
                            (case header_next (ctx s) (ptr_add vlan_header sizeof_vlan_hdr) of
                               None \<Rightarrow> Some (XDP_DROP, s)
                             | Some ether_next_data \<Rightarrow> Some (XDP_DROP, s))
                          }
                        })
                   else
                     (let ret = XDP_DROP in
                      if eth_proto = ETH_P_ARP then Some (ret, s)
                      else if eth_proto = ETH_P_IP then Some (ret, s)
                      else if eth_proto = ETH_P_IPV6 then Some (ret, s)
                      else Some (XDP_DROP, s))
                 })))
   }"

text \<open>
  A tail call that succeeds runs the program in the slot and never comes back; one that fails has
  no effect. It fails when the slot is empty, and when the kernel's limit is reached.
\<close>

definition xdp_tail_call :: "xdp_helpers \<Rightarrow> u32 \<Rightarrow> xdp_state \<Rightarrow> xdp_prog option option" where
  "xdp_tail_call H i s = helper_call s (if h_tail_call H i then xdp_jmp_table i else None)"

fun run_xdp_prog :: "xdp_helpers \<Rightarrow> xdp_prog \<Rightarrow> xdp_state \<Rightarrow> (xdp_action \<times> xdp_state) option" where
  "run_xdp_prog H Xdp_l2_process s = xdp_l2_process H s"
| "run_xdp_prog H Xdp_l3_process s = xdp_l3_process s"

definition xdp_process :: "xdp_helpers \<Rightarrow> xdp_state \<Rightarrow> (xdp_action \<times> xdp_state) option" where
  "xdp_process H s = do {
     cache \<leftarrow> lookup_cache 0 s;
     (case cache of
        None \<Rightarrow> Some (XDP_DROP, s)
      | Some cache \<Rightarrow> do {
          let ifi = ingress_ifindex (ctx s);
          item \<leftarrow> lookup_iface ifi s;
          (case item of
             None \<Rightarrow> Some (XDP_DROP, s)
           | Some _ \<Rightarrow> do {
               (config, s) \<leftarrow> snapshot_iface ifi s;
               let s = s\<lparr>xdp_forward_config_cache := (xdp_forward_config_cache s)
                 (0 \<mapsto> cache\<lparr>fc_in_if_config := config\<rparr>)\<rparr>;
               prog \<leftarrow> (if ifc_mode config = IF_MODE_L2 then xdp_tail_call H XDP_ID_L2 s
                 else if ifc_mode config = IF_MODE_L3 then xdp_tail_call H XDP_ID_L3 s
                 else Some None);
               (case prog of
                  Some p \<Rightarrow> run_xdp_prog H p s
                | None \<Rightarrow> Some (XDP_DROP, s))
             })
        })
   }"

section \<open>TC programs\<close>

definition tc_rd :: "addr \<Rightarrow> nat \<Rightarrow> tc_state \<Rightarrow> u8 list option" where
  "tc_rd p n s =
     (if unat (skb_data_meta (skb s)) \<le> unat p \<and> unat p + n \<le> unat (skb_data (skb s))
      then Some (load_bytes (tc_mem s) p n) else None)"

definition tc_rd32 :: "addr \<Rightarrow> tc_state \<Rightarrow> u32 option" where
  "tc_rd32 p s = do { bs \<leftarrow> tc_rd p 4 s; Some (word32 bs) }"

definition tc_ingress_l2 :: "tc_helpers \<Rightarrow> tc_state \<Rightarrow> (int \<times> tc_state) option" where
  "tc_ingress_l2 H s =
     (let data = ptr (skb_data (skb s)); md = ptr (skb_data_meta (skb s)) in
      if data < ptr_add md sizeof_dp_metadata then Some (TC_ACT_SHOT, s)
      else do {
        magic \<leftarrow> tc_rd32 (ptr_add md off_magic) s;
        if magic \<noteq> DP_META_MAGIC then Some (TC_ACT_SHOT, s)
        else do {
          flags \<leftarrow> tc_rd32 (ptr_add md off_l2_flags) s;
          if flags AND L2_FLOOD \<noteq> 0 then do {
            bs \<leftarrow> tc_rd md sizeof_dp_metadata s;
            fdb_flood H (decode_dp_metadata bs) s
          } else Some (TC_ACT_SHOT, s)
        }
      })"

definition tc_ingress_l3 :: "tc_state \<Rightarrow> (int \<times> tc_state) option" where
  "tc_ingress_l3 s = Some (TC_ACT_SHOT, s)"

definition tc_tail_call :: "tc_helpers \<Rightarrow> u32 \<Rightarrow> tc_state \<Rightarrow> tc_prog option option" where
  "tc_tail_call H i s = helper_call s (if h_tc_tail_call H i then tc_jmp_table i else None)"

fun run_tc_prog :: "tc_helpers \<Rightarrow> tc_prog \<Rightarrow> tc_state \<Rightarrow> (int \<times> tc_state) option" where
  "run_tc_prog H Tc_ingress_l2 s = tc_ingress_l2 H s"
| "run_tc_prog H Tc_ingress_l3 s = tc_ingress_l3 s"

definition tc_ingress :: "tc_helpers \<Rightarrow> tc_state \<Rightarrow> (int \<times> tc_state) option" where
  "tc_ingress H s =
     (let data = ptr (skb_data (skb s)); md = ptr (skb_data_meta (skb s)) in
      if data < ptr_add md sizeof_dp_metadata then Some (TC_ACT_OK, s)
      else do {
        magic \<leftarrow> tc_rd32 (ptr_add md off_magic) s;
        if DP_META_MAGIC \<noteq> magic then Some (TC_ACT_OK, s)
        else do {
          meta_type \<leftarrow> tc_rd32 (ptr_add md off_meta_type) s;
          prog \<leftarrow> (if meta_type = DP_META_L2 then tc_tail_call H TC_INGRESS_ID_L2 s
            else if meta_type = DP_META_L3 then tc_tail_call H TC_INGRESS_ID_L3 s
            else Some None);
          (case prog of
             Some p \<Rightarrow> run_tc_prog H p s
           | None \<Rightarrow> Some (TC_ACT_OK, s))
        }
      })"

end
