(* ===== verification/Forwarding.thy ===== *)
theory Forwarding
  imports Dataplane
begin

text \<open>
  What the programs of dataplane.c do, as decisions over the frame, the configuration, the
  forwarding database and the cached lookup result: the parse of a frame, the decision for it,
  and the program's runs as rewrite rules over them.
\<close>

section \<open>Parsing a frame\<close>

definition type_at :: "nat \<Rightarrow> u8 list \<Rightarrow> u16" where
  "type_at n f = bpf_ntohs False (word16 (take 2 (drop n f)))"

definition vlan_type :: "u16 \<Rightarrow> bool" where
  "vlan_type t \<longleftrightarrow> t = ETH_P_8021Q \<or> t = ETH_P_8021AD"

definition frame_vid :: "u8 list \<Rightarrow> u32" where
  "frame_vid f = (ucast (type_at 14 f) :: u32) AND 0x0FFF"

text \<open>Whether a frame is tagged, or \<open>None\<close> when it is malformed or has a tag the switch does not
  take: two tags, or VLAN 0.\<close>

definition parse_frame :: "u8 list \<Rightarrow> bool option" where
  "parse_frame f =
     (if length f < 14 then None
      else if \<not> vlan_type (type_at 12 f) then Some False
      else if length f < 18 \<or> vlan_type (type_at 16 f) \<or> frame_vid f = 0 then None
      else Some True)"

lemma tag_vid_frame: "tag_vid s = frame_vid (frame s)"
  by (simp add: tag_vid_def frame_vid_def type_at_def)

lemma parse_frame_len:
  "parse_frame f = Some t \<Longrightarrow> 14 \<le> length f \<and> (t \<longrightarrow> 18 \<le> length f)"
  by (auto simp: parse_frame_def split: if_splits)

lemma l2_parse_vlan_run [runs]:
  assumes "has_eth s"
  shows "l2_parse_vlan (ptr (data (ctx s))) (type_at 12 (frame s)) s =
    Some (case parse_frame (frame s) of None \<Rightarrow> None | Some t \<Rightarrow> Some (vlan_ptr s t))"
proof -
  have len: "14 \<le> pkt_len (ctx s)" using assms by (simp add: has_eth_len)
  show ?thesis
  proof (cases "vlan_type (type_at 12 (frame s)) \<and> 18 \<le> pkt_len (ctx s)")
    case True
    then have room: "unat (data (ctx s)) + 18 \<le> unat (data_end (ctx s))"
      by (auto simp: pkt_len_def)
    with True len show ?thesis
      by (simp add: l2_parse_vlan_def parse_frame_def vlan_type_def [symmetric] runs type_at_def [symmetric]
        frame_vid_def [symmetric] vlan_ptr_def sizeof_defs Let_def)
  next
    case False
    then show ?thesis
      using len by (auto simp: l2_parse_vlan_def parse_frame_def vlan_type_def runs vlan_ptr_def
        not_le pkt_len_def)
  qed
qed

section \<open>The decision for a frame\<close>

datatype decision = Discard | Flood bool u32 | Forward bool u32 u32

definition learned_table :: "xdp_helpers \<Rightarrow> xdp_state \<Rightarrow> u32 \<Rightarrow> (fdb_key \<rightharpoonup> fdb_value_item)" where
  "learned_table H s vid = learned H (src_key s vid) (ingress_ifindex (ctx s), ktime s) (fdb_table s)"

definition l2_decide :: "xdp_helpers \<Rightarrow> forward_config \<Rightarrow> xdp_state \<Rightarrow> decision" where
  "l2_decide H fc s =
     (case parse_frame (frame s) of
        None \<Rightarrow> Discard
      | Some tagged \<Rightarrow>
          (case admit (ifc_l2 (fc_in_if_config fc)) (frame_tag s tagged) of
             None \<Rightarrow> Discard
           | Some vid \<Rightarrow>
               (case found (dst_key s vid) (learned_table H s vid) of
                  Some p \<Rightarrow> Forward tagged vid p
                | None \<Rightarrow>
                    if fv_ifindex (fc_fdb_value fc) = 0 then Flood tagged vid
                    else Forward tagged vid (fv_ifindex (fc_fdb_value fc)))))"

text \<open>The cache element after the lookup, and the state forwarding starts in.\<close>

definition looked_up :: "xdp_helpers \<Rightarrow> forward_config \<Rightarrow> xdp_state \<Rightarrow> u32 \<Rightarrow> forward_config" where
  "looked_up H fc s vid =
     (if found (dst_key s vid) (learned_table H s vid) = None then fc
      else fc\<lparr>fc_fdb_value := fvi_value (the (learned_table H s vid (dst_key s vid)))\<rparr>)"

definition after_lookup :: "xdp_helpers \<Rightarrow> forward_config \<Rightarrow> xdp_state \<Rightarrow> u32 \<Rightarrow> xdp_state" where
  "after_lookup H fc s vid =
     s\<lparr>fdb_table := learned_table H s vid,
       xdp_forward_config_cache := (xdp_forward_config_cache s)(0 \<mapsto> looked_up H fc s vid)\<rparr>"

lemma after_lookup_sel [simp]:
  "ctx (after_lookup H fc s vid) = ctx s" "mem (after_lookup H fc s vid) = mem s"
  "held (after_lookup H fc s vid) = held s"
  "iface_config_map (after_lookup H fc s vid) = iface_config_map s"
  "fdb_table (after_lookup H fc s vid) = learned_table H s vid"
  "xdp_forward_config_cache (after_lookup H fc s vid) 0 = Some (looked_up H fc s vid)"
  "redirect_to (after_lookup H fc s vid) = redirect_to s"
  "ktime (after_lookup H fc s vid) = ktime s"
  by (simp_all add: after_lookup_def)

lemma learn_then_lookup:
  assumes "held s = None" and "has_eth s" and fc: "xdp_forward_config_cache s 0 = Some fc"
  shows "do { s1 \<leftarrow> fdb_learning H (ptr (data (ctx s))) vh vid s;
      s2 \<leftarrow> fdb_lookup (ptr (data (ctx s))) vh vid s1; f s2 } = f (after_lookup H fc s vid)"
proof -
  let ?s = "s\<lparr>fdb_table := learned_table H s vid\<rparr>"
  have k: "dst_key ?s vid = dst_key s vid" by (simp add: dst_key_def)
  have "(xdp_forward_config_cache s)(0 \<mapsto> fc) = xdp_forward_config_cache s"
    using fc by (simp add: fun_upd_idem)
  moreover have "fdb_lookup (ptr (data (ctx ?s))) vh vid ?s = Some (after_lookup H fc s vid)"
    using fdb_lookup_run [of ?s fc vh vid] assms k calculation
    by (auto simp: has_eth_def after_lookup_def looked_up_def)
  ultimately show ?thesis
    using assms by (simp add: fdb_learning_run learned_table_def)
qed

lemma looked_up_port:
  "fv_ifindex (fc_fdb_value (looked_up H fc s vid)) =
     (case found (dst_key s vid) (learned_table H s vid) of
        Some p \<Rightarrow> p | None \<Rightarrow> fv_ifindex (fc_fdb_value fc))"
  by (auto simp: looked_up_def found_def split: option.splits)

lemma looked_up_in [simp]: "fc_in_if_config (looked_up H fc s vid) = fc_in_if_config fc"
  by (simp add: looked_up_def)

lemma found_nonzero: "found k t = Some p \<Longrightarrow> p \<noteq> 0"
  by (auto simp: found_def split: option.splits if_splits)

text \<open>The state in which the frame is sent to the port of an interface entry.\<close>

definition sending :: "xdp_helpers \<Rightarrow> forward_config \<Rightarrow> xdp_state \<Rightarrow> u32 \<Rightarrow> iface_config_item \<Rightarrow> xdp_state" where
  "sending H fc s vid out =
     (after_lookup H fc s vid)\<lparr>xdp_forward_config_cache :=
       (xdp_forward_config_cache (after_lookup H fc s vid))
         (0 \<mapsto> (looked_up H fc s vid)\<lparr>fc_out_if_config := ici_config out\<rparr>)\<rparr>"

lemma sending_sel [simp]:
  "ctx (sending H fc s vid out) = ctx s" "mem (sending H fc s vid out) = mem s"
  "held (sending H fc s vid out) = held s" "iface_config_map (sending H fc s vid out) = iface_config_map s"
  "fdb_table (sending H fc s vid out) = learned_table H s vid"
  "xdp_forward_config_cache (sending H fc s vid out) 0 =
     Some ((looked_up H fc s vid)\<lparr>fc_out_if_config := ici_config out\<rparr>)"
  "redirect_to (sending H fc s vid out) = redirect_to s" "ktime (sending H fc s vid out) = ktime s"
  by (simp_all add: sending_def)

lemma l2_forward_run:
  assumes "held s = None" and "has_eth s"
  shows "l2_forward H (ptr (data (ctx s))) vh vid (after_lookup H fc s vid) =
    (let p = fv_ifindex (fc_fdb_value (looked_up H fc s vid)) in
     if p = 0 then fdb_flood_tag H (ptr (data (ctx s))) vh vid (after_lookup H fc s vid)
     else (case iface_config_map s p of
             None \<Rightarrow> Some (XDP_DROP, after_lookup H fc s vid)
           | Some out \<Rightarrow> xdp_l2_out H (ptr (data (ctx s))) vh vid (sending H fc s vid out)))"
proof -
  have "rd (ptr_add (ptr (data (ctx s))) 6) 6 (after_lookup H fc s vid) = Some (take 6 (drop 6 (frame s)))"
    using rd_off [of "after_lookup H fc s vid" 6 6] assms(2) by (simp add: has_eth_def)
  with assms(1) show ?thesis
    by (simp add: l2_forward_def runs sending_def Let_def split: option.splits)
qed

lemma xdp_l2_process_run:
  assumes "held s = None" and "xdp_forward_config_cache s 0 = Some fc"
    and "ifc_ifindex (fc_in_if_config fc) \<noteq> 0"
  shows "xdp_l2_process H s =
    (case l2_decide H fc s of
       Discard \<Rightarrow> Some (XDP_DROP, s)
     | Flood tagged vid \<Rightarrow>
         fdb_flood_tag H (ptr (data (ctx s))) (vlan_ptr s tagged) vid (after_lookup H fc s vid)
     | Forward tagged vid p \<Rightarrow>
         (case iface_config_map s p of
            None \<Rightarrow> Some (XDP_DROP, after_lookup H fc s vid)
          | Some out \<Rightarrow>
              xdp_l2_out H (ptr (data (ctx s))) (vlan_ptr s tagged) vid (sending H fc s vid out)))"
proof (cases "has_eth s")
  case False
  then have "parse_frame (frame s) = None" by (simp add: parse_frame_def has_eth_len)
  with False assms show ?thesis
    by (simp add: xdp_l2_process_def lookup_cache_def runs has_eth_def l2_decide_def)
next
  case True
  then have room: "unat (data (ctx s)) + 14 \<le> unat (data_end (ctx s))" by (simp add: has_eth_def)
  have type: "bpf_ntohs False (word16 (take 2 (drop 12 (frame s)))) = type_at 12 (frame s)"
    by (simp add: type_at_def)
  have start: "xdp_l2_process H s = do {
      vlan \<leftarrow> l2_parse_vlan (ptr (data (ctx s))) (type_at 12 (frame s)) s;
      (case vlan of
         None \<Rightarrow> Some (XDP_DROP, s)
       | Some v \<Rightarrow> do {
           (act, vid) \<leftarrow> l2_recv_vlan (fc_in_if_config fc) (ptr (data (ctx s))) v 0 s;
           if act \<noteq> XDP_PASS then Some (XDP_DROP, s)
           else do {
             s1 \<leftarrow> fdb_learning H (ptr (data (ctx s))) v vid s;
             s2 \<leftarrow> fdb_lookup (ptr (data (ctx s))) v vid s1;
             l2_forward H (ptr (data (ctx s))) v vid s2
           }
         })
    }"
    using assms room
    by (simp add: xdp_l2_process_def lookup_cache_def runs sizeof_defs print_mac_def type)
  show ?thesis
  proof (cases "parse_frame (frame s)")
    case None
    then show ?thesis by (simp add: start l2_parse_vlan_run [OF True] l2_decide_def)
  next
    case (Some tagged)
    then have v: "tagged \<longrightarrow> has_vlan s" using parse_frame_len [OF Some] by (simp add: has_vlan_len)
    show ?thesis
    proof (cases "admit (ifc_l2 (fc_in_if_config fc)) (frame_tag s tagged)")
      case None
      with Some v show ?thesis
        by (simp add: start l2_parse_vlan_run [OF True] l2_decide_def l2_recv_vlan_run)
    next
      case (Some vid)
      with \<open>parse_frame _ = _\<close> v assms True show ?thesis
        by (auto simp: start l2_parse_vlan_run [OF True] l2_decide_def l2_recv_vlan_run
          learn_then_lookup l2_forward_run looked_up_port Let_def found_nonzero split: option.splits)
    qed
  qed
qed

end
