(* ===== verification/Switching.thy ===== *)
theory Switching
  imports Forwarding
begin

text \<open>
  The properties of the programs as wholes: safety of every run, refinement of the forwarding
  decision, the hand-over from XDP to TC, and the flood of a frame to an unknown destination from
  its receipt to the ports it leaves by.
\<close>

section \<open>Runs of the programs\<close>

definition entered :: "forward_config \<Rightarrow> iface_config_item \<Rightarrow> xdp_state \<Rightarrow> xdp_state" where
  "entered fc item s = s\<lparr>xdp_forward_config_cache := (xdp_forward_config_cache s)
     (0 \<mapsto> fc\<lparr>fc_in_if_config := ici_config item\<rparr>)\<rparr>"

lemma entered_sel [simp]:
  "ctx (entered fc item s) = ctx s" "mem (entered fc item s) = mem s" "held (entered fc item s) = held s"
  "iface_config_map (entered fc item s) = iface_config_map s" "fdb_table (entered fc item s) = fdb_table s"
  "xdp_forward_config_cache (entered fc item s) 0 = Some (fc\<lparr>fc_in_if_config := ici_config item\<rparr>)"
  "redirect_to (entered fc item s) = redirect_to s" "ktime (entered fc item s) = ktime s"
  by (simp_all add: entered_def)

lemma modes_differ [simp]: "IF_MODE_L2 \<noteq> IF_MODE_L3" "IF_MODE_L3 \<noteq> IF_MODE_L2"
  by (simp_all add: IF_MODE_L2_def IF_MODE_L3_def)

lemma xdp_process_run:
  assumes "held s = None"
  shows "xdp_process H s =
    (case xdp_forward_config_cache s 0 of
       None \<Rightarrow> Some (XDP_DROP, s)
     | Some fc \<Rightarrow>
         (case iface_config_map s (ingress_ifindex (ctx s)) of
            None \<Rightarrow> Some (XDP_DROP, s)
          | Some item \<Rightarrow>
              if ifc_mode (ici_config item) = IF_MODE_L2 \<and> h_tail_call H XDP_ID_L2
              then xdp_l2_process H (entered fc item s)
              else if ifc_mode (ici_config item) = IF_MODE_L3 \<and> h_tail_call H XDP_ID_L3
              then xdp_l3_process (entered fc item s)
              else Some (XDP_DROP, entered fc item s)))"
  using assms
  by (auto simp: xdp_process_def lookup_cache_def runs entered_def Let_def xdp_tail_call_def
    prog_array_defs split: option.splits)

lemma xdp_l3_process_run: "held s = None \<Longrightarrow> xdp_l3_process s = Some (XDP_DROP, s)"
  by (auto simp: xdp_l3_process_def lookup_cache_def runs Let_def sizeof_defs split: option.splits)

text \<open>Whether the kernel grants the metadata of a flood.\<close>

definition flood_granted :: "xdp_helpers \<Rightarrow> xdp_state \<Rightarrow> bool" where
  "flood_granted H s \<longleftrightarrow> (case h_adjust_meta H (ctx s) (mem s) (-24) of
     (rc, c, m) \<Rightarrow> 0 \<le> rc \<and> unat (data_meta c) + 24 \<le> unat (data c))"

text \<open>What the metadata area holds when the kernel hands it out, and whether it is large enough.\<close>

definition granted_meta :: "xdp_helpers \<Rightarrow> xdp_state \<Rightarrow> dp_metadata" where
  "granted_meta H s = (case h_adjust_meta H (ctx s) (mem s) (-24) of (rc, c, m) \<Rightarrow> meta_at c m)"

definition has_meta :: "xdp_md \<Rightarrow> bool" where
  "has_meta c \<longleftrightarrow> unat (data_meta c) + sizeof_dp_metadata \<le> unat (data c)"

text \<open>Whether sending to an interface entry goes through.\<close>

definition sendable :: "xdp_helpers \<Rightarrow> iface_config \<Rightarrow> iface_config_item \<Rightarrow> u32 \<Rightarrow> bool \<Rightarrow> xdp_state \<Rightarrow> bool" where
  "sendable H inn out vid tagged s \<longleftrightarrow> port_of out \<noteq> 0 \<and> eligible (ici_config out) inn vid tagged \<and>
     xdp_can H (port_of out) (l2_egress (ici_config out) inn vid tagged) s"

text \<open>The port the cache holds from the last lookup that found one; 0 if there was none.\<close>

definition cached_port :: "xdp_state \<Rightarrow> u32" where
  "cached_port s =
     (case xdp_forward_config_cache s 0 of None \<Rightarrow> 0 | Some fc \<Rightarrow> fv_ifindex (fc_fdb_value fc))"

text \<open>What the layer-2 program owes for a decision.\<close>

definition l2_outcome ::
  "xdp_helpers \<Rightarrow> forward_config \<Rightarrow> xdp_state \<Rightarrow> xdp_action \<Rightarrow> xdp_state \<Rightarrow> bool" where
  "l2_outcome H fc s act s' \<longleftrightarrow>
     (case l2_decide H fc s of
        Discard \<Rightarrow> act = XDP_DROP \<and> s' = s
      | Flood tagged vid \<Rightarrow>
          fdb_table s' = learned_table H s vid \<and> redirect_to s' = redirect_to s \<and> cached_port s' = 0 \<and>
          (if flood_granted H s
           then act = XDP_PASS \<and> frame s' = frame s \<and> has_meta (ctx s') \<and>
             meta_at (ctx s') (mem s') = flood_meta tagged vid (granted_meta H s)
           else act = XDP_DROP)
      | Forward tagged vid p \<Rightarrow>
          fdb_table s' = learned_table H s vid \<and> act = XDP_DROP \<and> cached_port s' = p \<and>
          (case iface_config_map s p of
             Some out \<Rightarrow>
               if sendable H (fc_in_if_config fc) out vid tagged s
               then frame s' = out_frame (l2_egress (ici_config out) (fc_in_if_config fc) vid tagged) vid (frame s) \<and>
                 redirect_to s' = Some (port_of out)
               else redirect_to s' = redirect_to s
           | None \<Rightarrow> frame s' = frame s \<and> redirect_to s' = redirect_to s))"

lemma flood_meta_sel [simp]:
  "md_magic (flood_meta tagged vid old) = DP_META_MAGIC"
  "md_meta_type (flood_meta tagged vid old) = DP_META_L2"
  "l2m_vlan_id (md_l2 (flood_meta tagged vid old)) = vid"
  "l2m_flags (md_l2 (flood_meta tagged vid old)) AND L2_FLOOD \<noteq> 0"
  "md_tagged (flood_meta tagged vid old) \<longleftrightarrow> tagged \<or> md_tagged old"
  by (auto simp: flood_meta_def md_tagged_def bit.conj_disj_distrib2 L2_FLOOD_def L2_VLAN_PACKET_def
    or_eq_0_iff)

lemma xdp_can_same:
  "ctx s' = ctx s \<Longrightarrow> mem s' = mem s \<Longrightarrow> xdp_can H i a s' = xdp_can H i a s"
  by (cases a) (simp_all add: moves_head_def)

lemma flood_run:
  assumes "xdp_laws H" and "held s = None"
  shows "succeeds (fdb_flood_tag H eth (vlan_ptr s0 tagged) vid s) (\<lambda>(act, s'). kept s s' \<and>
    redirect_to s' = redirect_to s \<and>
    (if flood_granted H s
     then act = XDP_PASS \<and> frame s' = frame s \<and>
       has_meta (ctx s') \<and> meta_at (ctx s') (mem s') = flood_meta tagged vid (granted_meta H s)
     else act = XDP_DROP))"
proof -
  obtain rc c m where adj: "h_adjust_meta H (ctx s) (mem s) (-24) = (rc, c, m)"
    by (cases "h_adjust_meta H (ctx s) (mem s) (-24)") auto
  show ?thesis
    by (rule succeeds_weaken [OF fdb_flood_tag_contract [OF xdp_lawsD(2) [OF assms(1)] assms(2) adj]])
       (auto simp: flood_granted_def granted_meta_def has_meta_def adj split: if_splits)
qed

lemma send_run:
  assumes "xdp_laws H" and "held s = None" and "14 \<le> pkt_len (ctx s)" and "tagged \<longrightarrow> 18 \<le> pkt_len (ctx s)"
  shows "succeeds (xdp_l2_out H (ptr (data (ctx s))) (vlan_ptr s tagged) vid (sending H fc s v out))
    (\<lambda>(act, s'). act = XDP_DROP \<and> kept (sending H fc s v out) s' \<and>
      (if sendable H (fc_in_if_config fc) out vid tagged s
       then frame s' = out_frame (l2_egress (ici_config out) (fc_in_if_config fc) vid tagged) vid (frame s) \<and>
         redirect_to s' = Some (port_of out)
       else redirect_to s' = redirect_to s))"
proof (cases "port_of out = 0")
  case True
  with assms(2) show ?thesis
    by (simp add: xdp_l2_out_def lookup_cache_def runs port_of_def sendable_def)
next
  case False
  have v: "vlan_ptr (sending H fc s v out) tagged = vlan_ptr s tagged" by (simp add: vlan_ptr_def)
  have can: "xdp_can H i a (sending H fc s v out) = xdp_can H i a s" for i a
    by (rule xdp_can_same) simp_all
  show ?thesis
    using xdp_l2_out_contract [OF xdp_lawsD(1) [OF assms(1)], of "sending H fc s v out" tagged
        "(looked_up H fc s v)\<lparr>fc_out_if_config := ici_config out\<rparr>" vid] assms(2-) False
    by (simp add: v can port_of_def sendable_def cong: if_cong)
qed

lemma decide_port:
  "l2_decide H fc s = Forward tagged vid p \<Longrightarrow> fv_ifindex (fc_fdb_value (looked_up H fc s vid)) = p"
  by (auto simp: l2_decide_def looked_up_port split: option.splits if_splits)

lemma decide_no_port:
  "l2_decide H fc s = Flood tagged vid \<Longrightarrow> fv_ifindex (fc_fdb_value (looked_up H fc s vid)) = 0"
  by (auto simp: l2_decide_def looked_up_port split: option.splits if_splits)

lemma decide_lengths:
  "l2_decide H fc s = Forward tagged vid p \<Longrightarrow> 14 \<le> pkt_len (ctx s) \<and> (tagged \<longrightarrow> 18 \<le> pkt_len (ctx s))"
  using parse_frame_len [of "frame s"] by (auto simp: l2_decide_def split: option.splits if_splits)

lemma xdp_l2_process_contract:
  assumes "xdp_laws H" and "held s = None" and "xdp_forward_config_cache s 0 = Some fc"
    and "ifc_ifindex (fc_in_if_config fc) \<noteq> 0"
  shows "succeeds (xdp_l2_process H s) (\<lambda>(act, s'). l2_outcome H fc s act s' \<and> held s' = None \<and>
    iface_config_map s' = iface_config_map s \<and> ingress_ifindex (ctx s') = ingress_ifindex (ctx s) \<and>
    xdp_forward_config_cache s' 0 \<noteq> None)"
proof (cases "l2_decide H fc s")
  case Discard
  then show ?thesis using assms by (simp add: xdp_l2_process_run l2_outcome_def)
next
  case (Flood tagged vid)
  have g: "flood_granted H (after_lookup H fc s vid) = flood_granted H s"
    "granted_meta H (after_lookup H fc s vid) = granted_meta H s"
    by (simp_all add: flood_granted_def granted_meta_def)
  show ?thesis
    unfolding xdp_l2_process_run [OF assms(2-4)] Flood decision.case
    by (rule succeeds_weaken [OF flood_run [OF assms(1)]])
       (auto simp: assms(2) l2_outcome_def Flood g kept_def cached_port_def decide_no_port [OF Flood]
         split: if_splits)
next
  case (Forward tagged vid p)
  show ?thesis
  proof (cases "iface_config_map s p")
    case None
    then show ?thesis
      using assms Forward decide_port [OF Forward]
      by (simp add: xdp_l2_process_run l2_outcome_def cached_port_def)
  next
    case (Some out)
    have len: "14 \<le> pkt_len (ctx s)" "tagged \<longrightarrow> 18 \<le> pkt_len (ctx s)"
      using decide_lengths [OF Forward] by simp_all
    show ?thesis
      unfolding xdp_l2_process_run [OF assms(2-4)] Forward decision.case Some option.case
      by (rule succeeds_weaken [OF send_run [OF assms(1,2) len]])
         (auto simp: assms(2) l2_outcome_def Forward Some kept_def cached_port_def decide_port [OF Forward]
           split: if_splits)
  qed
qed

lemma l2_outcome_verdict:
  "l2_outcome H fc s act s' \<Longrightarrow> act = XDP_DROP \<or> act = XDP_PASS"
  by (auto simp: l2_outcome_def split: decision.splits if_splits)

lemma l2_outcome_fdb_ok:
  "l2_outcome H fc s act s' \<Longrightarrow> fdb_ok H (fdb_table s) \<Longrightarrow> fdb_ok H (fdb_table s')"
  by (auto simp: l2_outcome_def learned_table_def mac.inv_learn split: decision.splits)

lemma xdp_l2_process_uncached:
  "held s = None \<Longrightarrow> xdp_forward_config_cache s 0 = Some fc \<Longrightarrow> ifc_ifindex (fc_in_if_config fc) = 0 \<Longrightarrow>
     xdp_l2_process H s = Some (XDP_DROP, s)"
  by (simp add: xdp_l2_process_def lookup_cache_def runs)

lemma xdp_process_safe:
  assumes "xdp_laws H" and "held s = None"
  shows "succeeds (xdp_process H s) (\<lambda>(act, s'). (act = XDP_DROP \<or> act = XDP_PASS) \<and> held s' = None \<and>
    iface_config_map s' = iface_config_map s \<and> (fdb_ok H (fdb_table s) \<longrightarrow> fdb_ok H (fdb_table s')))"
proof -
  have "succeeds (xdp_l2_process H (entered fc item s)) (\<lambda>(act, s'). (act = XDP_DROP \<or> act = XDP_PASS) \<and>
    held s' = None \<and> iface_config_map s' = iface_config_map s \<and>
    (fdb_ok H (fdb_table s) \<longrightarrow> fdb_ok H (fdb_table s')))" for fc item
  proof (cases "ifc_ifindex (ici_config item) = 0")
    case True
    then show ?thesis using assms by (simp add: xdp_l2_process_uncached [of _ "fc\<lparr>fc_in_if_config := ici_config item\<rparr>"])
  next
    case False
    show ?thesis
      by (rule succeeds_weaken [OF xdp_l2_process_contract [OF assms(1), of "entered fc item s"
            "fc\<lparr>fc_in_if_config := ici_config item\<rparr>"]])
         (use assms False in \<open>auto dest: l2_outcome_verdict l2_outcome_fdb_ok\<close>)
  qed
  then show ?thesis
    using assms by (auto simp: xdp_process_run xdp_l3_process_run split: option.splits)
qed

section \<open>TC runs\<close>

definition tc_has_meta :: "tc_state \<Rightarrow> bool" where
  "tc_has_meta s \<longleftrightarrow> unat (skb_data_meta (skb s)) + sizeof_dp_metadata \<le> unat (skb_data (skb s))"

definition tc_meta :: "tc_state \<Rightarrow> dp_metadata" where
  "tc_meta s = decode_dp_metadata (load_bytes (tc_mem s) (ptr (skb_data_meta (skb s))) sizeof_dp_metadata)"

lemma tc_rd32_run:
  assumes "tc_has_meta s" and "k + 4 \<le> 24"
  shows "tc_rd32 (ptr_add (ptr (skb_data_meta (skb s))) k) s =
    Some (word32 (take 4 (drop k (load_bytes (tc_mem s) (ptr (skb_data_meta (skb s))) 24))))"
  using assms by (simp add: tc_rd32_def tc_rd_def tc_has_meta_def take_drop_load)

lemma tc_room: "ptr (skb_data (skb s)) < ptr_add (ptr (skb_data_meta (skb s))) 24 \<longleftrightarrow> \<not> tc_has_meta s"
  by (simp add: ptr_le_off tc_has_meta_def not_le)

lemma tc_ingress_l2_run:
  assumes "held s = None"
  shows "tc_ingress_l2 H s =
    (if tc_has_meta s \<and> md_magic (tc_meta s) = DP_META_MAGIC \<and> l2m_flags (md_l2 (tc_meta s)) AND L2_FLOOD \<noteq> 0
     then fdb_flood H (tc_meta s) s else Some (TC_ACT_SHOT, s))"
proof (cases "tc_has_meta s")
  case False
  then show ?thesis by (simp add: tc_ingress_l2_def tc_room)
next
  case True
  have "tc_rd (ptr (skb_data_meta (skb s))) 24 s = Some (load_bytes (tc_mem s) (ptr (skb_data_meta (skb s))) 24)"
    using True by (simp add: tc_rd_def tc_has_meta_def)
  with True tc_rd32_run [OF True, of 0] tc_rd32_run [OF True, of 8] show ?thesis
    by (simp add: tc_ingress_l2_def tc_room tc_meta_def decode_dp_metadata_def Let_def)
qed

lemma tc_ingress_run:
  assumes "held s = None"
  shows "tc_ingress H s =
    (if \<not> (tc_has_meta s \<and> md_magic (tc_meta s) = DP_META_MAGIC) then Some (TC_ACT_OK, s)
     else if md_meta_type (tc_meta s) = DP_META_L2 \<and> h_tc_tail_call H TC_INGRESS_ID_L2 then
       (if l2m_flags (md_l2 (tc_meta s)) AND L2_FLOOD \<noteq> 0 then fdb_flood H (tc_meta s) s
        else Some (TC_ACT_SHOT, s))
     else if md_meta_type (tc_meta s) = DP_META_L3 \<and> h_tc_tail_call H TC_INGRESS_ID_L3
     then Some (TC_ACT_SHOT, s)
     else Some (TC_ACT_OK, s))"
proof (cases "tc_has_meta s")
  case False
  then show ?thesis by (simp add: tc_ingress_def tc_room)
next
  case True
  have d: "DP_META_L2 \<noteq> DP_META_L3" by (simp add: DP_META_L2_def DP_META_L3_def)
  have m: "md_magic (tc_meta s) = word32 (take 4 (load_bytes (tc_mem s) (ptr (skb_data_meta (skb s))) 24))"
    "md_meta_type (tc_meta s) = word32 (take 4 (drop 4 (load_bytes (tc_mem s) (ptr (skb_data_meta (skb s))) 24)))"
    by (simp_all add: tc_meta_def decode_dp_metadata_def)
  have start: "tc_ingress H s =
    (if DP_META_MAGIC \<noteq> md_magic (tc_meta s) then Some (TC_ACT_OK, s)
     else do {
       prog \<leftarrow> (if md_meta_type (tc_meta s) = DP_META_L2 then tc_tail_call H TC_INGRESS_ID_L2 s
         else if md_meta_type (tc_meta s) = DP_META_L3 then tc_tail_call H TC_INGRESS_ID_L3 s
         else Some None);
       (case prog of Some p \<Rightarrow> run_tc_prog H p s | None \<Rightarrow> Some (TC_ACT_OK, s))
     })"
    using True tc_rd32_run [OF True, of 0] tc_rd32_run [OF True, of 4]
    by (simp add: tc_ingress_def tc_room m)
  show ?thesis
    unfolding start using True assms d
    by (auto simp: tc_tail_call_def runs prog_array_defs tc_ingress_l2_run tc_ingress_l3_def
      cong del: if_weak_cong)
qed

section \<open>From XDP to TC\<close>

text \<open>
  A frame that XDP passes reaches TC as a socket buffer with the same bytes, the same ingress
  interface and the same metadata in front of it; the maps are shared.
\<close>

definition passed_to_tc :: "xdp_state \<Rightarrow> tc_state \<Rightarrow> bool" where
  "passed_to_tc s t \<longleftrightarrow> iface_config_map t = iface_config_map s \<and> held t = None \<and>
     skb_ingress_ifindex (skb t) = ingress_ifindex (ctx s) \<and> packet t = frame s \<and>
     unat (skb_data (skb t)) - unat (skb_data_meta (skb t)) = unat (data (ctx s)) - unat (data_meta (ctx s)) \<and>
     load_bytes (tc_mem t) (ptr (skb_data_meta (skb t))) (unat (data (ctx s)) - unat (data_meta (ctx s))) =
       load_bytes (mem s) (ptr (data_meta (ctx s))) (unat (data (ctx s)) - unat (data_meta (ctx s)))"

text \<open>The plainest such hand-over, with the addresses as they are.\<close>

definition hand_over :: "xdp_state \<Rightarrow> tc_state" where
  "hand_over s =
     \<lparr>iface_config_map = iface_config_map s, fdb_table = fdb_table s, held = None,
      skb = \<lparr>skb_ingress_ifindex = ingress_ifindex (ctx s), skb_data = data (ctx s),
             skb_data_meta = data_meta (ctx s), skb_packet = frame s\<rparr>,
      tc_mem = mem s, sent = []\<rparr>"

lemma passed_hand_over [simp]: "passed_to_tc s (hand_over s)"
  by (simp add: passed_to_tc_def hand_over_def)

lemma sent_hand_over [simp]: "sent (hand_over s) = []"
  by (simp add: hand_over_def)

lemma passed_meta:
  assumes "passed_to_tc s t" and "has_meta (ctx s)"
  shows "tc_has_meta t \<and> tc_meta t = meta_at (ctx s) (mem s)"
proof -
  let ?n = "unat (data (ctx s)) - unat (data_meta (ctx s))"
  have n: "24 \<le> ?n" using assms(2) by (simp add: has_meta_def)
  have p: "unat (skb_data (skb t)) - unat (skb_data_meta (skb t)) = ?n"
    "load_bytes (tc_mem t) (ptr (skb_data_meta (skb t))) ?n = load_bytes (mem s) (ptr (data_meta (ctx s))) ?n"
    using assms(1) by (simp_all add: passed_to_tc_def)
  have "load_bytes (tc_mem t) (ptr (skb_data_meta (skb t))) 24 = load_bytes (mem s) (ptr (data_meta (ctx s))) 24"
    using arg_cong [OF p(2), of "take 24"] n take_drop_load [of 0 24 ?n] by simp
  moreover have "tc_has_meta t" using p(1) n by (simp add: tc_has_meta_def)
  ultimately show ?thesis by (simp add: tc_meta_def meta_at_def)
qed

section \<open>A frame that is let in\<close>

text \<open>
  A frame that arrives at a layer-2 interface whose VLAN rule admits it to VLAN \<open>vid\<close>.
\<close>

definition admitted ::
  "xdp_state \<Rightarrow> forward_config \<Rightarrow> iface_config_item \<Rightarrow> bool \<Rightarrow> u32 \<Rightarrow> bool" where
  "admitted s fc inn tagged vid \<longleftrightarrow> held s = None \<and> xdp_forward_config_cache s 0 = Some fc \<and>
     iface_config_map s (ingress_ifindex (ctx s)) = Some inn \<and> ifc_mode (ici_config inn) = IF_MODE_L2 \<and>
     port_of inn \<noteq> 0 \<and> parse_frame (frame s) = Some tagged \<and>
     admit (ifc_l2 (ici_config inn)) (frame_tag s tagged) = Some vid"

lemma entered_same [simp]:
  "dst_key (entered fc item s) = dst_key s" "src_key (entered fc item s) = src_key s"
  "learned_table H (entered fc item s) = learned_table H s"
  "frame_tag (entered fc item s) = frame_tag s" "flood_granted H (entered fc item s) = flood_granted H s"
  "granted_meta H (entered fc item s) = granted_meta H s"
  by (simp_all add: fun_eq_iff dst_key_def src_key_def learned_table_def frame_tag_def tag_vid_def
    flood_granted_def granted_meta_def)

lemma admitted_decide:
  assumes "admitted s fc inn tagged vid"
  shows "l2_decide H (fc\<lparr>fc_in_if_config := ici_config inn\<rparr>) (entered fc inn s) =
    (case found (dst_key s vid) (learned_table H s vid) of
       Some p \<Rightarrow> Forward tagged vid p
     | None \<Rightarrow> if fv_ifindex (fc_fdb_value fc) = 0 then Flood tagged vid
         else Forward tagged vid (fv_ifindex (fc_fdb_value fc)))"
  using assms by (simp add: admitted_def l2_decide_def split: option.split)

lemma admitted_run:
  assumes "xdp_laws H" and "h_tail_call H XDP_ID_L2" and "admitted s fc inn tagged vid"
  shows "succeeds (xdp_process H s) (\<lambda>(act, s').
    l2_outcome H (fc\<lparr>fc_in_if_config := ici_config inn\<rparr>) (entered fc inn s) act s' \<and> held s' = None \<and>
    iface_config_map s' = iface_config_map s \<and> ingress_ifindex (ctx s') = ingress_ifindex (ctx s) \<and>
    xdp_forward_config_cache s' 0 \<noteq> None)"
proof -
  have "xdp_process H s = xdp_l2_process H (entered fc inn s)"
    using assms(2,3) by (simp add: xdp_process_run admitted_def)
  with xdp_l2_process_contract [OF assms(1), of "entered fc inn s" "fc\<lparr>fc_in_if_config := ici_config inn\<rparr>"]
    assms(3) show ?thesis by (auto simp: admitted_def port_of_def elim!: succeeds_weaken)
qed

lemma admitted_learns:
  assumes "xdp_laws H" and "h_tail_call H XDP_ID_L2" and "admitted s fc inn tagged vid"
  shows "succeeds (xdp_process H s) (\<lambda>(act, s'). fdb_table s' = learned_table H s vid \<and>
    xdp_forward_config_cache s' 0 \<noteq> None \<and>
    cached_port s' = (case found (dst_key s vid) (learned_table H s vid) of
      Some p \<Rightarrow> p | None \<Rightarrow> fv_ifindex (fc_fdb_value fc)))"
  by (rule succeeds_weaken [OF admitted_run [OF assms]])
     (auto simp: l2_outcome_def admitted_decide [OF assms(3)] split: option.splits if_splits)

lemma sendable_entered [simp]: "sendable H i out vid tagged (entered fc item s) = sendable H i out vid tagged s"
  using xdp_can_same [of "entered fc item s" s] by (simp add: sendable_def)

text \<open>Only admitted frames that are flooded are passed.\<close>

lemma passed_is_flooded:
  assumes "xdp_laws H" and "held s = None" and "xdp_process H s = Some (XDP_PASS, s')"
  shows "\<exists>fc inn tagged vid. admitted s fc inn tagged vid \<and> h_tail_call H XDP_ID_L2 \<and>
    l2_decide H (fc\<lparr>fc_in_if_config := ici_config inn\<rparr>) (entered fc inn s) = Flood tagged vid"
proof -
  obtain fc inn where fc: "xdp_forward_config_cache s 0 = Some fc"
    and inn: "iface_config_map s (ingress_ifindex (ctx s)) = Some inn"
    and l2: "ifc_mode (ici_config inn) = IF_MODE_L2" "h_tail_call H XDP_ID_L2"
    and run: "xdp_l2_process H (entered fc inn s) = Some (XDP_PASS, s')"
    using assms(2,3)
    by (auto simp: xdp_process_run xdp_l3_process_run split: option.splits if_splits)
  let ?fc = "fc\<lparr>fc_in_if_config := ici_config inn\<rparr>"
  have nz: "ifc_ifindex (ici_config inn) \<noteq> 0"
    using run assms(2) xdp_l2_process_uncached [of "entered fc inn s" ?fc H] by fastforce
  have "l2_outcome H ?fc (entered fc inn s) XDP_PASS s'"
    using xdp_l2_process_contract [OF assms(1), of "entered fc inn s" ?fc] run nz assms(2) by simp
  then obtain tagged vid where d: "l2_decide H ?fc (entered fc inn s) = Flood tagged vid"
    by (auto simp: l2_outcome_def split: decision.splits)
  then have "admitted s fc inn tagged vid"
    using fc inn l2 nz assms(2)
    by (auto simp: admitted_def port_of_def l2_decide_def split: option.splits if_splits)
  with d l2 show ?thesis by blast
qed

lemma flooded_meta:
  assumes "xdp_laws H" and "admitted s fc inn tagged vid" and "xdp_process H s = Some (XDP_PASS, s')"
    and "h_tail_call H XDP_ID_L2"
    and "l2_decide H (fc\<lparr>fc_in_if_config := ici_config inn\<rparr>) (entered fc inn s) = Flood tagged vid"
    and "passed_to_tc s' t"
  shows "tc_has_meta t" and "tc_meta t = flood_meta tagged vid (granted_meta H s)"
    and "held t = None" and "iface_config_map t = iface_config_map s" and "packet t = frame s"
    and "skb_ingress_ifindex (skb t) = ingress_ifindex (ctx s)"
proof -
  have o: "l2_outcome H (fc\<lparr>fc_in_if_config := ici_config inn\<rparr>) (entered fc inn s) XDP_PASS s'"
    "iface_config_map s' = iface_config_map s" "ingress_ifindex (ctx s') = ingress_ifindex (ctx s)"
    using admitted_run [OF assms(1,4,2)] assms(3) by simp_all
  then have f: "frame s' = frame s" "has_meta (ctx s')"
    "meta_at (ctx s') (mem s') = flood_meta tagged vid (granted_meta H s)"
    using assms(5) by (auto simp: l2_outcome_def split: if_splits)
  show "tc_has_meta t" "tc_meta t = flood_meta tagged vid (granted_meta H s)"
    using passed_meta [OF assms(6) f(2)] f(3) by simp_all
  show "held t = None" "iface_config_map t = iface_config_map s" "packet t = frame s"
    "skb_ingress_ifindex (skb t) = ingress_ifindex (ctx s)"
    using assms(6) o f(1) by (simp_all add: passed_to_tc_def)
qed

section \<open>Samples\<close>

lemma zero_cache_sel [simp]: "fv_ifindex (fc_fdb_value zero_cache) = 0"
  by (simp add: zero_cache_def)

lemma sample_port [simp]: "port_of (sample_item i m v) = i"
  by (simp add: port_of_def sample_item_def sample_config_def)

lemma plain_frame_untagged:
  "parse_frame (plain_frame mac_a mac_b) = Some False" "parse_frame (plain_frame mac_b mac_a) = Some False"
  by (simp_all add: parse_frame_def type_at_def plain_frame_def mac_a_def mac_b_def vlan_type_def ntohs_word16
    ETH_P_8021Q_def ETH_P_8021AD_def)

text \<open>A frame without a known port reaches, through both programs, every other port of its VLAN.\<close>

lemma admitted_is_flooded:
  assumes "xdp_laws H" and "tc_laws T" and "accepting T"
    and "h_tail_call H XDP_ID_L2" and "h_tc_tail_call T TC_INGRESS_ID_L2"
    and "admitted s fc inn tagged vid" and "fv_ifindex (fc_fdb_value fc) = 0"
    and "well_configured (iface_config_map s)"
    and "found (dst_key s vid) (learned_table H s vid) = None" and "flood_granted H s"
    and "if tagged then take 4 (drop 12 (frame s)) =
           bytes16 (bpf_htons True ETH_P_8021Q) @ bytes16 (bpf_htons False (ucast vid))
         else \<not> md_tagged (granted_meta H s)"
  shows "\<exists>s'. xdp_process H s = Some (XDP_PASS, s') \<and>
    (\<forall>t. passed_to_tc s' t \<longrightarrow>
      (\<exists>t' log. tc_ingress T t = Some (TC_ACT_SHOT, t') \<and> sent t' = sent t @ log \<and>
        distinct (map fst log) \<and>
        set (map fst log) = {k. \<exists>out. iface_config_map s k = Some out \<and>
          ifc_mode (ici_config out) = IF_MODE_L2 \<and> k \<noteq> ingress_ifindex (ctx s) \<and>
          egress_member (ifc_l2 (ici_config out)) vid}))"
proof -
  let ?fc = "fc\<lparr>fc_in_if_config := ici_config inn\<rparr>"
  have d: "l2_decide H ?fc (entered fc inn s) = Flood tagged vid"
    using admitted_decide [OF assms(6), of H] assms(7,9) by simp
  obtain s' where s': "xdp_process H s = Some (XDP_PASS, s')"
    using admitted_run [OF assms(1,4,6)] d assms(10)
    by (auto simp: succeeds_iff l2_outcome_def)
  have len: "14 \<le> length (frame s) \<and> (tagged \<longrightarrow> 18 \<le> length (frame s) \<and> vid \<noteq> 0)"
    using assms(6) parse_frame_len [of "frame s" tagged]
    by (auto simp: admitted_def admit_def frame_tag_def tag_vid_frame parse_frame_def split: if_splits)
  have "\<exists>t' log. tc_ingress T t = Some (TC_ACT_SHOT, t') \<and> sent t' = sent t @ log \<and>
      distinct (map fst log) \<and> set (map fst log) = {k. \<exists>out. iface_config_map s k = Some out \<and>
        ifc_mode (ici_config out) = IF_MODE_L2 \<and> k \<noteq> ingress_ifindex (ctx s) \<and>
        egress_member (ifc_l2 (ici_config out)) vid}" if t: "passed_to_tc s' t" for t
  proof -
    note m = flooded_meta [OF assms(1,6) s' assms(4) d t]
    have tag: "md_tagged (tc_meta t) = tagged" using assms(11) by (auto simp: m(2) split: if_splits)
    have plain: "plain_tag (tc_meta t) (packet t)"
      using assms(11) len by (cases tagged) (simp_all add: plain_tag_def tag m(2,5))
    have "tc_ingress T t = fdb_flood T (tc_meta t) t"
      using m(1-3) assms(5) by (simp add: tc_ingress_run)
    with fdb_flood_members [OF assms(2,3) m(3), of "tc_meta t"] plain m assms(6,8) len tag
    show ?thesis by (auto simp: admitted_def)
  qed
  with s' show ?thesis by blast
qed

section \<open>A sample\<close>

abbreviation sample_start :: xdp_state where
  "sample_start \<equiv> sample_state (plain_frame mac_a mac_b) 1 Map.empty zero_cache"

lemma sample_admitted: "admitted sample_start zero_cache (sample_item 1 VLAN_ACCESS 5) False 5"
  by (simp add: admitted_def plain_frame_untagged admit_def frame_tag_def sample_item_def sample_config_def
    sample_l2_def port_of_def)

lemma sample_unknown: "found (dst_key sample_start 5) (learned_table (ref_helpers 0) sample_start 5) = None"
proof -
  have "dst_key sample_start 5 \<noteq> src_key sample_start 5"
    by (simp add: dst_key_def src_key_def plain_frame_def mac_a_def mac_b_def)
  then show ?thesis
    by (simp add: found_def learned_table_def learned_other [OF ref_fdb_update_law])
qed

lemma sample_granted:
  "flood_granted (ref_helpers 0) sample_start" "\<not> md_tagged (granted_meta (ref_helpers 0) sample_start)"
proof -
  have adj: "h_adjust_meta (ref_helpers 0) (ctx sample_start) (mem sample_start) (-24) =
      (0, ctx sample_start\<lparr>data_meta := addr32 4072\<rparr>, mem sample_start)"
    by (simp add: ref_adjust_meta_def)
  then show "flood_granted (ref_helpers 0) sample_start" by (simp add: flood_granted_def)
  have "load_bytes (sample_mem bs) (ptr_add (ptr (addr32 4072)) 8) 4 = replicate 4 0" for bs
    unfolding sample_mem_def
    by (subst load_store_disjoint) (simp_all add: load_bytes_def map_replicate_const)
  then have "word32 (load_bytes (sample_mem bs) (ptr_add (ptr (addr32 4072)) 8) 4) = 0" for bs
    by (simp add: word32_def)
  then show "\<not> md_tagged (granted_meta (ref_helpers 0) sample_start)"
    using adj by (simp add: granted_meta_def md_tagged_def meta_at_fields Let_def)
qed

end
