(* ===== verification/Switch.thy ===== *)
theory Switch
  imports Switching
begin

text \<open>
  The switch over time: the maps the programs share, and the per-CPU caches, under any sequence of
  received frames and of changes to the interface configuration by the control plane. Runs of the
  XDP program on different CPUs are interleaved whole. The history of events is kept, so that
  invariants can say where the contents of the tables come from.
\<close>

section \<open>Steps\<close>

record switch =
  sw_ifaces :: "u32 \<rightharpoonup> iface_config_item"
  sw_fdb :: "fdb_key \<rightharpoonup> fdb_value_item"
  sw_cache :: "nat \<Rightarrow> forward_config"

datatype event = Received nat xdp_state xdp_action | Configured u32 iface_config_item | Removed u32

text \<open>A frame in the context \<open>c\<close> and memory \<open>m\<close> meets CPU \<open>cpu\<close> at time \<open>now\<close>.\<close>

definition run_on :: "switch \<Rightarrow> nat \<Rightarrow> xdp_md \<Rightarrow> memory \<Rightarrow> u64 \<Rightarrow> xdp_state" where
  "run_on sw cpu c m now =
     \<lparr>iface_config_map = sw_ifaces sw, fdb_table = sw_fdb sw, held = None, ctx = c, mem = m,
      xdp_forward_config_cache = [0 \<mapsto> sw_cache sw cpu], ktime = now, redirect_to = None\<rparr>"

definition store_run :: "switch \<Rightarrow> nat \<Rightarrow> xdp_state \<Rightarrow> switch" where
  "store_run sw cpu s = sw\<lparr>sw_fdb := fdb_table s,
     sw_cache := (sw_cache sw)(cpu := the (xdp_forward_config_cache s 0))\<rparr>"

inductive switch_step :: "xdp_helpers \<Rightarrow> switch \<Rightarrow> event \<Rightarrow> switch \<Rightarrow> bool" for H where
  receive: "xdp_process H (run_on sw cpu c m now) = Some (act, s') \<Longrightarrow>
    switch_step H sw (Received cpu (run_on sw cpu c m now) act) (store_run sw cpu s')"
| configure: "port_of item = k \<Longrightarrow>
    switch_step H sw (Configured k item) (sw\<lparr>sw_ifaces := (sw_ifaces sw)(k \<mapsto> item)\<rparr>)"
| remove: "switch_step H sw (Removed k) (sw\<lparr>sw_ifaces := (sw_ifaces sw)(k := None)\<rparr>)"

inductive_cases receiveE: "switch_step H sw (Received cpu s act) sw'"
inductive_simps configured_step: "switch_step H sw (Configured k item) sw'"
inductive_simps removed_step: "switch_step H sw (Removed k) sw'"

definition power_on :: switch where
  "power_on = \<lparr>sw_ifaces = Map.empty, sw_fdb = Map.empty, sw_cache = (\<lambda>_. zero_cache)\<rparr>"

inductive reach :: "xdp_helpers \<Rightarrow> event list \<Rightarrow> switch \<Rightarrow> bool" for H where
  start: "reach H [] power_on"
| more: "reach H tr sw \<Longrightarrow> switch_step H sw e sw' \<Longrightarrow> reach H (e # tr) sw'"

text \<open>An event leads to one state only, and the verdict on a frame is determined.\<close>

lemma receive_deterministic:
  assumes "switch_step H sw (Received cpu s act) sw1" and "switch_step H sw (Received cpu s act') sw2"
  shows "act' = act \<and> sw2 = sw1"
  using assms by (elim receiveE) simp

lemma switch_step_deterministic:
  assumes "switch_step H sw e sw1" and "switch_step H sw e sw2"
  shows "sw2 = sw1"
  using assms
  by (cases e) (auto simp: configured_step removed_step dest: receive_deterministic)

section \<open>What one run does to the tables\<close>

lemma run_on_sel [simp]:
  "iface_config_map (run_on sw cpu c m now) = sw_ifaces sw" "fdb_table (run_on sw cpu c m now) = sw_fdb sw"
  "held (run_on sw cpu c m now) = None" "ctx (run_on sw cpu c m now) = c" "mem (run_on sw cpu c m now) = m"
  "xdp_forward_config_cache (run_on sw cpu c m now) 0 = Some (sw_cache sw cpu)"
  "ktime (run_on sw cpu c m now) = now"
  by (simp_all add: run_on_def)

lemma cached_run_on [simp]:
  "cached_port (run_on sw cpu c m now) = fv_ifindex (fc_fdb_value (sw_cache sw cpu))"
  by (simp add: cached_port_def)

lemma cached_store_run [simp]:
  "xdp_forward_config_cache s 0 \<noteq> None \<Longrightarrow>
     fv_ifindex (fc_fdb_value (sw_cache (store_run sw cpu s) cpu)) = cached_port s"
  by (auto simp: store_run_def cached_port_def)

text \<open>A run that ends leaves the table alone, or learns from an admitted frame.\<close>

lemma xdp_process_effect:
  assumes "xdp_laws H" and "held s = None" and "xdp_process H s = Some (act, s')"
  shows "(fdb_table s' = fdb_table s \<and> cached_port s' = cached_port s) \<or>
    (\<exists>fc inn tagged vid. admitted s fc inn tagged vid \<and> fdb_table s' = learned_table H s vid \<and>
      (cached_port s' = cached_port s \<or> (\<exists>k. found k (fdb_table s') = Some (cached_port s'))))"
proof -
  have e: "cached_port (entered fc item s) = cached_port s" if "xdp_forward_config_cache s 0 = Some fc" for fc item
    using that by (simp add: cached_port_def)
  show ?thesis
  proof (cases "\<exists>fc inn. xdp_forward_config_cache s 0 = Some fc \<and>
      iface_config_map s (ingress_ifindex (ctx s)) = Some inn \<and> ifc_mode (ici_config inn) = IF_MODE_L2 \<and>
      h_tail_call H XDP_ID_L2 \<and> port_of inn \<noteq> 0")
    case False
    then have "s' = s \<or> (\<exists>fc inn. xdp_forward_config_cache s 0 = Some fc \<and> s' = entered fc inn s)"
      using assms(2,3) xdp_l2_process_uncached
      by (auto simp: xdp_process_run xdp_l3_process_run port_of_def split: option.splits if_splits)
    then show ?thesis using e by auto
  next
    case True
    then obtain fc inn where fc: "xdp_forward_config_cache s 0 = Some fc"
      and inn: "iface_config_map s (ingress_ifindex (ctx s)) = Some inn" "ifc_mode (ici_config inn) = IF_MODE_L2"
        "h_tail_call H XDP_ID_L2" "port_of inn \<noteq> 0" by blast
    let ?fc = "fc\<lparr>fc_in_if_config := ici_config inn\<rparr>"
    have o: "l2_outcome H ?fc (entered fc inn s) act s'"
      using xdp_l2_process_contract [OF assms(1), of "entered fc inn s" ?fc] assms(2,3) fc inn
      by (simp add: xdp_process_run port_of_def)
    show ?thesis
    proof (cases "l2_decide H ?fc (entered fc inn s)")
      case Discard
      with o e [OF fc] show ?thesis by (simp add: l2_outcome_def)
    next
      case (Flood tagged vid)
      then have "admitted s fc inn tagged vid" "fv_ifindex (fc_fdb_value fc) = 0"
        using fc inn assms(2) by (auto simp: admitted_def l2_decide_def split: option.splits if_splits)
      with Flood o fc show ?thesis by (fastforce simp: l2_outcome_def cached_port_def)
    next
      case (Forward tagged vid p)
      then have a: "admitted s fc inn tagged vid"
        using fc inn assms(2) by (auto simp: admitted_def l2_decide_def split: option.splits if_splits)
      have "found (dst_key s vid) (learned_table H s vid) = Some p \<or> cached_port s = p"
        using Forward admitted_decide [OF a, of H] fc
        by (auto simp: cached_port_def split: option.splits if_splits)
      moreover have "fdb_table s' = learned_table H s vid" "cached_port s' = p"
        using Forward o by (simp_all add: l2_outcome_def)
      ultimately have "cached_port s' = cached_port s \<or> (\<exists>k. found k (fdb_table s') = Some (cached_port s'))"
        by auto
      with a \<open>fdb_table s' = _\<close> show ?thesis by blast
    qed
  qed
qed

lemma xdp_process_keeps_slot:
  assumes "xdp_laws H" and "held s = None" and "xdp_process H s = Some (act, s')"
    and "xdp_forward_config_cache s 0 \<noteq> None"
  shows "xdp_forward_config_cache s' 0 \<noteq> None"
proof -
  have l2: "xdp_forward_config_cache s' 0 \<noteq> None"
    if "xdp_l2_process H (entered fc item s) = Some (act, s')" for fc item
  proof (cases "ifc_ifindex (ici_config item) = 0")
    case True
    with that assms(2) show ?thesis
      by (simp add: xdp_l2_process_uncached [of _ "fc\<lparr>fc_in_if_config := ici_config item\<rparr>"])
        (use entered_sel(6) [of fc item s] in auto)
  next
    case False
    with that assms(2) xdp_l2_process_contract [OF assms(1), of "entered fc item s"
        "fc\<lparr>fc_in_if_config := ici_config item\<rparr>"] show ?thesis by simp
  qed
  have "xdp_forward_config_cache (entered fc item s) 0 \<noteq> None" for fc item by simp
  with l2 assms(2-4) show ?thesis
    by (auto simp: xdp_process_run xdp_l3_process_run split: option.splits if_splits)
qed

section \<open>Invariants\<close>

definition switch_ok :: "xdp_helpers \<Rightarrow> switch \<Rightarrow> bool" where
  "switch_ok H sw \<longleftrightarrow> fdb_ok H (sw_fdb sw) \<and> well_configured (sw_ifaces sw)"

text \<open>A frame in the history that its port admitted to a VLAN.\<close>

definition came_from :: "event list \<Rightarrow> xdp_state \<Rightarrow> u32 \<Rightarrow> bool" where
  "came_from tr s vid \<longleftrightarrow> (\<exists>cpu act fc inn tagged. Received cpu s act \<in> set tr \<and> admitted s fc inn tagged vid)"

lemma came_from_mono: "came_from tr s vid \<Longrightarrow> came_from (e # tr) s vid"
  by (auto simp: came_from_def)

text \<open>Every entry of the forwarding table is one frame's source, VLAN, port and time.\<close>

definition entries_from :: "event list \<Rightarrow> (fdb_key \<rightharpoonup> fdb_value_item) \<Rightarrow> bool" where
  "entries_from tr t \<longleftrightarrow> (\<forall>k item. t k = Some item \<longrightarrow> (\<exists>s vid. came_from tr s vid \<and>
     k = src_key s vid \<and> fvi_value item = \<lparr>fv_ifindex = ingress_ifindex (ctx s), fv_last_seen = ktime s\<rparr>))"

definition port_from :: "event list \<Rightarrow> u32 \<Rightarrow> bool" where
  "port_from tr p \<longleftrightarrow> p = 0 \<or> (\<exists>s vid. came_from tr s vid \<and> ingress_ifindex (ctx s) = p)"

lemma entries_from_mono: "entries_from tr t \<Longrightarrow> entries_from (e # tr) t"
  unfolding entries_from_def using came_from_mono by blast

lemma port_from_mono: "port_from tr p \<Longrightarrow> port_from (e # tr) p"
  unfolding port_from_def using came_from_mono by blast

lemma learned_entries:
  assumes "fdb_update_law H" and "learned H k e t k' = Some item"
  shows "t k' = Some item \<or> k' = k \<and> fvi_value item = \<lparr>fv_ifindex = fst e, fv_last_seen = snd e\<rparr>"
  using assms
  by (cases rule: fdb_update_cases [of H t k "new_item (fst e) (snd e)"])
     (auto simp: learned_def new_item_def split: option.splits if_splits)

lemma entries_from_learned:
  assumes "fdb_update_law H" and "entries_from tr (fdb_table s)" and "admitted s fc inn tagged vid"
  shows "entries_from (Received cpu s act # tr) (learned_table H s vid)"
proof -
  have new: "came_from (Received cpu s act # tr) s vid"
    using assms(3) by (auto simp: came_from_def)
  show ?thesis
    unfolding entries_from_def learned_table_def
  proof (intro allI impI)
    fix k item
    assume "learned H (src_key s vid) (ingress_ifindex (ctx s), ktime s) (fdb_table s) k = Some item"
    from learned_entries [OF assms(1) this]
    show "\<exists>s' vid'. came_from (Received cpu s act # tr) s' vid' \<and> k = src_key s' vid' \<and>
        fvi_value item = \<lparr>fv_ifindex = ingress_ifindex (ctx s'), fv_last_seen = ktime s'\<rparr>"
    proof
      assume "fdb_table s k = Some item"
      with assms(2) show ?thesis unfolding entries_from_def using came_from_mono by blast
    next
      assume "k = src_key s vid \<and> fvi_value item =
        \<lparr>fv_ifindex = fst (ingress_ifindex (ctx s), ktime s), fv_last_seen = snd (ingress_ifindex (ctx s), ktime s)\<rparr>"
      with new show ?thesis by auto
    qed
  qed
qed

lemma found_port_from:
  assumes "entries_from tr t" and "found k t = Some p"
  shows "port_from tr p"
proof -
  obtain item where item: "t k = Some item" "fv_ifindex (fvi_value item) = p"
    using assms(2) by (auto simp: found_def split: option.splits if_splits)
  with assms(1) obtain s vid where "came_from tr s vid"
    "fvi_value item = \<lparr>fv_ifindex = ingress_ifindex (ctx s), fv_last_seen = ktime s\<rparr>"
    unfolding entries_from_def by blast
  with item show ?thesis unfolding port_from_def by auto
qed

definition history_ok :: "event list \<Rightarrow> switch \<Rightarrow> bool" where
  "history_ok tr sw \<longleftrightarrow> entries_from tr (sw_fdb sw) \<and>
     (\<forall>cpu. port_from tr (fv_ifindex (fc_fdb_value (sw_cache sw cpu))))"

lemma switch_ok_step:
  assumes "xdp_laws H" and "switch_step H sw e sw'" and "switch_ok H sw"
  shows "switch_ok H sw'"
  using assms(2,3)
proof cases
  case (receive cpu c m now act s')
  then have "fdb_ok H (fdb_table s')"
    using xdp_process_safe [OF assms(1), of "run_on sw cpu c m now"] assms(3) by (simp add: switch_ok_def)
  with receive assms(3) show ?thesis by (simp add: switch_ok_def store_run_def)
qed (auto simp: switch_ok_def well_configured_def dom_def)

lemma history_ok_step:
  assumes "xdp_laws H" and "switch_step H sw e sw'" and "history_ok tr sw"
  shows "history_ok (e # tr) sw'"
  using assms(2)
proof cases
  case (receive cpu c m now act s')
  let ?s = "run_on sw cpu c m now"
  have learn: "entries_from (e # tr) (learned_table H ?s vid)" if "admitted ?s fc inn tagged vid" for fc inn tagged vid
    unfolding receive(1)
    by (rule entries_from_learned [OF xdp_lawsD(3) [OF assms(1)] _ that]) (use assms(3) in \<open>simp add: history_ok_def\<close>)
  have slot: "xdp_forward_config_cache s' 0 \<noteq> None"
    by (rule xdp_process_keeps_slot [OF assms(1) _ receive(3)]) simp_all
  have old: "entries_from (e # tr) (sw_fdb sw)" "\<And>cpu. port_from (e # tr) (fv_ifindex (fc_fdb_value (sw_cache sw cpu)))"
    using assms(3) by (auto simp: history_ok_def intro: entries_from_mono port_from_mono)
  have h: "held ?s = None" by simp
  from xdp_process_effect [OF assms(1) h receive(3)]
  have "entries_from (e # tr) (fdb_table s') \<and> port_from (e # tr) (cached_port s')"
  proof (elim disjE exE conjE)
    assume "fdb_table s' = fdb_table ?s" "cached_port s' = cached_port ?s"
    with old show ?thesis by simp
  next
    fix fc inn tagged vid
    assume a: "admitted ?s fc inn tagged vid" and t: "fdb_table s' = learned_table H ?s vid"
      and p: "cached_port s' = cached_port ?s"
    with old(2) [of cpu] learn [OF a] show ?thesis by simp
  next
    fix fc inn tagged vid k
    assume a: "admitted ?s fc inn tagged vid" and t: "fdb_table s' = learned_table H ?s vid"
      and p: "found k (fdb_table s') = Some (cached_port s')"
    with learn [OF a] found_port_from [OF _ p] show ?thesis by simp
  qed
  with slot old receive show ?thesis
    by (auto simp: history_ok_def store_run_def cached_port_def split: option.splits)
next
  case (configure item k)
  with assms(3) show ?thesis
    by (auto simp: history_ok_def intro: entries_from_mono port_from_mono)
next
  case (remove k)
  with assms(3) show ?thesis
    by (auto simp: history_ok_def intro: entries_from_mono port_from_mono)
qed

lemma reach_ok:
  assumes "xdp_laws H" and "reach H tr sw"
  shows "switch_ok H sw \<and> history_ok tr sw"
  using assms(2)
proof induction
  case start
  then show ?case
    using xdp_lawsD(3) [OF assms(1)]
    by (simp add: switch_ok_def history_ok_def power_on_def fdb_ok_def well_configured_def entries_from_def
      port_from_def zero_cache_def)
next
  case (more tr sw e sw')
  then show ?case using switch_ok_step [OF assms(1)] history_ok_step [OF assms(1)] by blast
qed

section \<open>Properties\<close>

text \<open>A switch with one access port that has received one frame.\<close>

definition one_port :: switch where
  "one_port = power_on\<lparr>sw_ifaces := (sw_ifaces power_on)(1 \<mapsto> sample_item 1 VLAN_ACCESS 5)\<rparr>"

definition first_frame :: xdp_state where
  "first_frame = run_on one_port 0 (sample_ctx 18 1) (sample_mem (plain_frame mac_a mac_b)) 1000"

lemma reach_one_port: "reach (ref_helpers 0) [Configured 1 (sample_item 1 VLAN_ACCESS 5)] one_port"
  unfolding one_port_def by (rule more [OF start configure]) simp

lemma first_frame_admitted: "admitted first_frame zero_cache (sample_item 1 VLAN_ACCESS 5) False 5"
  by (simp add: first_frame_def admitted_def plain_frame_untagged admit_def frame_tag_def one_port_def power_on_def
    sample_item_def sample_config_def sample_l2_def port_of_def)

lemma first_frame_learned:
  obtains act s' where "xdp_process (ref_helpers 0) first_frame = Some (act, s')"
    and "reach (ref_helpers 0) [Received 0 first_frame act, Configured 1 (sample_item 1 VLAN_ACCESS 5)]
      (store_run one_port 0 s')"
    and "sw_fdb (store_run one_port 0 s') (src_key first_frame 5) = Some (new_item 1 1000)"
proof -
  have tail: "h_tail_call (ref_helpers 0) XDP_ID_L2" by (simp add: prog_array_defs)
  obtain act s' where run: "xdp_process (ref_helpers 0) first_frame = Some (act, s')"
    and "fdb_table s' = learned_table (ref_helpers 0) first_frame 5"
    using admitted_learns [OF ref_helpers_laws tail first_frame_admitted] by (auto simp: succeeds_iff)
  then have "sw_fdb (store_run one_port 0 s') (src_key first_frame 5) = Some (new_item 1 1000)"
    by (simp add: store_run_def learned_table_def learned_def first_frame_def one_port_def power_on_def
      ref_fdb_update_def fdb_table_max_entries_def)
  moreover have "switch_step (ref_helpers 0) one_port (Received 0 first_frame act) (store_run one_port 0 s')"
    using run unfolding first_frame_def by (rule receive)
  ultimately show thesis using run reach_one_port that by (blast intro: more)
qed

text \<open>Whatever frames arrive on whatever CPUs and however the interfaces are reconfigured, the
  forwarding table never holds more than the 10240 entries it declares, and the interface map files
  every entry under its own number.\<close>

theorem switch_tables_in_bounds:
  assumes "xdp_laws H" and "reach H tr sw"
  shows "finite (dom (sw_fdb sw)) \<and> card (dom (sw_fdb sw)) \<le> 10240 \<and> well_configured (sw_ifaces sw)"
  using reach_ok [OF assms] by (simp add: switch_ok_def fdb_ok_def fdb_table_max_entries_def)

theorem switch_tables_in_bounds_witness:
  "card (dom (sw_fdb one_port)) \<le> 10240"
  using switch_tables_in_bounds [OF ref_helpers_laws reach_one_port] by blast

text \<open>The switch invents no forwarding entry. Every entry, at any time, names the source address of
  a frame that was received, a VLAN its port admitted it to, that port, and the time it was
  received.\<close>

theorem fdb_entries_come_from_frames:
  assumes "xdp_laws H" and "reach H tr sw" and "sw_fdb sw k = Some item"
  shows "\<exists>cpu s act fc inn tagged vid. Received cpu s act \<in> set tr \<and> admitted s fc inn tagged vid \<and>
    k = src_key s vid \<and> fvi_value item = \<lparr>fv_ifindex = ingress_ifindex (ctx s), fv_last_seen = ktime s\<rparr>"
  using reach_ok [OF assms(1,2)] assms(3) unfolding history_ok_def entries_from_def came_from_def by blast

theorem fdb_entries_come_from_frames_witness:
  "\<exists>act sw. reach (ref_helpers 0) [Received 0 first_frame act, Configured 1 (sample_item 1 VLAN_ACCESS 5)] sw \<and>
    (\<exists>k item. sw_fdb sw k = Some item \<and> (\<exists>vid. k = src_key first_frame vid) \<and> fv_ifindex (fvi_value item) = 1)"
proof -
  obtain act s' where r: "reach (ref_helpers 0)
      [Received 0 first_frame act, Configured 1 (sample_item 1 VLAN_ACCESS 5)] (store_run one_port 0 s')"
    and f: "sw_fdb (store_run one_port 0 s') (src_key first_frame 5) = Some (new_item 1 1000)"
    by (rule first_frame_learned)
  have "ingress_ifindex (ctx first_frame) = 1" by (simp add: first_frame_def)
  with fdb_entries_come_from_frames [OF ref_helpers_laws r f] r f show ?thesis by fastforce
qed

text \<open>The port in a CPU's cache, which stands in for a missing lookup result, is 0 or a port on
  which some admitted frame was received.\<close>

theorem cached_port_comes_from_frames:
  assumes "xdp_laws H" and "reach H tr sw"
    and "fv_ifindex (fc_fdb_value (sw_cache sw cpu)) = p" and "p \<noteq> 0"
  shows "\<exists>cpu' s act fc inn tagged vid. Received cpu' s act \<in> set tr \<and> admitted s fc inn tagged vid \<and>
    ingress_ifindex (ctx s) = p"
  using reach_ok [OF assms(1,2)] assms(3,4) unfolding history_ok_def port_from_def came_from_def by blast

text \<open>Here the second frame goes to the first one's source, and leaves its port in the cache.\<close>

theorem cached_port_comes_from_frames_witness:
  "\<exists>tr sw. reach (ref_helpers 0) tr sw \<and> fv_ifindex (fc_fdb_value (sw_cache sw 0)) = 1 \<and>
    (\<exists>cpu s act. Received cpu s act \<in> set tr \<and> ingress_ifindex (ctx s) = 1)"
proof -
  obtain act s' where r: "reach (ref_helpers 0)
      [Received 0 first_frame act, Configured 1 (sample_item 1 VLAN_ACCESS 5)] (store_run one_port 0 s')"
    and f: "sw_fdb (store_run one_port 0 s') (src_key first_frame 5) = Some (new_item 1 1000)"
    by (rule first_frame_learned)
  let ?sw = "store_run one_port 0 s'"
  let ?s = "run_on ?sw 0 (sample_ctx 18 1) (sample_mem (plain_frame mac_b mac_a)) 2000"
  have i: "sw_ifaces ?sw = [1 \<mapsto> sample_item 1 VLAN_ACCESS 5]"
    by (simp add: store_run_def one_port_def power_on_def)
  have a: "admitted ?s (sw_cache ?sw 0) (sample_item 1 VLAN_ACCESS 5) False 5"
    by (simp add: i admitted_def plain_frame_untagged admit_def frame_tag_def sample_item_def sample_config_def
      sample_l2_def port_of_def)
  have k: "dst_key ?s 5 = src_key first_frame 5" "dst_key ?s 5 \<noteq> src_key ?s 5"
    by (simp_all add: first_frame_def dst_key_def src_key_def plain_frame_def mac_a_def mac_b_def)
  then have "found (dst_key ?s 5) (learned_table (ref_helpers 0) ?s 5) = Some 1"
    using f by (simp add: found_def learned_table_def learned_other [OF ref_fdb_update_law] new_item_def)
  moreover have tail: "h_tail_call (ref_helpers 0) XDP_ID_L2" by (simp add: prog_array_defs)
  ultimately obtain act2 s2 where run: "xdp_process (ref_helpers 0) ?s = Some (act2, s2)"
    and c: "cached_port s2 = 1" "xdp_forward_config_cache s2 0 \<noteq> None"
    using admitted_learns [OF ref_helpers_laws tail a] by (auto simp: succeeds_iff)
  have r2: "reach (ref_helpers 0) (Received 0 ?s act2 #
      [Received 0 first_frame act, Configured 1 (sample_item 1 VLAN_ACCESS 5)]) (store_run ?sw 0 s2)"
    by (rule more [OF r receive [OF run]])
  have p: "fv_ifindex (fc_fdb_value (sw_cache (store_run ?sw 0 s2) 0)) = 1" using c by simp
  from cached_port_comes_from_frames [OF ref_helpers_laws r2 p] r2 p show ?thesis by fastforce
qed

text \<open>The switch is never stuck, and it is deterministic: in every reachable state, on every CPU,
  every frame is processed to one verdict and one next state, and the verdict is to drop the frame
  or to pass it on.\<close>

theorem switch_never_stuck:
  assumes "xdp_laws H" and "reach H tr sw"
  shows "\<exists>act sw'. switch_step H sw (Received cpu (run_on sw cpu c m now) act) sw' \<and>
    act \<in> {XDP_DROP, XDP_PASS} \<and> reach H (Received cpu (run_on sw cpu c m now) act # tr) sw' \<and>
    (\<forall>act' sw''. switch_step H sw (Received cpu (run_on sw cpu c m now) act') sw'' \<longrightarrow>
       act' = act \<and> sw'' = sw')"
proof -
  obtain act s' where "xdp_process H (run_on sw cpu c m now) = Some (act, s')" "act \<in> {XDP_DROP, XDP_PASS}"
    using xdp_process_safe [OF assms(1), of "run_on sw cpu c m now"] by (auto simp: succeeds_iff)
  then show ?thesis using assms(2) by (blast intro: receive more dest: receive_deterministic)
qed

theorem switch_never_stuck_witness:
  "\<exists>act sw'. switch_step (ref_helpers 0) one_port (Received 0 first_frame act) sw'"
  using switch_never_stuck [OF ref_helpers_laws reach_one_port] unfolding first_frame_def by blast

end
