(* ===== verification/Registry.thy ===== *)
theory Registry
  imports Prelude
begin

text \<open>
  The contract of a registry of ports: entries are added under a free key, changed and removed under
  a taken one, and every call says whether it took effect. Both the port table of the data-plane
  server and the configuration manager of the control plane keep this contract. The locale states it
  as a refinement of operations on a finite map, and shows once what follows for any sequence of calls.
\<close>

section \<open>Specification\<close>

datatype ('k, 'v) call = Add_entry 'k 'v | Del_entry 'k | Set_entry 'k 'v

text \<open>What a call does to the map of entries, and whether it takes effect.\<close>

fun spec_call :: "('k \<Rightarrow> bool) \<Rightarrow> ('k, 'v) call \<Rightarrow> ('k \<rightharpoonup> 'v) \<Rightarrow> bool \<times> ('k \<rightharpoonup> 'v)" where
  "spec_call ok (Add_entry k v) m = (if ok k \<and> m k = None then (True, m(k \<mapsto> v)) else (False, m))"
| "spec_call ok (Del_entry k) m = (if ok k \<and> m k \<noteq> None then (True, m(k := None)) else (False, m))"
| "spec_call ok (Set_entry k v) m = (if ok k \<and> m k \<noteq> None then (True, m(k \<mapsto> v)) else (False, m))"

text \<open>A sequence of calls, with the answers in order.\<close>

fun run_calls :: "('c \<Rightarrow> 's \<Rightarrow> bool \<times> 's) \<Rightarrow> 'c list \<Rightarrow> 's \<Rightarrow> bool list \<times> 's" where
  "run_calls exec [] s = ([], s)"
| "run_calls exec (c # cs) s =
     (let (r, s1) = exec c s; (rs, s2) = run_calls exec cs s1 in (r # rs, s2))"

text \<open>The entry of a key by the log: what the last call that took effect on the key left there.\<close>

fun call_key :: "('k, 'v) call \<Rightarrow> 'k" where
  "call_key (Add_entry k v) = k"
| "call_key (Del_entry k) = k"
| "call_key (Set_entry k v) = k"

fun left_by :: "('k, 'v) call \<Rightarrow> 'v option" where
  "left_by (Add_entry k v) = Some v"
| "left_by (Del_entry k) = None"
| "left_by (Set_entry k v) = Some v"

definition logged :: "(('k, 'v) call \<times> bool) list \<Rightarrow> 'k \<Rightarrow> 'v option" where
  "logged log k = (case filter (\<lambda>(c, r). r \<and> call_key c = k) (rev log) of
     [] \<Rightarrow> None | (c, r) # _ \<Rightarrow> left_by c)"

lemma logged_Nil [simp]: "logged [] = Map.empty"
  by (simp add: logged_def fun_eq_iff)

lemma logged_snoc:
  "logged (log @ [(c, r)]) k = (if r \<and> call_key c = k then left_by c else logged log k)"
  by (simp add: logged_def)

lemma run_calls_length: "length (fst (run_calls exec cs s)) = length cs"
proof (induction cs arbitrary: s)
  case (Cons c cs)
  from Cons.IH [of "snd (exec c s)"] show ?case by (simp add: Let_def case_prod_unfold)
qed simp

lemma run_calls_snoc:
  "run_calls exec (cs @ [c]) s =
     (let (rs, s1) = run_calls exec cs s; (r, s2) = exec c s1 in (rs @ [r], s2))"
  by (induction cs arbitrary: s) (simp_all add: Let_def split: prod.split)

text \<open>The specification is determined by its log.\<close>

lemma spec_call_logged:
  "spec_call ok c m = (r, m') \<Longrightarrow> m' k = (if r \<and> call_key c = k then left_by c else m k)"
  by (cases c) (auto split: if_splits)

lemma spec_calls_logged:
  "run_calls (spec_call ok) cs Map.empty = (rs, m) \<Longrightarrow> m k = logged (zip cs rs) k"
proof (induction cs arbitrary: rs m rule: rev_induct)
  case Nil
  then show ?case by simp
next
  case (snoc c cs)
  obtain rs' m' r where r: "run_calls (spec_call ok) cs Map.empty = (rs', m')"
    "spec_call ok c m' = (r, m)" "rs = rs' @ [r]"
    using snoc.prems by (auto simp: run_calls_snoc Let_def split: prod.splits)
  then have "length rs' = length cs" using run_calls_length by (metis fst_conv)
  with r snoc.IH [OF r(1)] spec_call_logged [OF r(2), of k] show ?case
    by (simp add: logged_snoc)
qed

section \<open>Interface\<close>

locale registry =
  fixes exec :: "('k, 'v) call \<Rightarrow> 's \<Rightarrow> bool \<times> 's"
    and view :: "'s \<Rightarrow> 'k \<rightharpoonup> 'v"
    and ok :: "'k \<Rightarrow> bool"
  assumes exec_refines: "exec c s = (r, s') \<Longrightarrow> spec_call ok c (view s) = (r, view s')"
begin

lemma runs_refine:
  "run_calls exec cs s = (rs, s') \<Longrightarrow> run_calls (spec_call ok) cs (view s) = (rs, view s')"
proof (induction cs arbitrary: s rs)
  case Nil
  then show ?case by simp
next
  case (Cons c cs)
  then show ?case by (auto simp: Let_def exec_refines split: prod.splits)
qed

text \<open>From an empty registry, each entry is what the last effective call on its key left.\<close>

lemma view_is_logged:
  assumes "view s = Map.empty" and "run_calls exec cs s = (rs, s')"
  shows "view s' k = logged (zip cs rs) k"
  using spec_calls_logged [of ok cs rs "view s'"] runs_refine [OF assms(2)] assms(1) by simp

text \<open>A call on one key does not touch another.\<close>

lemma other_key: "exec c s = (r, s') \<Longrightarrow> call_key c \<noteq> k \<Longrightarrow> view s' k = view s k"
  using spec_call_logged [OF exec_refines] by fastforce

text \<open>A call that takes no effect changes nothing, and a key that is not well formed never does.\<close>

lemma refused: "exec c s = (False, s') \<Longrightarrow> view s' = view s"
  using exec_refines [of c s False s'] by (cases c) (auto split: if_splits)

lemma bad_key: "\<not> ok (call_key c) \<Longrightarrow> \<not> fst (exec c s)"
  using exec_refines [of c s "fst (exec c s)" "snd (exec c s)"] by (cases c) (auto split: if_splits)

text \<open>Adding what is not there and removing it is the identity.\<close>

lemma add_then_delete:
  assumes "ok k" and "view s k = None" and "exec (Add_entry k v) s = (r1, s1)"
    and "exec (Del_entry k) s1 = (r2, s2)"
  shows "r1 \<and> r2 \<and> view s1 k = Some v \<and> view s2 = view s"
proof -
  have 1: "r1" "view s1 = (view s)(k \<mapsto> v)" using exec_refines [OF assms(3)] assms(1,2) by auto
  then have "r2" "view s2 = (view s1)(k := None)" using exec_refines [OF assms(4)] assms(1) by auto
  with 1 assms(2) show ?thesis by (simp add: fun_upd_idem)
qed

end

end
