(* ===== verification/Server.thy ===== *)
theory Server
  imports Fdb Layout Registry "HOL-Library.List_Lexorder" "HOL-Library.Product_Lexorder"
begin

text \<open>
  The service of the data plane (server.go): it keeps a table of attached ports, and reads and
  writes the forwarding database by the addresses' text form. The maps are pointers that
  \<open>SetMaps\<close> sets; while they are nil the calls that need them fail. The kernel's map operations are
  a parameter, the record \<open>map_calls\<close>.
\<close>

section \<open>Addresses as text\<close>

text \<open>
  \<open>net.ParseMAC\<close> and \<open>HardwareAddr.String\<close> of the Go library: six, eight or twenty bytes, separated
  by colons or hyphens, or in groups of two bytes by dots. A Go string is its bytes.
\<close>

definition hexDigit :: string where "hexDigit = ''0123456789abcdef''"

definition hex_byte :: "u8 \<Rightarrow> string" where
  "hex_byte b = [hexDigit ! (unat b div 16), hexDigit ! (unat b mod 16)]"

fun mac_string :: "u8 list \<Rightarrow> string" where
  "mac_string [] = ''''"
| "mac_string [b] = hex_byte b"
| "mac_string (b # bs) = hex_byte b @ '':'' @ mac_string bs"

definition hex_value :: "char \<Rightarrow> nat option" where
  "hex_value = map_of (zip ''0123456789abcdefABCDEF'' ([0..<16] @ [10..<16]))"

text \<open>\<open>xtoi\<close> reads hexadecimal digits as far as they go; \<open>xtoi2\<close> reads two characters, if the third is
  the separator or missing.\<close>

definition xtoi :: "string \<Rightarrow> nat option" where
  "xtoi s = (case takeWhile (\<lambda>c. hex_value c \<noteq> None) s of
     [] \<Rightarrow> None | ds \<Rightarrow> Some (foldl (\<lambda>n c. 16 * n + the (hex_value c)) 0 ds))"

definition xtoi2 :: "string \<Rightarrow> char \<Rightarrow> u8 option" where
  "xtoi2 s e = (if 2 < length s \<and> s ! 2 \<noteq> e then None else map_option of_nat (xtoi (take 2 s)))"

definition mac_length :: "nat \<Rightarrow> bool" where
  "mac_length n \<longleftrightarrow> n = 6 \<or> n = 8 \<or> n = 20"

definition ParseMAC :: "string \<Rightarrow> u8 list option" where
  "ParseMAC s =
     (if length s < 14 then None
      else if s ! 2 = CHR '':'' \<or> s ! 2 = CHR ''-'' then
        let n = (length s + 1) div 3 in
        if (length s + 1) mod 3 \<noteq> 0 \<or> \<not> mac_length n then None
        else those (map (\<lambda>i. xtoi2 (drop (3 * i) s) (s ! 2)) [0..<n])
      else if s ! 4 = CHR ''.'' then
        let n = 2 * (length s + 1) div 5 in
        if (length s + 1) mod 5 \<noteq> 0 \<or> \<not> mac_length n then None
        else those (concat (map (\<lambda>i. [xtoi2 (take 2 (drop (5 * i) s)) (CHR 0x00),
          xtoi2 (drop (5 * i + 2) s) (s ! 4)]) [0..<n div 2]))
      else None)"

text \<open>server.go keeps the first six bytes: \<open>copy(result[:], mac)\<close>.\<close>

definition parseMAC :: "string \<Rightarrow> u8 list option" where
  "parseMAC macStr = (case ParseMAC macStr of None \<Rightarrow> None
     | Some mac \<Rightarrow> Some (take 6 mac @ replicate (6 - length mac) 0))"

lemma hex_value_hexDigit: "d < 16 \<Longrightarrow> hex_value (hexDigit ! d) = Some d"
proof -
  have "list_all (\<lambda>d. hex_value (hexDigit ! d) = Some d) [0..<16]" by code_simp
  then show "d < 16 \<Longrightarrow> hex_value (hexDigit ! d) = Some d" by (simp add: list_all_iff)
qed

lemma xtoi_digits:
  assumes "d < 16" and "d' < 16"
  shows "xtoi [hexDigit ! d, hexDigit ! d'] = Some (16 * d + d')"
  using hex_value_hexDigit [OF assms(1)] hex_value_hexDigit [OF assms(2)] by (simp add: xtoi_def)

lemma xtoi_hex_byte: "xtoi (hex_byte b) = Some (unat b)"
proof -
  have "unat b < 256" using unat_less [of b] by simp
  then have "unat b div 16 < 16" by simp
  from xtoi_digits [OF this, of "unat b mod 16"] show ?thesis by (simp only: hex_byte_def) simp
qed

lemma hex_byte_length [simp]: "length (hex_byte b) = 2"
  by (simp add: hex_byte_def)

lemma mac_string_Cons:
  "mac_string (b # bs) = hex_byte b @ (if bs = [] then '''' else '':'' @ mac_string bs)"
  by (cases bs) simp_all

lemma mac_string_length: "length (mac_string bs) = 3 * length bs - 1"
  by (induction bs rule: mac_string.induct) (simp_all add: mac_string_Cons)

lemma drop_mac_string: "i < length bs \<Longrightarrow> drop (3 * i) (mac_string bs) = mac_string (drop i bs)"
proof (induction bs arbitrary: i)
  case (Cons b bs)
  show ?case
  proof (cases i)
    case (Suc j)
    then have "bs \<noteq> []" "j < length bs" using Cons.prems by auto
    then have "drop 3 (mac_string (b # bs)) = mac_string bs" by (simp add: mac_string_Cons)
    moreover have "drop (3 * i) xs = drop (3 * j) (drop 3 xs)" for xs :: string
      by (simp add: Suc add.commute)
    ultimately show ?thesis using Cons.IH [OF \<open>j < length bs\<close>] Suc by (simp only: drop_Suc_Cons)
  qed simp
qed simp

lemma xtoi2_mac_string: "bs \<noteq> [] \<Longrightarrow> xtoi2 (mac_string bs) (CHR '':'') = Some (hd bs)"
  by (cases bs) (auto simp: xtoi2_def mac_string_Cons xtoi_hex_byte nth_append)

lemma those_map_Some: "(\<And>i. i \<in> set is \<Longrightarrow> f i = Some (g i)) \<Longrightarrow> those (map f is) = Some (map g is)"
  by (induction "is") auto

lemma ParseMAC_mac_string:
  assumes "mac_length (length hw)"
  shows "ParseMAC (mac_string hw) = Some hw"
proof -
  let ?s = "mac_string hw"
  have n: "6 \<le> length hw" using assms by (auto simp: mac_length_def)
  then have l: "length ?s + 1 = 3 * length hw" by (simp add: mac_string_length)
  obtain b b' bs where hw: "hw = b # b' # bs" using n by (cases hw rule: mac_string.cases) auto
  have sep: "?s ! 2 = CHR '':''" by (simp add: hw nth_append)
  have "those (map (\<lambda>i. xtoi2 (drop (3 * i) ?s) (CHR '':'')) [0..<length hw]) = Some (map ((!) hw) [0..<length hw])"
    by (rule those_map_Some) (simp add: drop_mac_string xtoi2_mac_string hd_drop_conv_nth)
  then show ?thesis using l n assms sep by (simp add: ParseMAC_def map_nth)
qed

lemma parseMAC_mac_string: "mac_length (length hw) \<Longrightarrow> parseMAC (mac_string hw) = Some (take 6 hw)"
  by (auto simp: parseMAC_def ParseMAC_mac_string mac_length_def)

section \<open>The order of keys\<close>

text \<open>Keys are ordered by their fields, so that the library's sorting applies to them.\<close>

instantiation fdb_key_ext :: (linorder) linorder
begin

definition fields_of :: "'a fdb_key_scheme \<Rightarrow> u8 list \<times> u16 \<times> 'a" where
  "fields_of k = (fk_mac k, fk_vlan_id k, fdb_key.more k)"

definition less_eq_fdb_key_ext :: "'a fdb_key_scheme \<Rightarrow> 'a fdb_key_scheme \<Rightarrow> bool" where
  "less_eq_fdb_key_ext k k' \<longleftrightarrow> fields_of k \<le> fields_of k'"

definition less_fdb_key_ext :: "'a fdb_key_scheme \<Rightarrow> 'a fdb_key_scheme \<Rightarrow> bool" where
  "less_fdb_key_ext k k' \<longleftrightarrow> fields_of k < fields_of k'"

instance
proof
  fix x y z :: "'a fdb_key_scheme"
  have inj: "fields_of x = fields_of y \<Longrightarrow> x = y" by (simp add: fields_of_def)
  show "x < y \<longleftrightarrow> x \<le> y \<and> \<not> y \<le> x"
    unfolding less_eq_fdb_key_ext_def less_fdb_key_ext_def by (rule less_le_not_le)
  show "x \<le> x" unfolding less_eq_fdb_key_ext_def by (rule order.refl)
  show "x \<le> y \<or> y \<le> x" unfolding less_eq_fdb_key_ext_def by (rule linear)
  show "x \<le> y \<Longrightarrow> y \<le> z \<Longrightarrow> x \<le> z" unfolding less_eq_fdb_key_ext_def by (rule order.trans)
  show "x \<le> y \<Longrightarrow> y \<le> x \<Longrightarrow> x = y"
    unfolding less_eq_fdb_key_ext_def by (rule inj) (rule order.antisym)
qed

end

section \<open>State\<close>

type_synonym fdb_map = "fdb_key \<rightharpoonup> fdb_value_item"

record port_info =
  pi_Name :: string
  pi_Mode :: string
  pi_Ifindex :: u32

record server =
  ifaceConfigMap :: "(u32 \<rightharpoonup> iface_config_item) option"
  fdbMap :: "fdb_map option"
  ports :: "u32 \<rightharpoonup> port_info"

text \<open>The part of a message that carries a configuration (proto.PortConfig); it may be absent.\<close>

record proto_port_config =
  pc_Name :: string
  pc_Mode :: string

definition GetName :: "proto_port_config option \<Rightarrow> string" where
  "GetName x = (case x of Some c \<Rightarrow> pc_Name c | None \<Rightarrow> '''')"

definition GetMode :: "proto_port_config option \<Rightarrow> string" where
  "GetMode x = (case x of Some c \<Rightarrow> pc_Mode c | None \<Rightarrow> '''')"

record rpc_response =
  Success :: bool
  Error :: string

definition rpc_ok :: rpc_response where "rpc_ok = \<lparr>Success = True, Error = ''''\<rparr>"
definition rpc_error :: "string \<Rightarrow> rpc_response" where "rpc_error msg = \<lparr>Success = False, Error = msg\<rparr>"

record fdb_entry =
  fe_Mac :: string
  fe_VlanId :: u32
  fe_Ifindex :: u32
  fe_LastSeen :: int

text \<open>The kernel's map operations: an error message, or the map afterwards; and an iteration.\<close>

record map_calls =
  k_update :: "fdb_map \<Rightarrow> fdb_key \<Rightarrow> fdb_value_item \<Rightarrow> string + fdb_map"
  k_delete :: "fdb_map \<Rightarrow> fdb_key \<Rightarrow> string + fdb_map"
  k_iterate :: "fdb_map \<Rightarrow> (fdb_key \<times> fdb_value_item) list"

text \<open>
  Documented: an update with \<open>UpdateAny\<close> that succeeds creates or replaces the entry; a deletion
  succeeds only on a key that is there, and removes it; an iteration over a map at rest visits every
  entry once.
\<close>

definition map_laws :: "map_calls \<Rightarrow> bool" where
  "map_laws K \<longleftrightarrow>
     (\<forall>t k v t'. k_update K t k v = Inr t' \<longrightarrow> t' = t(k \<mapsto> v)) \<and>
     (\<forall>t k t'. k_delete K t k = Inr t' \<longrightarrow> t k \<noteq> None \<and> t' = t(k := None)) \<and>
     (\<forall>t. finite (dom t) \<longrightarrow> distinct (k_iterate K t) \<and> set (k_iterate K t) = {(k, v). t k = Some v})"

section \<open>Operations\<close>

definition NewServer :: server where
  "NewServer = \<lparr>ifaceConfigMap = None, fdbMap = None, ports = Map.empty\<rparr>"

definition SetMaps :: "(u32 \<rightharpoonup> iface_config_item) option \<Rightarrow> fdb_map option \<Rightarrow> server \<Rightarrow> server" where
  "SetMaps im fm s = s\<lparr>ifaceConfigMap := im, fdbMap := fm\<rparr>"

definition AttachPort :: "u32 \<Rightarrow> proto_port_config option \<Rightarrow> server \<Rightarrow> rpc_response \<times> server" where
  "AttachPort ifindex config s =
     (if ports s ifindex \<noteq> None then (rpc_error ''port already attached'', s)
      else (rpc_ok, s\<lparr>ports := (ports s)(ifindex \<mapsto>
        \<lparr>pi_Name = GetName config, pi_Mode = GetMode config, pi_Ifindex = ifindex\<rparr>)\<rparr>))"

definition DetachPort :: "u32 \<Rightarrow> server \<Rightarrow> rpc_response \<times> server" where
  "DetachPort ifindex s =
     (if ports s ifindex = None then (rpc_error ''port not found'', s)
      else (rpc_ok, s\<lparr>ports := (ports s)(ifindex := None)\<rparr>))"

definition fdb_key_for :: "u8 list \<Rightarrow> u32 \<Rightarrow> fdb_key" where
  "fdb_key_for mac vlan = \<lparr>fk_mac = mac, fk_vlan_id = ucast vlan\<rparr>"

definition AddFdbEntry :: "map_calls \<Rightarrow> string \<Rightarrow> u32 \<Rightarrow> u32 \<Rightarrow> server \<Rightarrow> rpc_response \<times> server" where
  "AddFdbEntry K macStr vlan ifindex s = (case fdbMap s of
     None \<Rightarrow> (rpc_error ''fdb map not initialized'', s)
   | Some t \<Rightarrow> (case parseMAC macStr of
       None \<Rightarrow> (rpc_error ''invalid MAC address'', s)
     | Some mac \<Rightarrow> (case k_update K t (fdb_key_for mac vlan) (new_item ifindex 0) of
         Inl err \<Rightarrow> (rpc_error err, s)
       | Inr t' \<Rightarrow> (rpc_ok, s\<lparr>fdbMap := Some t'\<rparr>))))"

definition DelFdbEntry :: "map_calls \<Rightarrow> string \<Rightarrow> u32 \<Rightarrow> server \<Rightarrow> rpc_response \<times> server" where
  "DelFdbEntry K macStr vlan s = (case fdbMap s of
     None \<Rightarrow> (rpc_error ''fdb map not initialized'', s)
   | Some t \<Rightarrow> (case parseMAC macStr of
       None \<Rightarrow> (rpc_error ''invalid MAC address'', s)
     | Some mac \<Rightarrow> (case k_delete K t (fdb_key_for mac vlan) of
         Inl err \<Rightarrow> (rpc_error err, s)
       | Inr t' \<Rightarrow> (rpc_ok, s\<lparr>fdbMap := Some t'\<rparr>))))"

definition entry_of :: "fdb_key \<times> fdb_value_item \<Rightarrow> fdb_entry" where
  "entry_of kv = \<lparr>fe_Mac = mac_string (take 6 (fk_mac (fst kv))), fe_VlanId = ucast (fk_vlan_id (fst kv)),
     fe_Ifindex = fv_ifindex (fvi_value (snd kv)), fe_LastSeen = sint (fv_last_seen (fvi_value (snd kv)))\<rparr>"

definition GetFdbTable :: "map_calls \<Rightarrow> server \<Rightarrow> fdb_entry list" where
  "GetFdbTable K s = (case fdbMap s of None \<Rightarrow> [] | Some t \<Rightarrow> map entry_of (k_iterate K t))"

definition GetPortConfig :: "u32 \<Rightarrow> server \<Rightarrow> string + proto_port_config" where
  "GetPortConfig ifindex s = (case ports s ifindex of
     None \<Rightarrow> Inl ''port not found''
   | Some p \<Rightarrow> Inr \<lparr>pc_Name = pi_Name p, pc_Mode = pi_Mode p\<rparr>)"

definition UpdatePortConfig :: "u32 \<Rightarrow> proto_port_config option \<Rightarrow> server \<Rightarrow> rpc_response \<times> server" where
  "UpdatePortConfig ifindex config s = (case ports s ifindex of
     None \<Rightarrow> (rpc_error ''port not found'', s)
   | Some p \<Rightarrow> (rpc_ok, if config = None then s
       else s\<lparr>ports := (ports s)(ifindex \<mapsto> p\<lparr>pi_Name := GetName config, pi_Mode := GetMode config\<rparr>)\<rparr>))"

lemmas rpc_defs = rpc_ok_def rpc_error_def AttachPort_def DetachPort_def AddFdbEntry_def DelFdbEntry_def
  UpdatePortConfig_def

section \<open>The port table keeps the contract of a registry\<close>

definition server_call :: "(u32, proto_port_config) call \<Rightarrow> server \<Rightarrow> bool \<times> server" where
  "server_call c s = (case c of
     Add_entry i cfg \<Rightarrow> apfst Success (AttachPort i (Some cfg) s)
   | Del_entry i \<Rightarrow> apfst Success (DetachPort i s)
   | Set_entry i cfg \<Rightarrow> apfst Success (UpdatePortConfig i (Some cfg) s))"

definition server_ports :: "server \<Rightarrow> u32 \<rightharpoonup> proto_port_config" where
  "server_ports s i = (case GetPortConfig i s of Inl _ \<Rightarrow> None | Inr cfg \<Rightarrow> Some cfg)"

lemma server_ports_eq:
  "server_ports s i = map_option (\<lambda>p. \<lparr>pc_Name = pi_Name p, pc_Mode = pi_Mode p\<rparr>) (ports s i)"
  by (simp add: server_ports_def GetPortConfig_def split: option.split)

interpretation sp: registry server_call server_ports "\<lambda>_. True"
proof
  fix c s r s'
  assume "server_call c s = (r, s')"
  then show "spec_call (\<lambda>_. True) c (server_ports s) = (r, server_ports s')"
    by (cases c) (auto simp: server_call_def rpc_defs server_ports_eq fun_eq_iff GetName_def GetMode_def
      split: if_splits option.splits)
qed

lemma server_call_maps:
  "run_calls server_call cs s = (rs, s') \<Longrightarrow> fdbMap s' = fdbMap s \<and> ifaceConfigMap s' = ifaceConfigMap s"
proof (induction cs arbitrary: s rs)
  case Nil
  then show ?case by simp
next
  case (Cons c cs)
  obtain r s1 where s1: "server_call c s = (r, s1)" by fastforce
  then have "fdbMap s1 = fdbMap s \<and> ifaceConfigMap s1 = ifaceConfigMap s"
    by (cases c) (auto simp: server_call_def rpc_defs split: if_splits option.splits)
  with s1 Cons show ?case by (auto simp: Let_def split: prod.splits)
qed

section \<open>Properties\<close>

text \<open>Map operations that never fail but on a missing key, for the witnesses; the iteration goes by
  the order of the keys.\<close>

definition sample_calls :: map_calls where
  "sample_calls = \<lparr>k_update = (\<lambda>t k v. Inr (t(k \<mapsto> v))),
     k_delete = (\<lambda>t k. if t k = None then Inl ''key does not exist'' else Inr (t(k := None))),
     k_iterate = (\<lambda>t. map (\<lambda>k. (k, the (t k))) (sorted_list_of_set (dom t)))\<rparr>"

lemma sample_calls_laws [simp]: "map_laws sample_calls"
  by (auto simp: map_laws_def sample_calls_def distinct_map inj_on_def image_iff split: if_splits)

text \<open>An address survives its text form: what the service prints it reads back, for each of the
  three lengths the format allows, so different addresses have different texts. The service itself
  keeps the first six bytes only: a longer address is not refused but cut.\<close>

theorem mac_text_roundtrip:
  assumes "mac_length (length hw)" and "mac_length (length hw')"
  shows "ParseMAC (mac_string hw) = Some hw \<and> (mac_string hw = mac_string hw' \<longleftrightarrow> hw = hw') \<and>
    parseMAC (mac_string hw) = Some (take 6 hw)"
  using ParseMAC_mac_string [OF assms(1)] ParseMAC_mac_string [OF assms(2)] parseMAC_mac_string [OF assms(1)]
  by (metis option.inject)

theorem mac_text_roundtrip_witness:
  "parseMAC (mac_string [2, 0, 0, 0, 0, 0xA, 7, 8]) = Some [2, 0, 0, 0, 0, 0xA] \<and>
   mac_string [2, 0, 0, 0, 0, 0xA] = ''02:00:00:00:00:0a''"
  using mac_text_roundtrip [of "[2, 0, 0, 0, 0, 0xA, 7, 8]" "[2, 0, 0, 0, 0, 0xA, 7, 8]"]
  by (simp add: mac_length_def hex_byte_def hexDigit_def)

lemma added_entry:
  assumes "map_laws K" and "fdbMap srv = Some t" and "length mac = 6"
    and "AddFdbEntry K (mac_string mac) vlan ifindex srv = (r, srv')" and "Success r"
  shows "fdbMap srv' = Some (t(fdb_key_for mac vlan \<mapsto> new_item ifindex 0))"
  using assms parseMAC_mac_string [of mac]
  by (auto simp: AddFdbEntry_def rpc_error_def rpc_ok_def map_laws_def mac_length_def split: sum.splits)


definition sample_server :: server where
  "sample_server = SetMaps (Some Map.empty) (Some Map.empty) NewServer"

lemma sample_server_sel [simp]: "fdbMap sample_server = Some Map.empty" "ports sample_server = Map.empty"
  by (simp_all add: sample_server_def SetMaps_def NewServer_def)

lemma sample_add:
  "length mac = 6 \<Longrightarrow> AddFdbEntry sample_calls (mac_string mac) vlan i sample_server =
     (rpc_ok, sample_server\<lparr>fdbMap := Some [fdb_key_for mac vlan \<mapsto> new_item i 0]\<rparr>)"
  by (simp add: AddFdbEntry_def parseMAC_mac_string mac_length_def sample_calls_def)

lemma mac_a_length: "length mac_a = 6"
  by (simp add: mac_a_def)


lemma ucast_u16_u32 [simp]: "(ucast (ucast (x :: u16) :: u32) :: u16) = x"
  by (rule bit_word_eqI) (simp add: bit_simps)

lemma entry_names_key:
  "length (fk_mac k) = 6 \<Longrightarrow> parseMAC (fe_Mac (entry_of (k, v))) = Some (fk_mac k) \<and>
     fdb_key_for (fk_mac k) (fe_VlanId (entry_of (k, v))) = k"
  using parseMAC_mac_string [of "fk_mac k"] by (simp add: entry_of_def mac_length_def fdb_key_for_def)

text \<open>Removing an entry from a map removes its image, when no other entry has the same.\<close>

lemma image_without:
  assumes "t k = Some v" and "\<And>k' v'. t k' = Some v' \<Longrightarrow> f (k', v') = f (k, v) \<Longrightarrow> k' = k"
  shows "f ` {(k', v'). (t(k := None)) k' = Some v'} = f ` {(k', v'). t k' = Some v'} - {f (k, v)}"
proof (rule set_eqI, rule iffI)
  fix x assume "x \<in> f ` {(k', v'). (t(k := None)) k' = Some v'}"
  then show "x \<in> f ` {(k', v'). t k' = Some v'} - {f (k, v)}"
    using assms(2) by (auto split: if_splits)
next
  fix x assume "x \<in> f ` {(k', v'). t k' = Some v'} - {f (k, v)}"
  then obtain k' v' where x: "t k' = Some v'" "x = f (k', v')" "x \<noteq> f (k, v)" by auto
  then have "k' \<noteq> k" using assms(1) by auto
  with x show "x \<in> f ` {(k', v'). (t(k := None)) k' = Some v'}" by force
qed



text \<open>The port table is what the answers say it is. After any sequence of attach, detach and update
  calls on a fresh server, the configuration it reports for a port is the one of the last call on
  that port that it answered with success; and none of these calls touches the maps of the kernel:
  attaching a port configures nothing and changes no forwarding.\<close>

theorem server_ports_follow_the_answers:
  assumes "ports s = Map.empty" and "run_calls server_call cs s = (rs, s')"
  shows "(case GetPortConfig i s' of Inl _ \<Rightarrow> None | Inr cfg \<Rightarrow> Some cfg) = logged (zip cs rs) i \<and>
    fdbMap s' = fdbMap s \<and> ifaceConfigMap s' = ifaceConfigMap s"
proof -
  have "server_ports s = Map.empty" by (simp add: server_ports_eq assms(1) fun_eq_iff)
  from sp.view_is_logged [OF this assms(2), of i] server_call_maps [OF assms(2)]
  show ?thesis by (simp add: server_ports_def)
qed

theorem server_ports_follow_the_answers_witness:
  "\<exists>s'. run_calls server_call [Add_entry 3 \<lparr>pc_Name = ''eth0'', pc_Mode = ''l2''\<rparr>,
      Add_entry 3 \<lparr>pc_Name = ''eth1'', pc_Mode = ''l2''\<rparr>] sample_server = ([True, False], s') \<and>
    GetPortConfig 3 s' = Inr \<lparr>pc_Name = ''eth0'', pc_Mode = ''l2''\<rparr>"
proof -
  let ?cs = "[Add_entry 3 \<lparr>pc_Name = ''eth0'', pc_Mode = ''l2''\<rparr>, Add_entry 3 \<lparr>pc_Name = ''eth1'', pc_Mode = ''l2''\<rparr>]"
  obtain s' where s': "run_calls server_call ?cs sample_server = ([True, False], s')"
    by (simp add: server_call_def rpc_defs)
  have "(case GetPortConfig 3 s' of Inl _ \<Rightarrow> None | Inr cfg \<Rightarrow> Some cfg) = Some \<lparr>pc_Name = ''eth0'', pc_Mode = ''l2''\<rparr>"
    using server_ports_follow_the_answers [OF _ s', of 3] by (simp add: logged_def)
  with s' show ?thesis by (auto split: sum.splits)
qed

end
