(* ===== verification/Served.thy ===== *)
theory Served
  imports Switch Server
begin

text \<open>
  The switch together with the service of the data plane, which share the forwarding database: any
  sequence of frames, configuration changes and service calls, each run whole. The service holds a
  handle of the map, so it sees the table of the switch as it is when the call runs. The questions
  are how an entry comes, and whether it ever goes.
\<close>

section \<open>Steps\<close>

datatype rpc_request =
    Add_fdb string u32 u32
  | Del_fdb string u32
  | Attach u32 "proto_port_config option"
  | Detach u32
  | Update_port u32 "proto_port_config option"

fun serve_rpc :: "map_calls \<Rightarrow> rpc_request \<Rightarrow> server \<Rightarrow> rpc_response \<times> server" where
  "serve_rpc K (Add_fdb mac vlan i) = AddFdbEntry K mac vlan i"
| "serve_rpc K (Del_fdb mac vlan) = DelFdbEntry K mac vlan"
| "serve_rpc K (Attach i cfg) = AttachPort i cfg"
| "serve_rpc K (Detach i) = DetachPort i"
| "serve_rpc K (Update_port i cfg) = UpdatePortConfig i cfg"

text \<open>The key a request writes or deletes.\<close>

fun request_key :: "rpc_request \<Rightarrow> fdb_key option" where
  "request_key (Add_fdb mac vlan i) = map_option (\<lambda>m. fdb_key_for m vlan) (parseMAC mac)"
| "request_key (Del_fdb mac vlan) = map_option (\<lambda>m. fdb_key_for m vlan) (parseMAC mac)"
| "request_key _ = None"

text \<open>The handles of the service name the maps of the switch.\<close>

definition share :: "switch \<Rightarrow> server \<Rightarrow> server" where
  "share sw srv = srv\<lparr>ifaceConfigMap := map_option (\<lambda>_. sw_ifaces sw) (ifaceConfigMap srv),
     fdbMap := map_option (\<lambda>_. sw_fdb sw) (fdbMap srv)\<rparr>"

datatype served_event = Switched event | Called rpc_request rpc_response | Maps_set

inductive served_step ::
  "xdp_helpers \<Rightarrow> map_calls \<Rightarrow> switch \<times> server \<Rightarrow> served_event \<Rightarrow> switch \<times> server \<Rightarrow> bool" for H K where
  switched: "switch_step H sw e sw' \<Longrightarrow> served_step H K (sw, srv) (Switched e) (sw', share sw' srv)"
| called: "serve_rpc K r srv = (resp, srv') \<Longrightarrow> served_step H K (sw, srv) (Called r resp)
    (case fdbMap srv' of None \<Rightarrow> sw | Some t \<Rightarrow> sw\<lparr>sw_fdb := t\<rparr>, srv')"
| maps_set: "served_step H K (sw, srv) Maps_set
    (sw, SetMaps (Some (sw_ifaces sw)) (Some (sw_fdb sw)) srv)"

inductive_cases served_switchedE: "served_step H K x (Switched e) y"
inductive_cases served_calledE: "served_step H K x (Called r resp) y"
inductive_cases served_maps_setE: "served_step H K x Maps_set y"

text \<open>A run with its events, the last one first.\<close>

inductive served_run ::
  "xdp_helpers \<Rightarrow> map_calls \<Rightarrow> switch \<times> server \<Rightarrow> served_event list \<Rightarrow> switch \<times> server \<Rightarrow> bool" for H K where
  stay: "served_run H K x [] x"
| go: "served_run H K x es y \<Longrightarrow> served_step H K y e z \<Longrightarrow> served_run H K x (e # es) z"

definition fresh_start :: "switch \<times> server" where
  "fresh_start = (power_on, NewServer)"

section \<open>What a call does to the table\<close>

text \<open>Of the service's calls only two write the table, each at its own key.\<close>

text \<open>Documented for a hash map: a new entry is refused when the map is full.\<close>

definition map_bound :: "map_calls \<Rightarrow> bool" where
  "map_bound K \<longleftrightarrow> (\<forall>t k v t'. k_update K t k v = Inr t' \<longrightarrow> finite (dom t) \<longrightarrow>
     card (dom t) \<le> fdb_table_max_entries \<longrightarrow> card (dom t') \<le> fdb_table_max_entries)"

lemma serve_table:
  assumes "map_laws K" and "serve_rpc K r srv = (resp, srv')" and "fdbMap srv = Some t"
  obtains (same) "fdbMap srv' = Some t" and "\<not> Success resp \<or> request_key r = None"
  | (added) mac vlan i m where "r = Add_fdb mac vlan i" and "parseMAC mac = Some m" and "Success resp"
      and "fdbMap srv' = Some (t(fdb_key_for m vlan \<mapsto> new_item i 0))"
      and "k_update K t (fdb_key_for m vlan) (new_item i 0) = Inr (t(fdb_key_for m vlan \<mapsto> new_item i 0))"
  | (deleted) mac vlan m where "r = Del_fdb mac vlan" and "parseMAC mac = Some m" and "Success resp"
      and "fdbMap srv' = Some (t(fdb_key_for m vlan := None))"
proof (cases r)
  case (Add_fdb mac vlan i)
  show ?thesis
  proof (cases "parseMAC mac")
    case None
    with Add_fdb assms show ?thesis by (intro same) (auto simp: rpc_defs)
  next
    case (Some m)
    show ?thesis
    proof (cases "k_update K t (fdb_key_for m vlan) (new_item i 0)")
      case (Inl err)
      with Some Add_fdb assms show ?thesis by (intro same) (auto simp: rpc_defs)
    next
      case (Inr t')
      then have "t' = t(fdb_key_for m vlan \<mapsto> new_item i 0)" using assms(1) by (auto simp: map_laws_def)
      with Inr Some Add_fdb assms show ?thesis by (intro added) (auto simp: rpc_defs)
    qed
  qed
next
  case (Del_fdb mac vlan)
  show ?thesis
  proof (cases "parseMAC mac")
    case None
    with Del_fdb assms show ?thesis by (intro same) (auto simp: rpc_defs)
  next
    case (Some m)
    show ?thesis
    proof (cases "k_delete K t (fdb_key_for m vlan)")
      case (Inl err)
      with Some Del_fdb assms show ?thesis by (intro same) (auto simp: rpc_defs)
    next
      case (Inr t')
      then have "t' = t(fdb_key_for m vlan := None)" using assms(1) by (auto simp: map_laws_def)
      with Inr Some Del_fdb assms show ?thesis by (intro deleted) (auto simp: rpc_defs)
    qed
  qed
qed (use assms in \<open>auto simp: rpc_defs intro!: same split: if_splits option.splits\<close>)

lemma serve_unset:
  "serve_rpc K r srv = (resp, srv') \<Longrightarrow> fdbMap srv = None \<Longrightarrow> fdbMap srv' = None \<and> (request_key r \<noteq> None \<longrightarrow> \<not> Success resp)"
  by (cases r) (auto simp: rpc_defs split: if_splits option.splits)

section \<open>What a step does to the table\<close>

definition table_of :: "switch \<times> server \<Rightarrow> fdb_key \<rightharpoonup> fdb_value_item" where
  "table_of x = sw_fdb (fst x)"

definition served_ok :: "xdp_helpers \<Rightarrow> switch \<times> server \<Rightarrow> bool" where
  "served_ok H x \<longleftrightarrow> switch_ok H (fst x) \<and> fdbMap (snd x) \<in> {None, Some (table_of x)}"

lemma switch_step_table:
  assumes "xdp_laws H" and "switch_step H sw e sw'"
  obtains (same) "sw_fdb sw' = sw_fdb sw"
  | (learns) cpu s act fc inn tagged vid where "e = Received cpu s act" and "admitted s fc inn tagged vid"
      and "fdb_table s = sw_fdb sw" and "sw_fdb sw' = learned_table H s vid"
  using assms(2)
proof cases
  case (receive cpu c m now act s')
  from xdp_process_effect [OF assms(1) _ receive(3)] receive show ?thesis
    by (auto simp: store_run_def intro: same learns)
qed (auto intro: same)

lemma served_step_table:
  assumes "xdp_laws H" and "map_laws K" and "served_ok H x" and "served_step H K x e y"
  obtains (same) "table_of y = table_of x"
  | (learns) cpu s act fc inn tagged vid where "e = Switched (Received cpu s act)"
      and "admitted s fc inn tagged vid" and "table_of y = learned H (src_key s vid)
        (ingress_ifindex (ctx s), ktime s) (table_of x)"
  | (added) mac vlan i m resp where "e = Called (Add_fdb mac vlan i) resp" and "parseMAC mac = Some m"
      and "Success resp" and "table_of y = (table_of x)(fdb_key_for m vlan \<mapsto> new_item i 0)"
      and "k_update K (table_of x) (fdb_key_for m vlan) (new_item i 0) = Inr (table_of y)"
  | (deleted) mac vlan m resp where "e = Called (Del_fdb mac vlan) resp" and "parseMAC mac = Some m"
      and "Success resp" and "table_of y = (table_of x)(fdb_key_for m vlan := None)"
  using assms(4)
proof cases
  case (switched sw e' sw' srv)
  from assms(1) switched(4) show ?thesis
  proof (cases rule: switch_step_table)
    case same
    with switched show ?thesis by (intro that(1)) (simp add: table_of_def)
  next
    case learns
    with switched show ?thesis by (intro that(2)) (auto simp: table_of_def learned_table_def)
  qed
next
  case (called r srv resp srv' sw)
  show ?thesis
  proof (cases "fdbMap srv")
    case None
    with serve_unset [OF called(4) None] called show ?thesis by (intro that(1)) (simp add: table_of_def)
  next
    case (Some t)
    then have t: "t = table_of x" using assms(3) called by (simp add: served_ok_def)
    from assms(2) called(4) Some show ?thesis
    proof (cases rule: serve_table)
      case same
      with called t show ?thesis by (intro that(1)) (simp add: table_of_def)
    next
      case added
      with called t show ?thesis by (intro that(3)) (auto simp: table_of_def)
    next
      case deleted
      with called t show ?thesis by (intro that(4)) (auto simp: table_of_def)
    qed
  qed
next
  case (maps_set sw srv)
  then show ?thesis by (intro that(1)) (simp add: table_of_def)
qed

lemma served_ok_step:
  assumes "xdp_laws H" and "map_laws K" and "map_bound K" and "served_ok H x" and "served_step H K x e y"
  shows "served_ok H y"
proof -
  have fdb: "finite (dom (table_of x))" "card (dom (table_of x)) \<le> fdb_table_max_entries" "fdb_update_law H"
    using assms(4) by (simp_all add: served_ok_def switch_ok_def fdb_ok_def table_of_def)
  have ok: "fdb_ok H (table_of y)"
    using assms(1,2,4,5)
  proof (cases rule: served_step_table)
    case same
    with fdb show ?thesis by (simp add: fdb_ok_def)
  next
    case learns
    with fdb learned_ok [of H "table_of x"] show ?thesis by (simp add: fdb_ok_def)
  next
    case (added mac vlan i m resp)
    then have "card (dom (table_of y)) \<le> fdb_table_max_entries"
      using assms(3) fdb unfolding map_bound_def by blast
    with added fdb show ?thesis by (simp add: fdb_ok_def)
  next
    case deleted
    then have "dom (table_of y) \<subseteq> dom (table_of x)" by auto
    with fdb show ?thesis by (metis card_mono fdb_ok_def finite_subset le_trans)
  qed
  have "well_configured (sw_ifaces (fst y)) \<and> fdbMap (snd y) \<in> {None, Some (table_of y)}"
    using assms(5)
  proof cases
    case (switched sw e' sw' srv)
    with assms(1,4) show ?thesis
      using switch_ok_step [OF assms(1) switched(4)]
      by (auto simp: served_ok_def switch_ok_def table_of_def share_def)
  next
    case (called r srv resp srv' sw)
    with assms(4) show ?thesis
      by (auto simp: served_ok_def switch_ok_def table_of_def split: option.splits)
  next
    case (maps_set sw srv)
    with assms(4) show ?thesis by (simp add: served_ok_def switch_ok_def table_of_def SetMaps_def)
  qed
  with ok show ?thesis by (simp add: served_ok_def switch_ok_def table_of_def)
qed

lemma served_run_ok:
  assumes "served_run H K x es y" and "xdp_laws H" and "map_laws K" and "map_bound K" and "served_ok H x"
  shows "served_ok H y"
  using assms by induction (blast intro: served_ok_step)+

lemma fresh_start_ok: "xdp_laws H \<Longrightarrow> served_ok H fresh_start"
  using reach_ok [OF _ start] by (simp add: served_ok_def fresh_start_def NewServer_def)

lemma served_reach_ok:
  "served_run H K fresh_start es x \<Longrightarrow> xdp_laws H \<Longrightarrow> map_laws K \<Longrightarrow> map_bound K \<Longrightarrow> served_ok H x"
  by (rule served_run_ok) (auto intro: fresh_start_ok)

section \<open>Where entries come from and how long they last\<close>

definition heard :: "served_event list \<Rightarrow> fdb_key \<Rightarrow> fdb_value \<Rightarrow> bool" where
  "heard es k v \<longleftrightarrow> (\<exists>cpu s act fc inn tagged vid. Switched (Received cpu s act) \<in> set es \<and>
     admitted s fc inn tagged vid \<and> k = src_key s vid \<and>
     v = \<lparr>fv_ifindex = ingress_ifindex (ctx s), fv_last_seen = ktime s\<rparr>)"

definition ordered :: "served_event list \<Rightarrow> fdb_key \<Rightarrow> fdb_value \<Rightarrow> bool" where
  "ordered es k v \<longleftrightarrow> (\<exists>mac vlan i resp. Called (Add_fdb mac vlan i) resp \<in> set es \<and> Success resp \<and>
     request_key (Add_fdb mac vlan i) = Some k \<and> v = \<lparr>fv_ifindex = i, fv_last_seen = 0\<rparr>)"

text \<open>No frame from the address in this VLAN, and no successful call for it, is among the events.\<close>

definition silent_about :: "fdb_key \<Rightarrow> served_event list \<Rightarrow> bool" where
  "silent_about k es \<longleftrightarrow> (\<nexists>v. heard es k v) \<and>
     (\<forall>r resp. Called r resp \<in> set es \<longrightarrow> Success resp \<longrightarrow> request_key r \<noteq> Some k)"

definition no_deletion :: "served_event list \<Rightarrow> bool" where
  "no_deletion es \<longleftrightarrow> (\<forall>mac vlan resp. Called (Del_fdb mac vlan) resp \<in> set es \<longrightarrow> \<not> Success resp)"

lemma no_deletion_Cons: "no_deletion (e # es) \<Longrightarrow> no_deletion es \<and> no_deletion [e]"
  by (auto simp: no_deletion_def)

lemma heard_mono: "heard es k v \<Longrightarrow> set es \<subseteq> set es' \<Longrightarrow> heard es' k v"
  unfolding heard_def by blast

lemma ordered_mono: "ordered es k v \<Longrightarrow> set es \<subseteq> set es' \<Longrightarrow> ordered es' k v"
  unfolding ordered_def by blast

lemma silent_about_mono: "silent_about k es \<Longrightarrow> set es' \<subseteq> set es \<Longrightarrow> silent_about k es'"
  unfolding silent_about_def using heard_mono by blast

lemma silent_about_Cons: "silent_about k (e # es) \<Longrightarrow> silent_about k es \<and> silent_about k [e]"
  by (auto intro: silent_about_mono)

lemma served_step_source:
  assumes "xdp_laws H" and "map_laws K" and "served_ok H x" and "served_step H K x e y"
    and "table_of y k = Some item"
  shows "table_of x k = Some item \<or> heard [e] k (fvi_value item) \<or> ordered [e] k (fvi_value item)"
  using assms(1-4)
proof (cases rule: served_step_table)
  case same
  with assms(5) show ?thesis by simp
next
  case (learns cpu s act fc inn tagged vid)
  with assms(5) learned_entries [OF xdp_lawsD(3) [OF assms(1)], of "src_key s vid"
      "(ingress_ifindex (ctx s), ktime s)" "table_of x" k item]
  show ?thesis unfolding heard_def by auto
next
  case (added mac vlan i m resp)
  with assms(5) show ?thesis by (auto simp: ordered_def new_item_def split: if_splits)
next
  case deleted
  with assms(5) show ?thesis by (auto split: if_splits)
qed

lemma served_step_silent:
  assumes "xdp_laws H" and "map_laws K" and "served_ok H x" and "served_step H K x e y"
    and "silent_about k [e]"
  shows "table_of y k = table_of x k"
  using assms(1-4)
proof (cases rule: served_step_table)
  case (learns cpu s act fc inn tagged vid)
  then have "k \<noteq> src_key s vid"
    using assms(5) unfolding silent_about_def heard_def by auto
  with learns show ?thesis by (simp add: learned_other [OF xdp_lawsD(3) [OF assms(1)]])
next
  case (added mac vlan i m resp)
  with assms(5) have "k \<noteq> fdb_key_for m vlan" by (auto simp: silent_about_def)
  with added show ?thesis by simp
next
  case (deleted mac vlan m resp)
  with assms(5) have "k \<noteq> fdb_key_for m vlan" by (auto simp: silent_about_def)
  with deleted show ?thesis by simp
qed simp

lemma learned_keeps_dom: "fdb_update_law H \<Longrightarrow> dom t \<subseteq> dom (learned H k e t)"
  by (cases rule: fdb_update_cases [of H t k "new_item (fst e) (snd e)"])
     (auto simp: learned_def split: option.splits)

lemma served_step_dom:
  assumes "xdp_laws H" and "map_laws K" and "map_bound K" and "served_ok H x" and "served_step H K x e y"
    and "no_deletion [e]"
  shows "dom (table_of x) \<subseteq> dom (table_of y) \<and>
    (card (dom (table_of x)) = fdb_table_max_entries \<longrightarrow> dom (table_of y) = dom (table_of x))"
proof -
  have fin: "finite (dom (table_of z))" and le: "card (dom (table_of z)) \<le> fdb_table_max_entries"
    if "served_ok H z" for z
    using that by (simp_all add: served_ok_def switch_ok_def fdb_ok_def table_of_def)
  have y: "served_ok H y" using served_ok_step assms(1-5) by blast
  have sub: "dom (table_of x) \<subseteq> dom (table_of y)"
    using assms(1,2,4,5)
  proof (cases rule: served_step_table)
    case learns
    then show ?thesis by (simp add: learned_keeps_dom xdp_lawsD(3) [OF assms(1)])
  next
    case deleted
    with assms(6) show ?thesis by (auto simp: no_deletion_def)
  qed auto
  have "dom (table_of y) = dom (table_of x)" if "card (dom (table_of x)) = fdb_table_max_entries"
    using card_seteq [OF fin [OF y] sub] le [OF y] that by simp
  with sub show ?thesis by blast
qed

lemma served_run_dom:
  assumes "served_run H K x es y" and "xdp_laws H" and "map_laws K" and "map_bound K" and "served_ok H x"
    and "no_deletion es"
  shows "dom (table_of x) \<subseteq> dom (table_of y) \<and>
    (card (dom (table_of x)) = fdb_table_max_entries \<longrightarrow> dom (table_of y) = dom (table_of x))"
  using assms
proof induction
  case (go x es y e z)
  then have "served_ok H y" using served_run_ok by blast
  with go no_deletion_Cons [OF go.prems(5)] served_step_dom [of H K y e z] show ?case by auto
qed simp

lemma served_sources:
  assumes "xdp_laws H" and "map_laws K" and "map_bound K" and "served_run H K fresh_start es x"
    and "table_of x k = Some item"
  shows "heard es k (fvi_value item) \<or> ordered es k (fvi_value item)"
  using assms(4,1-3,5)
proof (induction "fresh_start" es x arbitrary: item rule: served_run.induct)
  case stay
  then show ?case by (simp add: table_of_def fresh_start_def power_on_def)
next
  case (go es y e z)
  have "served_ok H y" using served_reach_ok go by blast
  from served_step_source [OF go.prems(1,2) this go.hyps(3) go.prems(4)] show ?case
  proof (elim disjE)
    assume "table_of y k = Some item"
    with go show ?thesis by (meson heard_mono ordered_mono set_subset_Cons)
  qed (auto intro: heard_mono ordered_mono)
qed

lemma admitted_key_length:
  assumes "admitted s fc inn tagged vid"
  shows "length (fk_mac (src_key s vid)) = 6"
  using parse_frame_len [of "frame s" tagged] assms by (auto simp: admitted_def src_key_def)

lemma parseMAC_length: "parseMAC macStr = Some m \<Longrightarrow> length m = 6"
  by (auto simp: parseMAC_def split: option.splits)

lemma served_key_length:
  assumes "xdp_laws H" and "map_laws K" and "map_bound K" and "served_run H K fresh_start es x"
    and "table_of x k = Some item"
  shows "length (fk_mac k) = 6"
  using served_sources [OF assms] admitted_key_length parseMAC_length
  by (auto simp: heard_def ordered_def fdb_key_for_def)

section \<open>Properties\<close>

text \<open>C9: every entry of the forwarding database has a source. At any time, whatever frames arrive and
  whatever is asked of the service, an entry names the source address of a frame that its port
  admitted, with that port and that time, or it was ordered by a call of the service that succeeded,
  with the port of the call.\<close>

theorem served_entries_have_a_source:
  assumes "xdp_laws H" and "map_laws K" and "map_bound K" and "served_run H K fresh_start es x"
    and "table_of x k = Some item"
  shows "heard es k (fvi_value item) \<or> ordered es k (fvi_value item)"
  using assms by (rule served_sources)

text \<open>C7: an entry is never aged. From any reachable state on, as long as no admitted frame carries the
  entry's address and VLAN as its source and no call of the service names it, the entry stays
  exactly as it is, for any number of frames and however much time passes: the time of the last
  frame, which it records, is never used to remove it.\<close>

theorem entries_never_age:
  assumes "xdp_laws H" and "map_laws K" and "map_bound K" and "served_run H K fresh_start es0 x"
    and "served_run H K x es y" and "silent_about k es"
  shows "table_of y k = table_of x k"
  using assms(5,1-4,6)
proof induction
  case (go x es y e z)
  have "served_ok H y" using go served_run_ok served_reach_ok by blast
  with go silent_about_Cons [OF go.prems(5)] served_step_silent [of H K y e z k] show ?case by simp
qed simp

text \<open>C8: a full database learns nothing. Without a deletion through the service no entry disappears;
  and once the table holds the 10240 entries it is declared for, its addresses are the same for
  ever, so that an address outside it is never found again, whatever it sends.\<close>

theorem full_table_learns_nothing:
  assumes "xdp_laws H" and "map_laws K" and "map_bound K" and "served_run H K fresh_start es0 x"
    and "served_run H K x es y" and "no_deletion es"
  shows "dom (table_of x) \<subseteq> dom (table_of y) \<and>
    (card (dom (table_of x)) = 10240 \<longrightarrow>
      (\<forall>k. table_of x k = None \<longrightarrow> found k (table_of y) = None \<and> table_of y k = None))"
proof -
  have d: "dom (table_of x) \<subseteq> dom (table_of y) \<and>
      (card (dom (table_of x)) = 10240 \<longrightarrow> dom (table_of y) = dom (table_of x))"
    using served_run_dom [OF assms(5,1-3) served_reach_ok [OF assms(4,1-3)] assms(6)]
    by (simp add: fdb_table_max_entries_def)
  have "table_of y k = None" if "dom (table_of y) = dom (table_of x)" "table_of x k = None" for k
    using that by (metis domIff)
  with d show ?thesis by (simp add: found_def)
qed

section \<open>Sample runs\<close>

text \<open>The map operations of the service on a map that refuses new entries when it is full.\<close>

definition bounded_calls :: map_calls where
  "bounded_calls = sample_calls\<lparr>k_update := (\<lambda>t k v.
     if t k = None \<and> fdb_table_max_entries \<le> card (dom t) then Inl ''map is full'' else Inr (t(k \<mapsto> v)))\<rparr>"

lemma bounded_calls_laws [simp]: "map_laws bounded_calls"
  using sample_calls_laws by (simp add: map_laws_def bounded_calls_def)

lemma bounded_calls_bound [simp]: "map_bound bounded_calls"
  by (auto simp: map_bound_def bounded_calls_def card_insert_if split: if_splits)

definition maps_ready :: "switch \<times> server" where
  "maps_ready = (power_on, SetMaps (Some Map.empty) (Some Map.empty) NewServer)"

lemma maps_ready_run: "served_run H K fresh_start [Maps_set] maps_ready"
proof -
  have "served_step H K fresh_start Maps_set maps_ready"
    using maps_set [of H K power_on NewServer] by (simp add: maps_ready_def fresh_start_def power_on_def)
  with stay show ?thesis by (rule go)
qed

lemma order_step:
  assumes "length mac = 6" and "fdbMap srv = Some (sw_fdb sw)" and "card (dom (sw_fdb sw)) < fdb_table_max_entries"
  shows "served_step H bounded_calls (sw, srv) (Called (Add_fdb (mac_string mac) vlan i) rpc_ok)
    (sw\<lparr>sw_fdb := (sw_fdb sw)(fdb_key_for mac vlan \<mapsto> new_item i 0)\<rparr>,
     srv\<lparr>fdbMap := Some ((sw_fdb sw)(fdb_key_for mac vlan \<mapsto> new_item i 0))\<rparr>)"
  using called [of bounded_calls "Add_fdb (mac_string mac) vlan i" srv rpc_ok
    "srv\<lparr>fdbMap := Some ((sw_fdb sw)(fdb_key_for mac vlan \<mapsto> new_item i 0))\<rparr>" H sw] assms
  by (simp add: AddFdbEntry_def parseMAC_mac_string mac_length_def bounded_calls_def)

text \<open>A service call for address A in VLAN 5, on port 7.\<close>

definition ordered_a :: "switch \<times> server" where
  "ordered_a = (let t = [fdb_key_for mac_a 5 \<mapsto> new_item 7 0] in
     (power_on\<lparr>sw_fdb := t\<rparr>, (snd maps_ready)\<lparr>fdbMap := Some t\<rparr>))"

lemma ordered_a_run:
  "served_run H bounded_calls fresh_start [Called (Add_fdb (mac_string mac_a) 5 7) rpc_ok, Maps_set] ordered_a"
proof -
  have "served_step H bounded_calls maps_ready (Called (Add_fdb (mac_string mac_a) 5 7) rpc_ok) ordered_a"
    using order_step [of mac_a "snd maps_ready" power_on H 5 7] mac_a_length
    by (simp add: maps_ready_def ordered_a_def Let_def SetMaps_def power_on_def fdb_table_max_entries_def)
  with maps_ready_run show ?thesis by (rule go)
qed

lemma ordered_a_table: "table_of ordered_a = [fdb_key_for mac_a 5 \<mapsto> new_item 7 0]"
  by (simp add: ordered_a_def table_of_def Let_def)

theorem served_entries_have_a_source_witness:
  "heard [Called (Add_fdb (mac_string mac_a) 5 7) rpc_ok, Maps_set] (fdb_key_for mac_a 5) \<lparr>fv_ifindex = 7, fv_last_seen = 0\<rparr> \<or>
   ordered [Called (Add_fdb (mac_string mac_a) 5 7) rpc_ok, Maps_set] (fdb_key_for mac_a 5) \<lparr>fv_ifindex = 7, fv_last_seen = 0\<rparr>"
  using served_entries_have_a_source [OF ref_helpers_laws bounded_calls_laws bounded_calls_bound ordered_a_run,
    of "fdb_key_for mac_a 5" "new_item 7 0"] by (simp add: ordered_a_table new_item_def)

text \<open>A frame from another address, the highest time later.\<close>

theorem entries_never_age_witness:
  "\<exists>act y. served_run (ref_helpers 0) bounded_calls ordered_a [Switched (Received 0
      (run_on (fst ordered_a) 0 (sample_ctx 18 1) (sample_mem (plain_frame mac_a mac_b)) 0xFFFFFFFFFFFFFFFF) act)] y \<and>
    table_of y (fdb_key_for mac_a 5) = Some (new_item 7 0)"
proof -
  let ?s = "run_on (fst ordered_a) 0 (sample_ctx 18 1) (sample_mem (plain_frame mac_a mac_b)) 0xFFFFFFFFFFFFFFFF"
  obtain act s' where run: "xdp_process (ref_helpers 0) ?s = Some (act, s')"
    using xdp_process_safe [OF ref_helpers_laws [of 0], of ?s] by (auto simp: succeeds_iff)
  then obtain y where y: "served_run (ref_helpers 0) bounded_calls ordered_a [Switched (Received 0 ?s act)] y"
    using go [OF stay switched [OF receive]] by (metis prod.collapse)
  have k: "fdb_key_for mac_a 5 \<noteq> src_key ?s vid" for vid
    by (simp add: src_key_def fdb_key_for_def plain_frame_def mac_a_def mac_b_def)
  then have "silent_about (fdb_key_for mac_a 5) [Switched (Received 0 ?s act)]"
    by (auto simp: silent_about_def heard_def k)
  from entries_never_age [OF ref_helpers_laws bounded_calls_laws bounded_calls_bound ordered_a_run y this]
  have "table_of y (fdb_key_for mac_a 5) = Some (new_item 7 0)" by (simp add: ordered_a_table)
  with y show ?thesis by blast
qed

text \<open>10240 calls of the service fill the table.\<close>

definition nth_key :: "nat \<Rightarrow> fdb_key" where
  "nth_key n = fdb_key_for mac_a (of_nat n)"

lemma nth_key_inj: "inj_on nth_key {..<65536}"
proof (rule inj_onI)
  fix m n assume "m \<in> {..<65536}" "n \<in> {..<65536}" "nth_key m = nth_key n"
  then have "unat (ucast (of_nat m :: u32) :: u16) = unat (ucast (of_nat n :: u32) :: u16)" "m < 65536" "n < 65536"
    by (simp_all add: nth_key_def fdb_key_for_def)
  then show "m = n" by (simp add: unsigned_ucast_eq unsigned_of_nat take_bit_eq_mod)
qed

lemma fill:
  "n \<le> fdb_table_max_entries \<Longrightarrow> \<exists>es x. served_run H bounded_calls fresh_start es x \<and>
     dom (table_of x) = nth_key ` {..<n} \<and> fdbMap (snd x) = Some (table_of x)"
proof (induction n)
  case 0
  have "dom (table_of maps_ready) = nth_key ` {..<0} \<and> fdbMap (snd maps_ready) = Some (table_of maps_ready)"
    by (simp add: maps_ready_def table_of_def power_on_def SetMaps_def)
  with maps_ready_run show ?case by blast
next
  case (Suc n)
  then obtain es sw srv where run: "served_run H bounded_calls fresh_start es (sw, srv)"
    and dom: "dom (sw_fdb sw) = nth_key ` {..<n}" and map: "fdbMap srv = Some (sw_fdb sw)"
    by (auto simp: table_of_def)
  have "inj_on nth_key {..<n}"
    by (rule inj_on_subset [OF nth_key_inj]) (use Suc.prems in \<open>auto simp: fdb_table_max_entries_def\<close>)
  then have room: "card (dom (sw_fdb sw)) < fdb_table_max_entries" using dom Suc.prems by (simp add: card_image)
  let ?t = "(sw_fdb sw)(fdb_key_for mac_a (of_nat n) \<mapsto> new_item 7 0)"
  let ?x = "(sw\<lparr>sw_fdb := ?t\<rparr>, srv\<lparr>fdbMap := Some ?t\<rparr>)"
  note step = go [OF run order_step [OF mac_a_length map room, of H "of_nat n" 7]]
  have "dom ((sw_fdb sw)(nth_key n \<mapsto> new_item 7 0)) = nth_key ` {..<Suc n}"
    using dom by (simp add: lessThan_Suc)
  then have "dom (table_of ?x) = nth_key ` {..<Suc n} \<and> fdbMap (snd ?x) = Some (table_of ?x)"
    by (simp add: table_of_def nth_key_def del: fun_upd_apply)
  with step show ?case by blast
qed

text \<open>The call for one more is refused.\<close>

theorem full_table_learns_nothing_witness:
  "\<exists>es x resp y. served_run (ref_helpers 0) bounded_calls fresh_start es x \<and>
    card (dom (table_of x)) = 10240 \<and>
    served_run (ref_helpers 0) bounded_calls x [Called (Add_fdb (mac_string mac_a) 20000 7) resp] y \<and>
    found (nth_key 20000) (table_of y) = None"
proof -
  obtain es x where run: "served_run (ref_helpers 0) bounded_calls fresh_start es x"
    and dom: "dom (table_of x) = nth_key ` {..<10240}"
    using fill [of fdb_table_max_entries "ref_helpers 0"] by (auto simp: fdb_table_max_entries_def)
  have "inj_on nth_key {..<10240}" using nth_key_inj by (rule inj_on_subset) auto
  then have card: "card (dom (table_of x)) = 10240" using dom by (simp add: card_image)
  have "nth_key 20000 \<notin> dom (table_of x)"
  proof
    assume "nth_key 20000 \<in> dom (table_of x)"
    then obtain m where "m < 10240" "nth_key 20000 = nth_key m" unfolding dom by auto
    then show False using nth_key_inj inj_onD [OF nth_key_inj, of 20000 m] by simp
  qed
  then have none: "table_of x (nth_key 20000) = None" by auto
  obtain resp y where y: "served_run (ref_helpers 0) bounded_calls x
      [Called (Add_fdb (mac_string mac_a) 20000 7) resp] y"
    using go [OF stay called] by (metis prod.collapse)
  have "no_deletion [Called (Add_fdb (mac_string mac_a) 20000 7) resp]" by (simp add: no_deletion_def)
  from full_table_learns_nothing [OF ref_helpers_laws bounded_calls_laws bounded_calls_bound run y this]
    card none run y show ?thesis by blast
qed

text \<open>An entry of the service is not static: the first frame that its address sends on another port, in
  this VLAN, moves it there.\<close>

theorem ordered_entry_is_overwritten:
  assumes "xdp_laws H" and "h_tail_call H XDP_ID_L2"
    and "s = run_on (fst x) cpu c m now" and "admitted s fc inn tagged vid"
    and "table_of x (src_key s vid) = Some item" and "fv_ifindex (fvi_value item) \<noteq> ingress_ifindex c"
  shows "\<exists>act y. served_step H K x (Switched (Received cpu s act)) y \<and>
    table_of y (src_key s vid) = Some (item\<lparr>fvi_value := \<lparr>fv_ifindex = ingress_ifindex c, fv_last_seen = now\<rparr>\<rparr>)"
proof -
  obtain act s' where run: "xdp_process H s = Some (act, s')" and t: "fdb_table s' = learned_table H s vid"
    using admitted_learns [OF assms(1,2,4)] by (auto simp: succeeds_iff)
  let ?y = "(store_run (fst x) cpu s', share (store_run (fst x) cpu s') (snd x))"
  have step: "served_step H K x (Switched (Received cpu s act)) ?y"
    using switched [OF receive [OF run [unfolded assms(3)]], of K "snd x"] assms(3) by simp
  have "learned_table H s vid (src_key s vid) =
      Some (item\<lparr>fvi_value := \<lparr>fv_ifindex = ingress_ifindex c, fv_last_seen = now\<rparr>\<rparr>)"
    using assms(3,5,6) by (simp add: learned_table_def learned_def fresh_def table_of_def)
  with t have "table_of ?y (src_key s vid) =
      Some (item\<lparr>fvi_value := \<lparr>fv_ifindex = ingress_ifindex c, fv_last_seen = now\<rparr>\<rparr>)"
    by (simp add: table_of_def store_run_def)
  with step show ?thesis by blast
qed

theorem ordered_entry_is_overwritten_witness:
  "\<exists>s act y. served_step (ref_helpers 0) bounded_calls
      (one_port\<lparr>sw_fdb := [fdb_key_for mac_b 5 \<mapsto> new_item 7 0]\<rparr>, NewServer) (Switched (Received 0 s act)) y \<and>
    table_of y (fdb_key_for mac_b 5) = Some (new_item 1 1000)"
proof -
  let ?x = "(one_port\<lparr>sw_fdb := [fdb_key_for mac_b 5 \<mapsto> new_item 7 0]\<rparr>, NewServer)"
  let ?s = "run_on (fst ?x) 0 (sample_ctx 18 1) (sample_mem (plain_frame mac_a mac_b)) 1000"
  have a: "admitted ?s zero_cache (sample_item 1 VLAN_ACCESS 5) False 5"
    using first_frame_admitted by (simp add: first_frame_def admitted_def run_on_def frame_tag_def)
  have k: "src_key ?s 5 = fdb_key_for mac_b 5"
    by (simp add: src_key_def fdb_key_for_def plain_frame_def mac_a_def mac_b_def)
  have tail: "h_tail_call (ref_helpers 0) XDP_ID_L2" by (simp add: prog_array_defs)
  have t: "table_of ?x (src_key ?s 5) = Some (new_item 7 0)" by (simp only: k) (simp add: table_of_def)
  from ordered_entry_is_overwritten [OF ref_helpers_laws tail refl a t, of bounded_calls]
  obtain act y where "served_step (ref_helpers 0) bounded_calls ?x (Switched (Received 0 ?s act)) y"
    "table_of y (src_key ?s 5) = Some (new_item 1 1000)"
    by (auto simp: new_item_def)
  then show ?thesis unfolding k by blast
qed



end
