(* ===== verification/Interference.thy ===== *)
theory Interference
  imports Concurrency Served
begin

text \<open>
  CPUs and the service on one forwarding database at the same time. Concurrency takes an entry as one
  thing for ever; here the service may replace or delete an entry at any moment, also while a CPU has
  a pointer to it. So the map leads from a key to a cell of memory, and the cell holds value and lock:
  \<open>bpf_map_lookup_elem\<close> gives a CPU the cell, and what the service does afterwards changes the way to
  the cell, not the pointer. A hash map replaces an entry as a whole, by another cell. A cell is
  always memory of the map, so a late access is not a fault, and an update leaves its lock alone
  (bpf_helper_defs.h, at \<open>bpf_spin_lock\<close>). Which cell the kernel takes for an entry is its own
  choice, the parameter \<open>A\<close>: a relation on the state and the cells it may take.
\<close>

section \<open>State\<close>

record cell_cpu = cpu +
  cell :: nat

record pool =
  index :: "fdb_key \<rightharpoonup> nat"
  cells :: "nat \<Rightarrow> fdb_value_item"
  cell_locks :: "nat \<rightharpoonup> nat"
  time :: u64

type_synonym cell_system = "cell_cpu list \<times> pool"
type_synonym allocator = "cell_system \<Rightarrow> nat \<Rightarrow> bool"

text \<open>The table as the map operations see it.\<close>

definition view :: "pool \<Rightarrow> fdb_map" where
  "view m = (\<lambda>k. map_option (cells m) (index m k))"

definition put :: "nat \<Rightarrow> fdb_key \<Rightarrow> fdb_value_item \<Rightarrow> pool \<Rightarrow> pool" where
  "put p k v m = m\<lparr>index := (index m)(k \<mapsto> p), cells := (cells m)(p := v)\<rparr>"

definition forget :: "fdb_key \<Rightarrow> pool \<Rightarrow> pool" where
  "forget k m = m\<lparr>index := (index m)(k := None)\<rparr>"

definition set_value :: "nat \<Rightarrow> (fdb_value \<Rightarrow> fdb_value) \<Rightarrow> pool \<Rightarrow> pool" where
  "set_value p f m = m\<lparr>cells := (cells m)(p := (cells m p)\<lparr>fvi_value := f (fvi_value (cells m p))\<rparr>)\<rparr>"

abbreviation cell_value :: "pool \<Rightarrow> nat \<Rightarrow> fdb_value" where
  "cell_value m p \<equiv> fvi_value (cells m p)"

section \<open>Steps\<close>

text \<open>A helper call under the lock is forbidden; so is to release a lock not held.\<close>

definition unlocked :: "nat \<Rightarrow> cell_cpu \<Rightarrow> pool \<Rightarrow> 'b \<Rightarrow> 'b option" where
  "unlocked i c m r = (if cell_locks m (cell c) = Some i then None else Some r)"

definition release :: "nat \<Rightarrow> nat \<Rightarrow> pool \<Rightarrow> pool option" where
  "release i q m = (if cell_locks m q = Some i then Some (m\<lparr>cell_locks := (cell_locks m)(q := None)\<rparr>) else None)"

text \<open>
  The statements of \<open>fdb_learning\<close> and \<open>fdb_lookup\<close> in the same steps as in Concurrency, on the cell the
  look-up has found; \<open>p\<close> is the cell a new entry gets.
\<close>

fun cell_step :: "xdp_helpers \<Rightarrow> nat \<Rightarrow> nat \<Rightarrow> cell_cpu \<Rightarrow> pool \<Rightarrow> (cell_cpu \<times> pool) option" where
  "cell_step H p i c m = (case at c of
     Lookup_src \<Rightarrow> do {
       existing \<leftarrow> unlocked i c m (index m (src c));
       Some (case existing of None \<Rightarrow> c\<lparr>at := Time_new\<rparr> | Some q \<Rightarrow> c\<lparr>cell := q, at := Time_old\<rparr>, m) }
   | Time_new \<Rightarrow> do { t \<leftarrow> unlocked i c m (time m); Some (c\<lparr>now := t, at := Insert\<rparr>, m) }
   | Insert \<Rightarrow> do {
       (rc, t) \<leftarrow> unlocked i c m
         (h_fdb_update H (view m) (src c) (new_item (in_ifindex c) (now c)) BPF_NOEXIST);
       Some (c\<lparr>at := Lookup_dst\<rparr>,
         if rc = 0 then put p (src c) (new_item (in_ifindex c) (now c)) m else m) }
   | Time_old \<Rightarrow> do { t \<leftarrow> unlocked i c m (time m); Some (c\<lparr>now := t, at := Lock_src\<rparr>, m) }
   | Lock_src \<Rightarrow> do {
       _ \<leftarrow> unlocked i c m ();
       Some (c\<lparr>at := Check_port\<rparr>, m\<lparr>cell_locks := (cell_locks m)(cell c \<mapsto> i)\<rparr>) }
   | Check_port \<Rightarrow>
       Some (c\<lparr>at := (if fv_ifindex (cell_value m (cell c)) \<noteq> in_ifindex c then Write_port else Check_time)\<rparr>, m)
   | Check_time \<Rightarrow>
       Some (c\<lparr>at := (if SECOND < now c - fv_last_seen (cell_value m (cell c)) then Write_port else Unlock_src)\<rparr>, m)
   | Write_port \<Rightarrow> Some (c\<lparr>at := Write_time\<rparr>, set_value (cell c) (\<lambda>v. v\<lparr>fv_ifindex := in_ifindex c\<rparr>) m)
   | Write_time \<Rightarrow> Some (c\<lparr>at := Unlock_src\<rparr>, set_value (cell c) (\<lambda>v. v\<lparr>fv_last_seen := now c\<rparr>) m)
   | Unlock_src \<Rightarrow> do { m \<leftarrow> release i (cell c) m; Some (c\<lparr>at := Lookup_dst\<rparr>, m) }
   | Lookup_dst \<Rightarrow> do {
       val \<leftarrow> unlocked i c m (index m (dst c));
       Some (case val of None \<Rightarrow> c\<lparr>at := Finished\<rparr> | Some q \<Rightarrow> c\<lparr>cell := q, at := Peek_dst\<rparr>, m) }
   | Peek_dst \<Rightarrow>
       Some (c\<lparr>at := (if fv_ifindex (cell_value m (cell c)) = 0 then Finished else Lock_dst)\<rparr>, m)
   | Lock_dst \<Rightarrow> do {
       _ \<leftarrow> unlocked i c m ();
       Some (c\<lparr>at := Copy_port\<rparr>, m\<lparr>cell_locks := (cell_locks m)(cell c \<mapsto> i)\<rparr>) }
   | Copy_port \<Rightarrow> Some (c\<lparr>at := Copy_time,
       fdb_result := (fdb_result c)\<lparr>fv_ifindex := fv_ifindex (cell_value m (cell c))\<rparr>\<rparr>, m)
   | Copy_time \<Rightarrow> Some (c\<lparr>at := Unlock_dst,
       fdb_result := (fdb_result c)\<lparr>fv_last_seen := fv_last_seen (cell_value m (cell c))\<rparr>\<rparr>, m)
   | Unlock_dst \<Rightarrow> do { m \<leftarrow> release i (cell c) m; Some (c\<lparr>at := Finished\<rparr>, m) }
   | Finished \<Rightarrow> None)"

declare cell_step.simps [simp del]

definition can_move :: "pool \<Rightarrow> cell_cpu \<Rightarrow> bool" where
  "can_move m c \<longleftrightarrow> at c \<noteq> Finished \<and> (at c \<in> {Lock_src, Lock_dst} \<longrightarrow> cell_locks m (cell c) = None)"

inductive cell_move :: "allocator \<Rightarrow> xdp_helpers \<Rightarrow> cell_system \<Rightarrow> cell_system \<Rightarrow> bool" for A H where
  cell_move: "i < length cs \<Longrightarrow> can_move m (cs ! i) \<Longrightarrow> (at (cs ! i) = Insert \<longrightarrow> A (cs, m) p) \<Longrightarrow>
    cell_step H p i (cs ! i) m = Some (c', m') \<Longrightarrow> cell_move A H (cs, m) (cs[i := c'], m')"

text \<open>What the frames do, without the service; and all that happens, with the calls of the service that
  succeed in writing. A call that fails changes nothing.\<close>

inductive traffic :: "allocator \<Rightarrow> xdp_helpers \<Rightarrow> cell_system \<Rightarrow> cell_system \<Rightarrow> bool" for A H where
  moving: "cell_move A H s s' \<Longrightarrow> traffic A H s s'"
| arriving: "i < length cs \<Longrightarrow> at (cs ! i) = Finished \<Longrightarrow>
    traffic A H (cs, m) (cs[i := (cs ! i)\<lparr>src := a, dst := b, in_ifindex := n, at := Lookup_src\<rparr>], m)"
| ticking: "traffic A H (cs, m) (cs, m\<lparr>time := time m + d\<rparr>)"

inductive occurs ::
  "allocator \<Rightarrow> xdp_helpers \<Rightarrow> map_calls \<Rightarrow> cell_system \<Rightarrow> rpc_request option \<Rightarrow> cell_system \<Rightarrow> bool" for A H K where
  passing: "traffic A H s s' \<Longrightarrow> occurs A H K s None s'"
| adding: "fdbMap srv = Some (view m) \<Longrightarrow> serve_rpc K (Add_fdb mac vlan n) srv = (resp, srv') \<Longrightarrow> Success resp \<Longrightarrow>
    request_key (Add_fdb mac vlan n) = Some k \<Longrightarrow> A (cs, m) p \<Longrightarrow>
    occurs A H K (cs, m) (Some (Add_fdb mac vlan n)) (cs, put p k (new_item n 0) m)"
| deleting: "fdbMap srv = Some (view m) \<Longrightarrow> serve_rpc K (Del_fdb mac vlan) srv = (resp, srv') \<Longrightarrow> Success resp \<Longrightarrow>
    request_key (Del_fdb mac vlan) = Some k \<Longrightarrow>
    occurs A H K (cs, m) (Some (Del_fdb mac vlan)) (cs, forget k m)"

definition at_rest :: "cell_system \<Rightarrow> bool" where
  "at_rest s \<longleftrightarrow> list_all (\<lambda>c. at c = Finished) (fst s) \<and> cell_locks (snd s) = Map.empty \<and>
     inj_on (index (snd s)) (dom (index (snd s))) \<and> finite (dom (index (snd s)))"

inductive attained :: "allocator \<Rightarrow> xdp_helpers \<Rightarrow> map_calls \<Rightarrow> cell_system \<Rightarrow> bool" for A H K where
  initial: "at_rest s \<Longrightarrow> attained A H K s"
| next_one: "attained A H K s \<Longrightarrow> occurs A H K s e s' \<Longrightarrow> attained A H K s'"

section \<open>What is asked of the kernel's choice\<close>

text \<open>The key and the cell of the entry a CPU works on.\<close>

definition points :: "cell_cpu \<Rightarrow> (fdb_key \<times> nat) option" where
  "points c = (case at c of
     Time_old \<Rightarrow> Some (src c, cell c) | Lock_src \<Rightarrow> Some (src c, cell c) | Check_port \<Rightarrow> Some (src c, cell c)
   | Check_time \<Rightarrow> Some (src c, cell c) | Write_port \<Rightarrow> Some (src c, cell c) | Write_time \<Rightarrow> Some (src c, cell c)
   | Unlock_src \<Rightarrow> Some (src c, cell c)
   | Peek_dst \<Rightarrow> Some (dst c, cell c) | Lock_dst \<Rightarrow> Some (dst c, cell c) | Copy_port \<Rightarrow> Some (dst c, cell c)
   | Copy_time \<Rightarrow> Some (dst c, cell c) | Unlock_dst \<Rightarrow> Some (dst c, cell c)
   | _ \<Rightarrow> None)"

text \<open>
  A cell that is part of the table is not taken for another entry (\<open>unused_law\<close>), and there is always
  one that can be taken (\<open>supply_law\<close>). The third law is stronger: neither is a cell taken that a CPU
  still points to. It holds of maps whose cells are freed after all programs that may hold them have
  ended; a map whose cells are allocated beforehand, as \<open>fdb_table\<close> is, may take a deleted entry's cell at once.
\<close>

definition unused_law :: "allocator \<Rightarrow> bool" where
  "unused_law A \<longleftrightarrow> (\<forall>cs m p. A (cs, m) p \<longrightarrow> p \<notin> ran (index m))"

definition supply_law :: "allocator \<Rightarrow> bool" where
  "supply_law A \<longleftrightarrow> (\<forall>cs m. finite (dom (index m)) \<longrightarrow> (\<exists>p. A (cs, m) p))"

definition grace_law :: "allocator \<Rightarrow> bool" where
  "grace_law A \<longleftrightarrow> (\<forall>cs m p. A (cs, m) p \<longrightarrow> (\<forall>c\<in>set cs. \<forall>k. points c \<noteq> Some (k, p)))"

section \<open>Locks\<close>

text \<open>The cell whose lock a CPU holds.\<close>

definition section_of :: "cell_cpu \<Rightarrow> nat option" where
  "section_of c = (if at c \<in> {Check_port, Check_time, Write_port, Write_time, Unlock_src,
     Copy_port, Copy_time, Unlock_dst} then Some (cell c) else None)"

definition locks_sound :: "cell_system \<Rightarrow> bool" where
  "locks_sound s \<longleftrightarrow> (\<forall>q i. cell_locks (snd s) q = Some i \<longleftrightarrow>
     i < length (fst s) \<and> section_of (fst s ! i) = Some q)"

lemmas cell_unfold = cell_step.simps unlocked_def release_def put_def set_value_def

lemma locks_soundD: "locks_sound (cs, m) \<Longrightarrow>
    cell_locks m q = Some i \<longleftrightarrow> i < length cs \<and> section_of (cs ! i) = Some q"
  by (simp add: locks_sound_def)

lemma section_unique:
  assumes "locks_sound (cs, m)" and "i < length cs" and "section_of (cs ! i) = Some q"
    and "j < length cs" and "section_of (cs ! j) = Some q"
  shows "j = i"
proof -
  have "cell_locks m q = Some i" "cell_locks m q = Some j"
    using assms by (simp_all add: locks_soundD)
  then show ?thesis by simp
qed

text \<open>A step takes the lock of its cell, gives it back, or leaves the locks alone.\<close>

lemma cell_step_locks:
  assumes "cell_step H p i c m = Some (c', m')"
  obtains (same) "cell_locks m' = cell_locks m" and "section_of c' = section_of c"
  | (takes) "at c \<in> {Lock_src, Lock_dst}" and "section_of c = None" and "section_of c' = Some (cell c)"
      and "cell_locks m' = (cell_locks m)(cell c \<mapsto> i)"
  | (gives) "section_of c = Some (cell c)" and "section_of c' = None"
      and "cell_locks m' = (cell_locks m)(cell c := None)"
proof -
  have "cell_locks m' = cell_locks m \<and> section_of c' = section_of c \<or>
    at c \<in> {Lock_src, Lock_dst} \<and> section_of c = None \<and> section_of c' = Some (cell c) \<and>
      cell_locks m' = (cell_locks m)(cell c \<mapsto> i) \<or>
    section_of c = Some (cell c) \<and> section_of c' = None \<and> cell_locks m' = (cell_locks m)(cell c := None)"
    using assms by (cases "at c")
      (auto simp: cell_unfold section_of_def split: if_splits option.splits prod.splits)
  then show thesis
    by (elim disjE conjE) (rule same takes gives, assumption+)+
qed

lemma move_locks_sound:
  assumes "cell_move A H s s'" and "locks_sound s"
  shows "locks_sound s'"
  using assms(1)
proof cases
  case (cell_move i cs m p c' m')
  let ?c = "cs ! i"
  note inv = locks_soundD [OF assms(2) [unfolded cell_move(1)]]
  have "cell_locks m' q = Some j \<longleftrightarrow> j < length cs \<and> section_of (cs[i := c'] ! j) = Some q" for q j
    using cell_move(6)
  proof (cases rule: cell_step_locks)
    case same
    then show ?thesis using inv [of q j] cell_move(3) by (auto simp: nth_list_update)
  next
    case takes
    then have "cell_locks m (cell ?c) = None" using cell_move(4) by (auto simp: can_move_def)
    then have "\<not> (j < length cs \<and> section_of (cs ! j) = Some (cell ?c))" for j using inv [of "cell ?c" j] by simp
    then show ?thesis using takes inv [of q j] cell_move(3) by (auto simp: nth_list_update)
  next
    case gives
    have "j = i" if "j < length cs" "section_of (cs ! j) = Some (cell ?c)" for j
      by (rule section_unique [OF assms(2) [unfolded cell_move(1)] cell_move(3) gives(1) that])
    then show ?thesis using gives inv [of q j] cell_move(3) by (auto simp: nth_list_update)
  qed
  then show ?thesis using cell_move(2) by (simp add: locks_sound_def)
qed

lemma occurs_locks_sound:
  assumes "occurs A H K s e s'" and "locks_sound s"
  shows "locks_sound s'"
  using assms(1)
proof cases
  case passing
  from passing(2) show ?thesis
  proof cases
    case moving
    then show ?thesis using assms(2) by (rule move_locks_sound)
  next
    case (arriving i cs m n b a)
    let ?c' = "(cs ! i)\<lparr>src := a, dst := b, in_ifindex := n, at := Lookup_src\<rparr>"
    have none: "section_of (cs ! i) = None" "section_of ?c' = None" using arriving(4) by (simp_all add: section_of_def)
    have "section_of (cs[i := ?c'] ! j) = section_of (cs ! j)" for j
      using none arriving(3) by (cases "j = i") simp_all
    then show ?thesis using assms(2) unfolding arriving(1,2) by (simp add: locks_sound_def)
  qed (use assms(2) in \<open>simp add: locks_sound_def\<close>)
qed (use assms(2) in \<open>simp_all add: locks_sound_def put_def forget_def\<close>)

lemma attained_locks_sound: "attained A H K s \<Longrightarrow> locks_sound s"
proof (induction rule: attained.induct)
  case (initial s)
  then have "section_of (fst s ! i) = None" if "i < length (fst s)" for i
    using that by (auto simp: at_rest_def list_all_length section_of_def)
  then show ?case using initial by (auto simp: locks_sound_def at_rest_def)
qed (rule occurs_locks_sound)

section \<open>Progress\<close>

lemma section_cell: "section_of c = Some q \<Longrightarrow> q = cell c"
  by (auto simp: section_of_def split: if_splits)

lemma moves_do_not_fault:
  assumes "locks_sound (cs, m)" and "i < length cs" and "can_move m (cs ! i)"
  shows "cell_step H p i (cs ! i) m \<noteq> None"
proof (cases "section_of (cs ! i)")
  case None
  then have "cell_locks m (cell (cs ! i)) \<noteq> Some i" using locks_soundD [OF assms(1)] by auto
  then show ?thesis
    using None assms(3) by (cases "at (cs ! i)")
      (auto simp: cell_unfold section_of_def can_move_def split: option.splits prod.splits)
next
  case (Some q)
  then have "cell_locks m (cell (cs ! i)) = Some i"
    using locks_soundD [OF assms(1)] assms(2) section_cell by blast
  then show ?thesis
    using Some by (cases "at (cs ! i)") (auto simp: cell_unfold section_of_def)
qed

lemma someone_can_move:
  assumes "locks_sound (cs, m)" and "i < length cs" and "at (cs ! i) \<noteq> Finished"
  shows "\<exists>j<length cs. can_move m (cs ! j)"
proof (cases "can_move m (cs ! i)")
  case False
  then obtain j where "cell_locks m (cell (cs ! i)) = Some j"
    using assms(3) by (auto simp: can_move_def)
  then have "j < length cs" "section_of (cs ! j) \<noteq> None" using locks_soundD [OF assms(1)] by auto
  then show ?thesis by (intro exI [of _ j]) (auto simp: can_move_def section_of_def split: if_splits)
qed (use assms(2) in blast)

text \<open>The table stays finite, and no cell is in it twice.\<close>

definition index_sound :: "cell_system \<Rightarrow> bool" where
  "index_sound s \<longleftrightarrow> finite (dom (index (snd s))) \<and>
     (\<forall>k k' q. index (snd s) k = Some q \<longrightarrow> index (snd s) k' = Some q \<longrightarrow> k = k')"

lemma cell_step_index:
  assumes "cell_step H p i c m = Some (c', m')"
  obtains (same) "index m' = index m" | (new) "at c = Insert" and "index m' = (index m)(src c \<mapsto> p)"
  using assms that by (cases "at c") (auto simp: cell_unfold split: if_splits option.splits prod.splits)

lemma index_sound_put:
  "index_sound (cs, m) \<Longrightarrow> p \<notin> ran (index m) \<Longrightarrow> index m' = (index m)(k \<mapsto> p) \<Longrightarrow> index_sound (cs', m')"
  unfolding index_sound_def by (auto simp: ran_def split: if_splits)

lemma occurs_index_sound:
  assumes "occurs A H K s e s'" and "index_sound s" and "unused_law A"
  shows "index_sound s'"
  using assms(1)
proof cases
  case passing
  from passing(2) show ?thesis
  proof cases
    case moving
    then show ?thesis
    proof cases
      case (cell_move i cs m p c' m')
      from cell_move(6) show ?thesis
      proof (cases rule: cell_step_index)
        case same
        then show ?thesis using assms(2) cell_move(1,2) by (simp add: index_sound_def)
      next
        case new
        then have "p \<notin> ran (index m)" using cell_move(5) assms(3) by (auto simp: unused_law_def)
        from index_sound_put [OF _ this new(2)] show ?thesis using assms(2) cell_move(1,2) by blast
      qed
    qed
  qed (use assms(2) in \<open>simp_all add: index_sound_def\<close>)
next
  case (adding srv m mac vlan n resp srv' k cs p)
  then have "p \<notin> ran (index m)" using assms(3) by (auto simp: unused_law_def)
  from index_sound_put [OF _ this] show ?thesis using assms(2) adding(1,3) by (simp add: put_def)
next
  case deleting
  then show ?thesis using assms(2) by (auto simp: index_sound_def forget_def dom_fun_upd split: if_splits)
qed

lemma attained_index_sound: "attained A H K s \<Longrightarrow> unused_law A \<Longrightarrow> index_sound s"
proof (induction rule: attained.induct)
  case (initial s)
  then have inj: "inj_on (index (snd s)) (dom (index (snd s)))" by (simp add: at_rest_def)
  have "k = k'" if "index (snd s) k = Some q" "index (snd s) k' = Some q" for k k' q
    using inj_onD [OF inj, of k k'] that by auto
  then show ?case using initial by (auto simp: at_rest_def index_sound_def)
qed (blast intro: occurs_index_sound)

text \<open>C16: whatever the service does, and whenever, it does not break the locks of the entries. Calls that
  replace and delete entries while CPUs work on them leave at most one CPU between lock and unlock of
  a cell; no step of a CPU faults; and as long as some frame is not finished, some CPU can move.\<close>

theorem service_cannot_break_locking:
  assumes "unused_law A" and "supply_law A" and "attained A H K (cs, m)"
  shows "(\<forall>i<length cs. \<forall>j<length cs. \<forall>q. section_of (cs ! i) = Some q \<longrightarrow> section_of (cs ! j) = Some q \<longrightarrow> j = i) \<and>
    (\<forall>i<length cs. \<forall>p. can_move m (cs ! i) \<longrightarrow> cell_step H p i (cs ! i) m \<noteq> None) \<and>
    ((\<exists>c\<in>set cs. at c \<noteq> Finished) \<longrightarrow> (\<exists>s'. cell_move A H (cs, m) s'))"
proof (intro conjI)
  have l: "locks_sound (cs, m)" by (rule attained_locks_sound [OF assms(3)])
  show "\<forall>i<length cs. \<forall>j<length cs. \<forall>q. section_of (cs ! i) = Some q \<longrightarrow> section_of (cs ! j) = Some q \<longrightarrow> j = i"
    using section_unique [OF l] by blast
  show "\<forall>i<length cs. \<forall>p. can_move m (cs ! i) \<longrightarrow> cell_step H p i (cs ! i) m \<noteq> None"
    using moves_do_not_fault [OF l] by blast
  show "(\<exists>c\<in>set cs. at c \<noteq> Finished) \<longrightarrow> (\<exists>s'. cell_move A H (cs, m) s')"
  proof
    assume "\<exists>c\<in>set cs. at c \<noteq> Finished"
    then obtain i where "i < length cs" "at (cs ! i) \<noteq> Finished" by (auto simp: in_set_conv_nth)
    then obtain j where j: "j < length cs" "can_move m (cs ! j)" using someone_can_move [OF l] by blast
    have "finite (dom (index m))" using attained_index_sound [OF assms(3,1)] by (simp add: index_sound_def)
    then obtain p where p: "A (cs, m) p" using assms(2) by (auto simp: supply_law_def)
    obtain c' m' where "cell_step H p j (cs ! j) m = Some (c', m')" using moves_do_not_fault [OF l j] by fastforce
    then show "\<exists>s'. cell_move A H (cs, m) s'" using cell_move [OF j] p by blast
  qed
qed

section \<open>Values\<close>

text \<open>
  From here on cells are not taken from under a CPU. Then the cell a CPU points to is the cell of its
  key or of none, and what the CPU has stored or copied under the lock is still there.
\<close>

definition knows_cell :: "cell_cpu \<Rightarrow> pool \<Rightarrow> bool" where
  "knows_cell c m = (case at c of
     Write_time \<Rightarrow> fv_ifindex (cell_value m (cell c)) = in_ifindex c
   | Copy_time \<Rightarrow> fv_ifindex (fdb_result c) = fv_ifindex (cell_value m (cell c))
   | Unlock_dst \<Rightarrow> fdb_result c = cell_value m (cell c)
   | _ \<Rightarrow> True)"

definition own_cell :: "cell_cpu \<Rightarrow> pool \<Rightarrow> bool" where
  "own_cell c m \<longleftrightarrow> (\<forall>k q k'. points c = Some (k, q) \<longrightarrow> index m k' = Some q \<longrightarrow> k' = k)"

definition values_sound :: "cell_system \<Rightarrow> bool" where
  "values_sound s \<longleftrightarrow> (\<forall>c\<in>set (fst s). knows_cell c (snd s) \<and> own_cell c (snd s))"

lemma section_points: "section_of c = Some q \<Longrightarrow> \<exists>k. points c = Some (k, q)"
  by (cases "at c") (auto simp: section_of_def points_def)

lemma points_cell: "points c = Some (k, q) \<Longrightarrow> q = cell c"
  by (cases "at c") (auto simp: points_def)

lemma knows_outside: "section_of c = None \<Longrightarrow> knows_cell c m"
  by (auto simp: section_of_def knows_cell_def split: stage.splits if_splits)

lemma knows_unchanged: "cell_value m' (cell c) = cell_value m (cell c) \<Longrightarrow> knows_cell c m' = knows_cell c m"
  by (simp add: knows_cell_def split: stage.split)

lemma own_unchanged: "index m' = index m \<Longrightarrow> own_cell c m' = own_cell c m"
  by (simp add: own_cell_def)

text \<open>What a step writes: nothing, the cell it has locked, or a new entry.\<close>

lemma cell_step_writes:
  assumes "cell_step H p i c m = Some (c', m')"
  obtains (silent) "cells m' = cells m" and "index m' = index m"
  | (locked) v where "section_of c = Some (cell c)" and "cells m' = (cells m)(cell c := v)" and "index m' = index m"
  | (new) "at c = Insert" and "m' = put p (src c) (new_item (in_ifindex c) (now c)) m"
      and "fst (h_fdb_update H (view m) (src c) (new_item (in_ifindex c) (now c)) BPF_NOEXIST) = 0"
proof -
  have "cells m' = cells m \<and> index m' = index m \<or>
    (\<exists>v. section_of c = Some (cell c) \<and> cells m' = (cells m)(cell c := v) \<and> index m' = index m) \<or>
    at c = Insert \<and> m' = put p (src c) (new_item (in_ifindex c) (now c)) m \<and>
      fst (h_fdb_update H (view m) (src c) (new_item (in_ifindex c) (now c)) BPF_NOEXIST) = 0"
    using assms by (cases "at c")
      (auto simp: cell_step.simps unlocked_def release_def set_value_def section_of_def
        split: if_splits option.splits prod.splits)
  then show thesis
    by (elim disjE conjE exE) (erule (1) that(1), erule (2) that(2), erule (2) that(3))
qed

lemma cell_step_knows: "cell_step H p i c m = Some (c', m') \<Longrightarrow> knows_cell c m \<Longrightarrow> knows_cell c' m'"
  by (cases "at c") (auto simp: cell_unfold knows_cell_def split: if_splits option.splits prod.splits)

lemma cell_step_own:
  assumes "cell_step H p i c m = Some (c', m')" and "own_cell c m"
    and "\<And>k k' q. index m k = Some q \<Longrightarrow> index m k' = Some q \<Longrightarrow> k = k'"
  shows "own_cell c' m'"
  using assms by (cases "at c")
    (auto simp: cell_unfold own_cell_def points_def split: if_splits option.splits prod.splits)

lemma own_put: "own_cell c m \<Longrightarrow> (\<And>k. points c \<noteq> Some (k, p)) \<Longrightarrow> own_cell c (put p k' v m)"
  by (auto simp: own_cell_def put_def split: if_splits)

lemma knows_put: "knows_cell c m \<Longrightarrow> (\<And>k. points c \<noteq> Some (k, p)) \<Longrightarrow> knows_cell c (put p k' v m)"
  by (cases "section_of c")
     (use section_points [of c] section_cell [of c] knows_unchanged [of "put p k' v m" c m] in
       \<open>auto simp: knows_outside put_def\<close>)

lemma set_update_cases: "x \<in> set (xs[i := y]) \<Longrightarrow> x = y \<or> (\<exists>j<length xs. j \<noteq> i \<and> x = xs ! j)"
  by (metis in_set_conv_nth length_list_update nth_list_update_eq nth_list_update_neq)

lemma move_values_sound:
  assumes "cell_move A H s s'" and "locks_sound s" and "index_sound s" and "values_sound s" and "grace_law A"
  shows "values_sound s'"
  using assms(1)
proof cases
  case (cell_move i cs m p c' m')
  have inj: "index m k = Some q \<Longrightarrow> index m k' = Some q \<Longrightarrow> k = k'" for k k' q
    using assms(3) cell_move(1) by (auto simp: index_sound_def)
  have old: "knows_cell (cs ! j) m" "own_cell (cs ! j) m" if "j < length cs" for j
    using assms(4) cell_move(1) that by (simp_all add: values_sound_def)
  have new: "knows_cell c' m'" "own_cell c' m'"
    by (rule cell_step_knows [OF cell_move(6) old(1) [OF cell_move(3)]])
       (rule cell_step_own [OF cell_move(6) old(2) [OF cell_move(3)] inj])
  have "knows_cell (cs ! j) m' \<and> own_cell (cs ! j) m'" if j: "j < length cs" "j \<noteq> i" for j
    using cell_move(6)
  proof (cases rule: cell_step_writes)
    case silent
    then show ?thesis
      using old [OF j(1)] knows_unchanged [of m' "cs ! j" m] own_unchanged [of m' m "cs ! j"] by simp
  next
    case (locked v)
    have "knows_cell (cs ! j) m'"
    proof (cases "section_of (cs ! j)")
      case (Some q)
      then have "q \<noteq> cell (cs ! i)"
        using section_unique [OF assms(2) [unfolded cell_move(1)] cell_move(3) locked(1) j(1)] j(2) by blast
      then show ?thesis
        using old(1) [OF j(1)] knows_unchanged [of m' "cs ! j" m] locked(2) section_cell [OF Some] by simp
    qed (rule knows_outside)
    then show ?thesis using old(2) [OF j(1)] own_unchanged [OF locked(3)] by simp
  next
    case new
    then have "points (cs ! j) \<noteq> Some (k, p)" for k
      using cell_move(5) assms(5) j(1) unfolding grace_law_def by (meson nth_mem)
    then show ?thesis using old [OF j(1)] new(2) by (simp add: own_put knows_put)
  qed
  with new show ?thesis
    unfolding cell_move(2) values_sound_def by (auto dest!: set_update_cases)
qed

lemma occurs_values_sound:
  assumes "occurs A H K s e s'" and "locks_sound s" and "index_sound s" and "values_sound s" and "grace_law A"
  shows "values_sound s'"
  using assms(1)
proof cases
  case passing
  from passing(2) show ?thesis
  proof cases
    case moving
    then show ?thesis using assms(2-5) by (rule move_values_sound)
  next
    case (arriving i cs m n b a)
    let ?c' = "(cs ! i)\<lparr>src := a, dst := b, in_ifindex := n, at := Lookup_src\<rparr>"
    have "knows_cell ?c' m" "own_cell ?c' m" by (simp_all add: knows_cell_def own_cell_def points_def)
    then show ?thesis
      using assms(4) unfolding arriving(1,2) values_sound_def by (auto dest!: set_update_cases)
  next
    case (ticking cs m d)
    have "knows_cell c (m\<lparr>time := time m + d\<rparr>) = knows_cell c m" for c by (rule knows_unchanged) simp
    moreover have "own_cell c (m\<lparr>time := time m + d\<rparr>) = own_cell c m" for c by (rule own_unchanged) simp
    ultimately show ?thesis using assms(4) ticking by (simp add: values_sound_def)
  qed
next
  case (adding srv m mac vlan n resp srv' k cs p)
  then have "points c \<noteq> Some (k', p)" if "c \<in> set cs" for c k'
    using assms(5) that by (auto simp: grace_law_def)
  then show ?thesis
    using assms(4) unfolding adding(1,3) by (simp add: values_sound_def own_put knows_put)
next
  case (deleting srv m mac vlan resp srv' k cs)
  have "knows_cell c (forget k m) = knows_cell c m" for c
    by (rule knows_unchanged) (simp add: forget_def)
  moreover have "own_cell c m \<Longrightarrow> own_cell c (forget k m)" for c
    by (auto simp: own_cell_def forget_def split: if_splits)
  ultimately show ?thesis using assms(4) unfolding deleting(1,3) by (simp add: values_sound_def)
qed

lemma attained_values_sound: "attained A H K s \<Longrightarrow> unused_law A \<Longrightarrow> grace_law A \<Longrightarrow> values_sound s"
proof (induction rule: attained.induct)
  case (initial s)
  then show ?case by (auto simp: at_rest_def list_all_iff values_sound_def knows_cell_def own_cell_def points_def)
next
  case (next_one s e s')
  then show ?case
    using occurs_values_sound attained_locks_sound attained_index_sound by blast
qed

section \<open>Every change of the table\<close>

text \<open>The value of a cell as the CPUs agree on it, and the table made of these values.\<close>

definition agreed :: "cell_system \<Rightarrow> nat \<Rightarrow> fdb_value" where
  "agreed s q = (case cell_locks (snd s) q of
     Some i \<Rightarrow>
       if at (fst s ! i) = Write_time
       then \<lparr>fv_ifindex = in_ifindex (fst s ! i), fv_last_seen = now (fst s ! i)\<rparr>
       else cell_value (snd s) q
   | None \<Rightarrow> cell_value (snd s) q)"

definition agreed_table :: "cell_system \<Rightarrow> fdb_key \<rightharpoonup> fdb_value" where
  "agreed_table s = (\<lambda>k. map_option (agreed s) (index (snd s) k))"

definition stamp :: "cell_cpu \<Rightarrow> fdb_value" where
  "stamp c = \<lparr>fv_ifindex = in_ifindex c, fv_last_seen = now c\<rparr>"

lemma agreed_cell: "agreed (cs, m) q = (case cell_locks m q of None \<Rightarrow> cell_value m q
    | Some i \<Rightarrow> if at (cs ! i) = Write_time then stamp (cs ! i) else cell_value m q)"
  by (simp add: agreed_def stamp_def split: option.split)

lemma agreed_unlocked: "cell_locks m q = None \<Longrightarrow> agreed (cs, m) q = cell_value m q"
  by (simp add: agreed_cell)

lemma agreed_cong:
  "cells m' = cells m \<Longrightarrow> cell_locks m' = cell_locks m \<Longrightarrow> agreed (cs, m') = agreed (cs, m)"
  by (intro ext) (simp add: agreed_cell split: option.split)

text \<open>A cell a CPU does not work on keeps its value.\<close>

lemma agreed_other:
  assumes "locks_sound (cs, m)" and "i < length cs" and "section_of (cs ! i) \<noteq> Some q"
    and "can_move m (cs ! i)" and "cell_step H p i (cs ! i) m = Some (c', m')" and "cell_value m' q = cell_value m q"
  shows "agreed (cs[i := c'], m') q = agreed (cs, m) q"
  using assms(5)
proof (cases rule: cell_step_locks)
  case same
  then show ?thesis
    using assms(3,6) locks_soundD [OF assms(1), of q i] by (auto simp: agreed_cell split: option.split)
next
  case takes
  show ?thesis
  proof (cases "q = cell (cs ! i)")
    case True
    then have "cell_locks m q = None" using takes(1) assms(4) by (auto simp: can_move_def)
    moreover have "at c' \<noteq> Write_time" using takes(1) assms(5) by (auto simp: cell_unfold split: if_splits)
    ultimately show ?thesis using takes(4) True assms(2,6) by (simp add: agreed_cell)
  next
    case False
    then show ?thesis
      using takes(4) assms(3,6) locks_soundD [OF assms(1), of q i] by (auto simp: agreed_cell split: option.split)
  qed
next
  case gives
  then show ?thesis
    using assms(3,6) locks_soundD [OF assms(1), of q i] by (auto simp: agreed_cell split: option.split)
qed

lemma agreed_own:
  assumes "locks_sound (cs, m)" and "i < length cs" and "section_of (cs ! i) = Some q"
    and "knows_cell (cs ! i) m" and "cell_step H p i (cs ! i) m = Some (c', m')"
  shows "agreed (cs[i := c'], m') q = (if at (cs ! i) = Write_port then stamp (cs ! i) else agreed (cs, m) q)"
proof -
  have "q = cell (cs ! i)" "cell_locks m q = Some i"
    using section_cell [OF assms(3)] locks_soundD [OF assms(1)] assms(2,3) by auto
  then show ?thesis
    using assms(2-5) by (cases "at (cs ! i)")
      (auto simp: cell_unfold section_of_def knows_cell_def agreed_cell stamp_def split: if_splits)
qed

lemma agreed_step:
  assumes "locks_sound (cs, m)" and "i < length cs" and "knows_cell (cs ! i) m"
    and "can_move m (cs ! i)" and "cell_step H p i (cs ! i) m = Some (c', m')" and "at (cs ! i) \<noteq> Insert"
  shows "agreed (cs[i := c'], m') = (if at (cs ! i) = Write_port
    then (agreed (cs, m))(cell (cs ! i) := stamp (cs ! i)) else agreed (cs, m))"
proof
  fix q
  show "agreed (cs[i := c'], m') q = (if at (cs ! i) = Write_port
    then (agreed (cs, m))(cell (cs ! i) := stamp (cs ! i)) else agreed (cs, m)) q"
  proof (cases "section_of (cs ! i) = Some q")
    case True
    then show ?thesis using agreed_own [OF assms(1,2) True assms(3,5)] section_cell [OF True] by simp
  next
    case False
    then have "at (cs ! i) = Write_port \<Longrightarrow> q \<noteq> cell (cs ! i)" by (auto simp: section_of_def)
    moreover have "cell_value m' q = cell_value m q"
      using assms(5)
    proof (cases rule: cell_step_writes)
      case (locked v)
      with False show ?thesis by auto
    qed (use assms(6) in simp_all)
    ultimately show ?thesis using agreed_other [OF assms(1,2) False assms(4,5)] by simp
  qed
qed

text \<open>A cell that is not in the table and that nobody points to has no lock.\<close>

lemma free_cell_unlocked:
  assumes "locks_sound (cs, m)" and "grace_law A" and "A (cs, m) p"
  shows "cell_locks m p = None"
proof (rule ccontr)
  assume "cell_locks m p \<noteq> None"
  then obtain i where "i < length cs" "section_of (cs ! i) = Some p" using locks_soundD [OF assms(1)] by auto
  with section_points [of "cs ! i" p] assms(2,3) show False unfolding grace_law_def by (meson nth_mem)
qed

lemma agreed_put:
  assumes "cell_locks m p = None"
  shows "agreed (cs, put p k v m) = (agreed (cs, m))(p := fvi_value v)"
  using assms by (auto simp: agreed_cell put_def split: option.split)

lemma agreed_table_put:
  assumes "p \<notin> ran (index m)" and "agreed s = (agreed (cs, m))(p := v)" and "index (snd s) = (index m)(k \<mapsto> p)"
  shows "agreed_table s = (agreed_table (cs, m))(k \<mapsto> v)"
proof
  fix k'
  have "index m k' \<noteq> Some p" using assms(1) by (auto simp: ran_def)
  then show "agreed_table s k' = ((agreed_table (cs, m))(k \<mapsto> v)) k'"
    using assms(2,3) by (cases "index m k'") (auto simp: agreed_table_def)
qed

lemma move_table:
  assumes "cell_move A H (cs, m) s'" and "unused_law A" and "grace_law A" and "fdb_update_law H"
    and "locks_sound (cs, m)" and "index_sound (cs, m)" and "values_sound (cs, m)"
  shows "agreed_table s' = agreed_table (cs, m) \<or>
    (\<exists>c\<in>set cs. agreed_table s' = (agreed_table (cs, m))(src c \<mapsto> stamp c))"
  using assms(1)
proof cases
  case (cell_move i p c' m')
  let ?c = "cs ! i"
  have c: "?c \<in> set cs" "knows_cell ?c m" "own_cell ?c m"
    using cell_move(2) assms(7) by (simp_all add: values_sound_def)
  show ?thesis
  proof (cases "at ?c = Insert")
    case True
    have free: "p \<notin> ran (index m)" "cell_locks m p = None"
      using cell_move(4) True assms(2) free_cell_unlocked [OF assms(5,3)] by (auto simp: unused_law_def)
    have sec: "section_of ?c \<noteq> Some q" for q using True by (simp add: section_of_def)
    note other = agreed_other [OF assms(5) cell_move(2) sec cell_move(3,5)]
    from cell_move(5) show ?thesis
    proof (cases rule: cell_step_writes)
      case silent
      then have "agreed s' = agreed (cs, m)" using other cell_move(1) by (intro ext) simp
      then show ?thesis using silent cell_move(1) by (simp add: agreed_table_def)
    next
      case new
      have "agreed s' q = ((agreed (cs, m))(p := stamp ?c)) q" for q
      proof (cases "q = p")
        case True
        then show ?thesis
          using new(2) free(2) cell_move(1) by (simp add: put_def agreed_unlocked stamp_def new_item_def)
      next
        case False
        then show ?thesis using other [of q] new(2) cell_move(1) by (simp add: put_def)
      qed
      then have "agreed s' = (agreed (cs, m))(p := stamp ?c)" ..
      from agreed_table_put [OF free(1) this] new(2) cell_move(1) c(1) show ?thesis by (auto simp: put_def)
    qed (use sec in simp)
  next
    case False
    note st = agreed_step [OF assms(5) cell_move(2) c(2) cell_move(3,5) False]
    have ix: "index m' = index m" using cell_move(5) False by (cases rule: cell_step_writes) simp_all
    show ?thesis
    proof (cases "at ?c = Write_port \<and> index m (src ?c) = Some (cell ?c)")
      case True
      then have "points ?c = Some (src ?c, cell ?c)" by (simp add: points_def)
      then have only: "k = src ?c" if "index m k = Some (cell ?c)" for k using c(3) that by (auto simp: own_cell_def)
      have new: "agreed s' = (agreed (cs, m))(cell ?c := stamp ?c)" "index (snd s') = index m"
        using st ix cell_move(1) True by simp_all
      have "agreed_table s' k = ((agreed_table (cs, m))(src ?c \<mapsto> stamp ?c)) k" for k
      proof (cases "k = src ?c")
        case False
        then have "index m k \<noteq> Some (cell ?c)" using only by blast
        with False show ?thesis by (cases "index m k") (simp_all add: agreed_table_def new)
      qed (use True in \<open>simp add: agreed_table_def new\<close>)
      then have "agreed_table s' = (agreed_table (cs, m))(src ?c \<mapsto> stamp ?c)" ..
      then show ?thesis using c(1) by blast
    next
      case False
      have "agreed s' q = agreed (cs, m) q" if "index m k = Some q" for k q
      proof (cases "at ?c = Write_port \<and> q = cell ?c")
        case True
        then have "k = src ?c" using c(3) that by (auto simp: own_cell_def points_def)
        with False True that show ?thesis by simp
      qed (use st cell_move(1) in auto)
      then have "agreed_table s' k = agreed_table (cs, m) k" for k
        using ix cell_move(1) by (cases "index m k") (simp_all add: agreed_table_def)
      then have "agreed_table s' = agreed_table (cs, m)" ..
      then show ?thesis by blast
    qed
  qed
qed

text \<open>What the service's calls do to the pool is what Server says they do to the table.\<close>

lemma call_writes_view:
  assumes "map_laws K" and "fdbMap srv = Some (view m)" and "Success resp"
  shows "serve_rpc K (Add_fdb mac vlan n) srv = (resp, srv') \<Longrightarrow> request_key (Add_fdb mac vlan n) = Some k \<Longrightarrow>
      p \<notin> ran (index m) \<Longrightarrow> fdbMap srv' = Some (view (put p k (new_item n 0) m))"
    and "serve_rpc K (Del_fdb mac vlan) srv = (resp, srv') \<Longrightarrow> request_key (Del_fdb mac vlan) = Some k \<Longrightarrow>
      fdbMap srv' = Some (view (forget k m))"
proof -
  assume c: "serve_rpc K (Add_fdb mac vlan n) srv = (resp, srv')" "request_key (Add_fdb mac vlan n) = Some k"
    and p: "p \<notin> ran (index m)"
  have "index m k' \<noteq> Some p" for k' using p by (auto simp: ran_def)
  then have "(view m)(k \<mapsto> new_item n 0) = view (put p k (new_item n 0) m)"
    by (auto simp: view_def put_def fun_eq_iff option.map_sel intro!: option.map_cong)
  with assms c show "fdbMap srv' = Some (view (put p k (new_item n 0) m))"
    by (cases rule: serve_table [OF assms(1) c(1) assms(2)]) auto
next
  assume c: "serve_rpc K (Del_fdb mac vlan) srv = (resp, srv')" "request_key (Del_fdb mac vlan) = Some k"
  have "(view m)(k := None) = view (forget k m)" by (auto simp: view_def forget_def)
  with assms c show "fdbMap srv' = Some (view (forget k m))"
    by (cases rule: serve_table [OF assms(1) c(1) assms(2)]) auto
qed

section \<open>Properties under the law of grace\<close>



section \<open>What goes wrong\<close>

text \<open>A CPU in \<open>fdb_learning\<close> under the lock, by itself: its cell stays its own, it reaches the end of the
  function, and if its cell is not in the table, the table is as before.\<close>

lemma finishes_learning:
  assumes "locks_sound (cs, m)" and "i < length cs"
    and "at (cs ! i) \<in> {Check_port, Check_time, Write_port, Write_time, Unlock_src}"
    and "cell (cs ! i) \<notin> ran (index m)"
  shows "\<exists>cs' m'. (cell_move A H)\<^sup>*\<^sup>* (cs, m) (cs', m') \<and> at (cs' ! i) = Lookup_dst \<and> view m' = view m"
  using assms
proof (induction "rank (at (cs ! i))" arbitrary: cs m rule: less_induct)
  case less
  have ready: "can_move m (cs ! i)" using less.prems(3) by (auto simp: can_move_def)
  obtain c' m' where st: "cell_step H 0 i (cs ! i) m = Some (c', m')"
    using moves_do_not_fault [OF less.prems(1,2) ready] by fastforce
  then have move: "cell_move A H (cs, m) (cs[i := c'], m')"
    using less.prems(2,3) ready by (intro cell_move) auto
  have "cell_locks m (cell (cs ! i)) = Some i"
    using locks_soundD [OF less.prems(1)] less.prems(2,3) by (auto simp: section_of_def)
  then have new: "at c' \<in> {Check_port, Check_time, Write_port, Write_time, Unlock_src, Lookup_dst}"
      "cell c' = cell (cs ! i)" "rank (at c') < rank (at (cs ! i))" "index m' = index m"
      "\<And>q. q \<noteq> cell (cs ! i) \<Longrightarrow> cells m' q = cells m q"
    using st less.prems(3) by (auto simp: cell_unfold split: if_splits)
  have view: "view m' = view m"
  proof
    fix k show "view m' k = view m k"
    proof (cases "index m k")
      case (Some q)
      then have "q \<noteq> cell (cs ! i)" using less.prems(4) by (auto simp: ran_def)
      with Some show ?thesis using new(4,5) by (simp add: view_def)
    qed (simp add: view_def new(4))
  qed
  show ?case
  proof (cases "at c' = Lookup_dst")
    case True
    then show ?thesis using move view less.prems(2) by (intro exI [of _ "cs[i := c']"] exI [of _ m']) auto
  next
    case False
    have "\<exists>cs'' m''. (cell_move A H)\<^sup>*\<^sup>* (cs[i := c'], m') (cs'', m'') \<and> at (cs'' ! i) = Lookup_dst \<and> view m'' = view m'"
    proof (rule less.hyps)
      show "locks_sound (cs[i := c'], m')" by (rule move_locks_sound [OF move less.prems(1)])
    qed (use new False less.prems(2,4) in auto)
    then obtain cs'' m'' where "(cell_move A H)\<^sup>*\<^sup>* (cs[i := c'], m') (cs'', m'')" "at (cs'' ! i) = Lookup_dst"
        "view m'' = view m'" by blast
    then show ?thesis using converse_rtranclp_into_rtranclp [where r = "cell_move A H", OF move] view by auto
  qed
qed

text \<open>C19: learning on an entry that the service has replaced is lost. If the service deletes or replaces an
  entry after a CPU has looked it up and before the CPU has its lock, the CPU goes on to lock and
  refresh the old cell and ends \<open>fdb_learning\<close> as always; the table the others see does not change,
  so a deleted address stays unknown although its frame has been handled.\<close>

theorem learning_on_a_removed_entry_is_lost:
  assumes "attained A H K (cs, m)" and "i < length cs" and "at (cs ! i) = Lock_src"
    and "cell_locks m (cell (cs ! i)) = None" and "cell (cs ! i) \<notin> ran (index m)"
  shows "\<exists>cs' m'. (cell_move A H)\<^sup>*\<^sup>* (cs, m) (cs', m') \<and> at (cs' ! i) = Lookup_dst \<and> view m' = view m"
proof -
  let ?c = "cs ! i"
  have l: "locks_sound (cs, m)" by (rule attained_locks_sound [OF assms(1)])
  define cs1 where "cs1 = cs[i := ?c\<lparr>at := Check_port\<rparr>]"
  define m1 where "m1 = m\<lparr>cell_locks := (cell_locks m)(cell ?c \<mapsto> i)\<rparr>"
  have move: "cell_move A H (cs, m) (cs1, m1)"
    using cell_move [of i cs m A 0 H "?c\<lparr>at := Check_port\<rparr>" m1] assms(2-4)
    by (simp add: cs1_def m1_def can_move_def cell_unfold)
  have "\<exists>cs' m'. (cell_move A H)\<^sup>*\<^sup>* (cs1, m1) (cs', m') \<and> at (cs' ! i) = Lookup_dst \<and> view m' = view m1"
  proof (rule finishes_learning)
    show "locks_sound (cs1, m1)" by (rule move_locks_sound [OF move l])
  qed (use assms(2,5) in \<open>simp_all add: cs1_def m1_def\<close>)
  moreover have "view m1 = view m" by (simp add: view_def m1_def)
  ultimately show ?thesis using move by (metis converse_rtranclp_into_rtranclp)
qed


section \<open>Without the service\<close>

text \<open>The same system with entries instead of cells: what Concurrency describes.\<close>

definition entries_of :: "pool \<Rightarrow> shared" where
  "entries_of m = \<lparr>table = view m, locks = (\<lambda>k. case index m k of None \<Rightarrow> None | Some q \<Rightarrow> cell_locks m q), clock = time m\<rparr>"

definition entry_system :: "cell_system \<Rightarrow> system" where
  "entry_system s = (map cpu.truncate (fst s), entries_of (snd s))"

text \<open>Every pointer leads where its key leads. Only the service makes it fail.\<close>

definition in_place :: "cell_system \<Rightarrow> bool" where
  "in_place s \<longleftrightarrow> (\<forall>c\<in>set (fst s). \<forall>k q. points c = Some (k, q) \<longrightarrow> index (snd s) k = Some q)"

definition undisturbed :: "cell_system \<Rightarrow> bool" where
  "undisturbed s \<longleftrightarrow> locks_sound s \<and> index_sound s \<and> in_place s"

lemma truncate_sel [simp]:
  "src (cpu.truncate c) = src c" "dst (cpu.truncate c) = dst c" "in_ifindex (cpu.truncate c) = in_ifindex c"
  "now (cpu.truncate c) = now c" "at (cpu.truncate c) = at c" "fdb_result (cpu.truncate c) = fdb_result c"
  by (simp_all add: cpu.truncate_def)

lemma entries_sel [simp]: "table (entries_of m) = view m" "clock (entries_of m) = time m"
  "locks (entries_of m) k = (case index m k of None \<Rightarrow> None | Some q \<Rightarrow> cell_locks m q)"
  by (simp_all add: entries_of_def)

lemma truncate_update: "cpu.truncate (c\<lparr>at := a\<rparr>) = (cpu.truncate c)\<lparr>at := a\<rparr>"
  "cpu.truncate (c\<lparr>cell := q\<rparr>) = cpu.truncate c"
  "cpu.truncate (c\<lparr>now := t\<rparr>) = (cpu.truncate c)\<lparr>now := t\<rparr>"
  "cpu.truncate (c\<lparr>fdb_result := v\<rparr>) = (cpu.truncate c)\<lparr>fdb_result := v\<rparr>"
  "cpu.truncate (c\<lparr>src := k\<rparr>) = (cpu.truncate c)\<lparr>src := k\<rparr>"
  "cpu.truncate (c\<lparr>dst := k\<rparr>) = (cpu.truncate c)\<lparr>dst := k\<rparr>"
  "cpu.truncate (c\<lparr>in_ifindex := n\<rparr>) = (cpu.truncate c)\<lparr>in_ifindex := n\<rparr>"
  for c :: cell_cpu
  by (simp_all add: cpu.truncate_def)

lemma locked_entry:
  assumes "index_sound (cs, m)" and "index m k = Some q"
  shows "entries_of (m\<lparr>cell_locks := (cell_locks m)(q := l)\<rparr>) =
    (entries_of m)\<lparr>locks := (locks (entries_of m))(k := l)\<rparr>"
  using assms by (auto simp: entries_of_def index_sound_def fun_eq_iff view_def split: option.split)

lemma stored_entry:
  assumes "index_sound (cs, m)" and "index m k = Some q"
  shows "store k f (entries_of m) = Some (entries_of (set_value q f m))"
  using assms by (auto simp: entries_of_def store_def set_value_def index_sound_def fun_eq_iff view_def
    option.map_sel split: option.split intro!: option.map_cong)

lemma loaded_entry: "index m k = Some q \<Longrightarrow> load k (entries_of m) = Some (cell_value m q)"
  by (simp add: load_def view_def)

lemma new_entry:
  assumes "p \<notin> ran (index m)" and "cell_locks m p = None" and "index m k = None"
  shows "entries_of (put p k v m) = (entries_of m)\<lparr>table := (view m)(k \<mapsto> v)\<rparr>"
proof -
  have "index m k' \<noteq> Some p" for k' using assms(1) by (auto simp: ran_def)
  then show ?thesis
    using assms(2,3) by (auto simp: entries_of_def put_def view_def fun_eq_iff split: option.split intro!: option.map_cong)
qed

text \<open>Outside a critical section a CPU holds no lock, whichever way it is looked up.\<close>

lemma free_to_call:
  assumes "locks_sound (cs, m)" and "i < length cs" and "section_of (cs ! i) = None"
  shows "cell_locks m q \<noteq> Some i" and "\<not> holds_lock i (cpu.truncate (cs ! i)) (entries_of m)"
  using locks_soundD [OF assms(1)] assms(2,3) by (auto simp: holds_lock_def split: option.splits)

lemma step_is_entry_step:
  assumes "undisturbed (cs, m)" and "i < length cs" and "can_move m (cs ! i)"
    and "cell_step H p i (cs ! i) m = Some (c', m')" and "fdb_update_law H"
    and "at (cs ! i) = Insert \<Longrightarrow> p \<notin> ran (index m) \<and> cell_locks m p = None"
  shows "cpu_step H i (cpu.truncate (cs ! i)) (entries_of m) = Some (cpu.truncate c', entries_of m')"
proof -
  let ?c = "cs ! i"
  have l: "locks_sound (cs, m)" and ix: "index_sound (cs, m)" using assms(1) by (simp_all add: undisturbed_def)
  have place: "index m k = Some q" if "points ?c = Some (k, q)" for k q
    using assms(1) nth_mem [OF assms(2)] that unfolding undisturbed_def in_place_def by auto
  note locked = locked_entry [OF ix place] and stored = stored_entry [OF ix place] and loaded = loaded_entry [OF place]
  have call: "helper i (cpu.truncate ?c) (entries_of m) r = Some r" if "section_of ?c = None" for r :: 'a
    using free_to_call(2) [OF l assms(2) that] by (simp add: helper_def)
  have held: "cell_locks m (cell ?c) = Some i" if "section_of ?c = Some (cell ?c)"
    using locks_soundD [OF l] assms(2) that by blast
  show ?thesis
  proof (cases "at ?c = Insert")
    case True
    obtain rc t where up: "h_fdb_update H (view m) (src ?c) (new_item (in_ifindex ?c) (now ?c)) BPF_NOEXIST = (rc, t)"
      by fastforce
    have r: "rc = 0 \<Longrightarrow> index m (src ?c) = None \<and> t = (view m)(src ?c \<mapsto> new_item (in_ifindex ?c) (now ?c))"
        "rc \<noteq> 0 \<Longrightarrow> t = view m"
      using fdb_update_cases [OF assms(5), of "view m" "src ?c" "new_item (in_ifindex ?c) (now ?c)"] up
      by (auto simp: view_def)
    have "(entries_of m)\<lparr>table := view m\<rparr> = entries_of m" by (simp add: entries_of_def)
    moreover have "entries_of (put p (src ?c) v m) = (entries_of m)\<lparr>table := (view m)(src ?c \<mapsto> v)\<rparr>" if "rc = 0" for v
      using new_entry r(1) [OF that] assms(6) [OF True] by blast
    ultimately show ?thesis
      using True up r assms(4) free_to_call [OF l assms(2)]
      by (cases "rc = 0") (auto simp: cpu_step.simps cell_step.simps unlocked_def helper_def section_of_def truncate_update)
  next
    case False
    then show ?thesis
      using assms(3,4) held free_to_call [OF l assms(2)] locked stored loaded
      by (cases "at ?c")
         (auto simp: cpu_step.simps cell_step.simps unlocked_def helper_def release_def unlock_def section_of_def
           points_def truncate_update can_move_def view_def place split: option.splits)
  qed
qed

lemma cell_step_place:
  assumes "cell_step H p i c m = Some (c', m')" and "\<And>k q. points c = Some (k, q) \<Longrightarrow> index m k = Some q"
    and "points c' = Some (k, q)"
  shows "index m' k = Some q"
  using assms by (cases "at c") (auto simp: cell_unfold points_def split: if_splits option.splits prod.splits)

lemma undisturbed_free:
  assumes "undisturbed (cs, m)" and "p \<notin> ran (index m)"
  shows "cell_locks m p = None"
proof (rule ccontr)
  assume "cell_locks m p \<noteq> None"
  then obtain i where i: "i < length cs" "section_of (cs ! i) = Some p"
    using assms(1) locks_soundD [of cs m] by (auto simp: undisturbed_def)
  then obtain k where "points (cs ! i) = Some (k, p)" using section_points by blast
  then have "index m k = Some p" using assms(1) nth_mem [OF i(1)] by (auto simp: undisturbed_def in_place_def)
  with assms(2) show False by (auto simp: ran_def)
qed

lemma map_truncate_update: "map cpu.truncate (cs[i := c]) = (map cpu.truncate cs)[i := cpu.truncate c]"
  by (rule map_update)

lemma traffic_is_entry_traffic:
  assumes "traffic A H s s'" and "undisturbed s" and "unused_law A" and "fdb_update_law H"
  shows "undisturbed s' \<and> happens H (entry_system s) (entry_system s')"
proof
  have occ: "occurs A H K s None s'" for K by (rule passing [OF assms(1)])
  have sound: "locks_sound s'" "index_sound s'"
    using occurs_locks_sound [OF occ] occurs_index_sound [OF occ] assms(2,3) by (simp_all add: undisturbed_def)
  have "in_place s' \<and> happens H (entry_system s) (entry_system s')"
    using assms(1)
  proof cases
    case moving
    then show ?thesis
    proof cases
      case (cell_move i cs m p c' m')
      have u: "undisturbed (cs, m)" using assms(2) cell_move(1) by simp
      have place: "index m k = Some q" if "c \<in> set cs" "points c = Some (k, q)" for c k q
        using u that by (auto simp: undisturbed_def in_place_def)
      have free: "p \<notin> ran (index m) \<and> cell_locks m p = None" if "at (cs ! i) = Insert"
        using cell_move(5) that assms(3) undisturbed_free [OF u] by (auto simp: unused_law_def)
      have step: "cpu_step H i (cpu.truncate (cs ! i)) (entries_of m) = Some (cpu.truncate c', entries_of m')"
        by (rule step_is_entry_step [OF u cell_move(3,4,6) assms(4) free])
      have "ready (entries_of m) (cpu.truncate (cs ! i))"
        using cell_move(4) place [OF nth_mem [OF cell_move(3)]]
        by (cases "at (cs ! i)") (auto simp: ready_def can_move_def points_def)
      then have "step H (entry_system s) (entry_system s')"
        using step.step [of i "map cpu.truncate cs" "entries_of m" H] step cell_move(1-3)
        by (simp add: entry_system_def map_update)
      moreover have "index m' k = Some q" if c: "c \<in> set (cs[i := c'])" "points c = Some (k, q)" for c k q
        using set_update_cases [OF c(1)]
      proof
        assume "c = c'"
        with cell_step_place [OF cell_move(6) place [OF nth_mem [OF cell_move(3)]]] c(2) show ?thesis by simp
      next
        assume "\<exists>j<length cs. j \<noteq> i \<and> c = cs ! j"
        then have "c \<in> set cs" by auto
        then have k: "index m k = Some q" using c(2) by (rule place)
        from cell_move(6) show ?thesis
        proof (cases rule: cell_step_writes)
          case new
          then have "index m (src (cs ! i)) = None"
            using fdb_update_cases [OF assms(4), of "view m" "src (cs ! i)"] by (auto simp: view_def)
          with k new(2) show ?thesis by (auto simp: put_def)
        qed (use k in simp_all)
      qed
      ultimately show ?thesis using cell_move(2) by (auto simp: in_place_def intro: moves)
    qed
  next
    case (arriving i cs m n b a)
    let ?c' = "(cs ! i)\<lparr>src := a, dst := b, in_ifindex := n, at := Lookup_src\<rparr>"
    have "points ?c' = None" by (simp add: points_def)
    moreover have "c = ?c' \<or> c \<in> set cs" if "c \<in> set (cs[i := ?c'])" for c
      using set_update_subset_insert [of cs i ?c'] that by blast
    ultimately have "in_place s'"
      using assms(2) unfolding arriving(1,2) undisturbed_def in_place_def by fastforce
    moreover have "happens H (entry_system s) (entry_system s')"
      using arrives [of i "map cpu.truncate cs" H "entries_of m" n b a] arriving
      by (simp add: entry_system_def map_update truncate_update)
    ultimately show ?thesis by blast
  next
    case (ticking cs m d)
    have "entries_of (m\<lparr>time := time m + d\<rparr>) = (entries_of m)\<lparr>clock := clock (entries_of m) + d\<rparr>"
      by (simp add: entries_of_def view_def cong: option.case_cong)
    then have "happens H (entry_system s) (entry_system s')"
      using ticks [of H "map cpu.truncate cs" "entries_of m" d] ticking by (simp add: entry_system_def)
    then show ?thesis using assms(2) ticking by (simp add: undisturbed_def in_place_def)
  qed
  with sound show "undisturbed s'" "happens H (entry_system s) (entry_system s')"
    by (simp_all add: undisturbed_def)
qed

text \<open>C21: without calls of the service, cells are entries: whatever cells the kernel chooses, every state
  that frames alone bring about is a state of the system of Concurrency, with the same CPUs, the same
  table and the same locks. So all that is proved there holds here until the service interferes.\<close>

theorem traffic_alone_keeps_entries:
  assumes "unused_law A" and "fdb_update_law H" and "at_rest s0" and "(traffic A H)\<^sup>*\<^sup>* s0 s"
  shows "reachable H (entry_system s) \<and> table (snd (entry_system s)) = view (snd s)"
proof -
  have "undisturbed s0"
    using attained_locks_sound [OF initial [OF assms(3)]] attained_index_sound [OF initial [OF assms(3)] assms(1)]
      assms(3) by (auto simp: undisturbed_def in_place_def at_rest_def list_all_iff points_def)
  moreover have "idle_system (entry_system s0)"
    using assms(3) by (auto simp: at_rest_def idle_system_def entry_system_def entries_of_def list_all_iff
      fun_eq_iff split: option.split)
  ultimately have "undisturbed s0 \<and> reachable H (entry_system s0)" by (simp add: Concurrency.reachable.start)
  with assms(4) have "undisturbed s \<and> reachable H (entry_system s)"
  proof (induction rule: rtranclp_induct)
    case (step s1 s2)
    then show ?case using traffic_is_entry_traffic [OF step(2) _ assms(1,2)] by (blast intro: Concurrency.reachable.further)
  qed
  then show ?thesis by (simp add: entry_system_def)
qed

section \<open>Schedules\<close>

text \<open>The executable form; an event names the cell that is taken if one is.\<close>

datatype cell_event = Run nat nat | Come nat fdb_key fdb_key u32 | Ask rpc_request nat

fun cell_play1 :: "allocator \<Rightarrow> xdp_helpers \<Rightarrow> map_calls \<Rightarrow> cell_event \<Rightarrow> cell_system \<Rightarrow> cell_system option" where
  "cell_play1 A H K (Run i p) (cs, m) =
     (if i < length cs \<and> can_move m (cs ! i) \<and> (at (cs ! i) = Insert \<longrightarrow> A (cs, m) p) then do {
        (c', m') \<leftarrow> cell_step H p i (cs ! i) m;
        Some (cs[i := c'], m')
      } else None)"
| "cell_play1 A H K (Come i a b n) (cs, m) =
     (if i < length cs \<and> at (cs ! i) = Finished
      then Some (cs[i := (cs ! i)\<lparr>src := a, dst := b, in_ifindex := n, at := Lookup_src\<rparr>], m) else None)"
| "cell_play1 A H K (Ask r p) (cs, m) =
     (if \<not> Success (fst (serve_rpc K r (SetMaps None (Some (view m)) NewServer))) then None
      else case request_key r of None \<Rightarrow> None | Some k \<Rightarrow>
        (case r of
           Add_fdb mac vlan n \<Rightarrow> if A (cs, m) p then Some (cs, put p k (new_item n 0) m) else None
         | Del_fdb mac vlan \<Rightarrow> Some (cs, forget k m)
         | _ \<Rightarrow> None))"

fun cell_play :: "allocator \<Rightarrow> xdp_helpers \<Rightarrow> map_calls \<Rightarrow> cell_event list \<Rightarrow> cell_system \<Rightarrow> cell_system option" where
  "cell_play A H K [] s = Some s"
| "cell_play A H K (e # es) s = do { s \<leftarrow> cell_play1 A H K e s; cell_play A H K es s }"

lemma SetMaps_fdb [simp]: "fdbMap (SetMaps im fm s) = fm"
  by (simp add: SetMaps_def)

lemma cell_play1_occurs:
  assumes "cell_play1 A H K e s = Some s'"
  shows "\<exists>r. occurs A H K s r s'"
proof (cases "(A, H, K, e, s)" rule: cell_play1.cases)
  case (1 A' H' K' i p cs m)
  with assms show ?thesis
    by (auto split: if_splits Option.bind_splits intro!: exI [of _ None] passing moving cell_move)
next
  case (2 A' H' K' i a b n cs m)
  with assms show ?thesis
    by (auto split: if_splits intro!: exI [of _ None] passing arriving)
next
  case (3 A' H' K' r p cs m)
  let ?srv = "SetMaps None (Some (view m)) NewServer"
  obtain resp srv' where call: "serve_rpc K r ?srv = (resp, srv')" by fastforce
  then have ok: "Success resp" using assms 3 by (auto split: if_splits)
  then obtain k where k: "request_key r = Some k" using assms 3 call by (auto split: option.splits)
  have srv: "fdbMap ?srv = Some (view m)" by simp
  show ?thesis
  proof (cases r)
    case (Add_fdb mac vlan n)
    then have "A (cs, m) p" "s' = (cs, put p k (new_item n 0) m)"
      using assms 3 k call ok by (auto simp del: serve_rpc.simps split: if_splits)
    with occurs.adding [OF srv call [unfolded Add_fdb] ok k [unfolded Add_fdb]] 3 show ?thesis by blast
  next
    case (Del_fdb mac vlan)
    then have "s' = (cs, forget k m)"
      using assms 3 k call ok by (auto simp del: serve_rpc.simps split: if_splits)
    with occurs.deleting [OF srv call [unfolded Del_fdb] ok k [unfolded Del_fdb]] 3 show ?thesis by blast
  qed (use k in simp_all)
qed

lemma cell_play_attained: "cell_play A H K es s = Some s' \<Longrightarrow> attained A H K s \<Longrightarrow> attained A H K s'"
proof (induction es arbitrary: s)
  case (Cons e es)
  from Cons.prems(1) obtain s1 where "cell_play1 A H K e s = Some s1" "cell_play A H K es s1 = Some s'"
    by (auto split: Option.bind_splits)
  with Cons cell_play1_occurs show ?case by (blast intro: next_one)
qed simp

text \<open>Two ways to choose: any cell that is not in the table, and only one that no CPU points to.\<close>

definition any_free :: allocator where
  "any_free s p \<longleftrightarrow> p \<notin> ran (index (snd s))"

definition none_pointed :: allocator where
  "none_pointed s p \<longleftrightarrow> p \<notin> ran (index (snd s)) \<and> list_all (\<lambda>c. section_of c \<noteq> Some p \<and>
     (at c \<in> {Time_old, Lock_src, Peek_dst, Lock_dst} \<longrightarrow> cell c \<noteq> p)) (fst s)"

lemma points_iff: "(\<exists>k. points c = Some (k, p)) \<longleftrightarrow>
    section_of c = Some p \<or> at c \<in> {Time_old, Lock_src, Peek_dst, Lock_dst} \<and> cell c = p"
  by (cases "at c") (auto simp: points_def section_of_def)

lemma allocator_laws:
  "unused_law any_free" "supply_law any_free" "unused_law none_pointed" "grace_law none_pointed"
proof -
  have "\<exists>p. p \<notin> ran f" if "finite (dom f)" for f :: "fdb_key \<rightharpoonup> nat"
    using that ex_new_if_finite [OF infinite_UNIV_nat] by (simp add: finite_ran)
  then show "supply_law any_free" by (simp add: supply_law_def any_free_def)
  show "grace_law none_pointed"
    using points_iff by (auto simp: grace_law_def none_pointed_def list_all_iff)
qed (simp_all add: unused_law_def any_free_def none_pointed_def)

text \<open>One CPU and one entry, for \<open>mac_a\<close> at interface 1 in VLAN 5.\<close>

definition one_entry :: cell_system where
  "one_entry = ([\<lparr>src = key_b, dst = key_b, in_ifindex = 0, now = 0, at = Finished,
      fdb_result = \<lparr>fv_ifindex = 0, fv_last_seen = 0\<rparr>, cell = 0\<rparr>],
     \<lparr>index = [key_a \<mapsto> 0], cells = (\<lambda>_. new_item 1 1000), cell_locks = Map.empty, time = 3000000000\<rparr>)"

lemma one_entry_attained: "attained A H K one_entry"
  by (rule initial) (simp add: at_rest_def one_entry_def)

lemma requests_name_key_a:
  "request_key (Del_fdb (mac_string mac_a) 5) = Some key_a"
  "request_key (Add_fdb (mac_string mac_a) 5 n) = Some key_a"
  "request_key (Add_fdb (mac_string mac_b) 5 n) = Some key_b"
  using parseMAC_mac_string [of mac_a] parseMAC_mac_string [of mac_b]
  by (simp_all add: mac_length_def mac_a_def mac_b_def key_a_def key_b_def fdb_key_for_def)

lemma sample_service:
  "Success (fst (serve_rpc sample_calls (Del_fdb (mac_string mac_a) 5) (SetMaps None (Some t) NewServer))) \<longleftrightarrow> t key_a \<noteq> None"
  "Success (fst (serve_rpc sample_calls (Add_fdb (mac_string mac_b) 5 n) (SetMaps None (Some t) NewServer)))"
  using requests_name_key_a by (auto simp: rpc_defs sample_calls_def split: option.splits)

text \<open>A frame of \<open>mac_a\<close> from interface 2 up to the point where the entry is to be written, and then the
  entry is deleted.\<close>

definition deleted_underneath :: "cell_event list" where
  "deleted_underneath = [Come 0 key_a key_b 2, Run 0 9, Run 0 9, Run 0 9, Run 0 9, Ask (Del_fdb (mac_string mac_a) 5) 9]"

definition about_to_write :: cell_cpu where
  "about_to_write = \<lparr>src = key_a, dst = key_b, in_ifindex = 2, now = 3000000000, at = Write_port,
     fdb_result = \<lparr>fv_ifindex = 0, fv_last_seen = 0\<rparr>, cell = 0\<rparr>"

lemmas cell_play_unfold = one_entry_def can_move_def cell_step.simps unlocked_def release_def set_value_def
  put_def forget_def view_def requests_name_key_a sample_service new_item_def SECOND_def

lemma deleted_underneath_run:
  "cell_play A (ref_helpers 0) sample_calls deleted_underneath one_entry = Some ([about_to_write],
     \<lparr>index = Map.empty, cells = (\<lambda>_. new_item 1 1000), cell_locks = [0 \<mapsto> 0], time = 3000000000\<rparr>)"
  unfolding deleted_underneath_def about_to_write_def
  by (simp add: cell_play_unfold del: request_key.simps serve_rpc.simps)

section \<open>Witnesses\<close>

lemma deleted_attained: "attained A (ref_helpers 0) sample_calls ([about_to_write],
     \<lparr>index = Map.empty, cells = (\<lambda>_. new_item 1 1000), cell_locks = [0 \<mapsto> 0], time = 3000000000\<rparr>)"
  by (rule cell_play_attained [OF deleted_underneath_run one_entry_attained])

theorem service_cannot_break_locking_witness:
  "\<exists>m s'. attained any_free (ref_helpers 0) sample_calls ([about_to_write], m) \<and> index m = Map.empty \<and>
    cell_locks m 0 = Some 0 \<and> cell_move any_free (ref_helpers 0) ([about_to_write], m) s'"
  using service_cannot_break_locking [OF allocator_laws(1,2) deleted_attained]
  by (intro exI [of _ "\<lparr>index = Map.empty, cells = (\<lambda>_. new_item 1 1000), cell_locks = [0 \<mapsto> 0], time = 3000000000\<rparr>"])
     (use deleted_attained in \<open>auto simp: about_to_write_def\<close>)


text \<open>The CPU has stored the port and not yet the time.\<close>

definition half_written :: cell_system where
  "half_written = ([about_to_write\<lparr>at := Write_time\<rparr>],
     \<lparr>index = [key_a \<mapsto> 0], cells = (\<lambda>_. new_item 1 1000)(0 := new_item 2 1000), cell_locks = [0 \<mapsto> 0], time = 3000000000\<rparr>)"

lemma half_written_attained: "attained A (ref_helpers 0) sample_calls half_written"
proof -
  have "cell_play A (ref_helpers 0) sample_calls
      [Come 0 key_a key_b 2, Run 0 9, Run 0 9, Run 0 9, Run 0 9, Run 0 9] one_entry = Some half_written"
    unfolding half_written_def about_to_write_def by (simp add: cell_play_unfold)
  then show ?thesis by (rule cell_play_attained [OF _ one_entry_attained])
qed


theorem learning_on_a_removed_entry_is_lost_witness:
  "\<exists>s cs' m'. (cell_move any_free (ref_helpers 0))\<^sup>*\<^sup>* s (cs', m') \<and> at (fst s ! 0) = Lock_src \<and>
    src (fst s ! 0) = key_a \<and> at (cs' ! 0) = Lookup_dst \<and> view m' key_a = None"
proof -
  let ?cs = "[about_to_write\<lparr>at := Lock_src\<rparr>]"
  let ?m = "\<lparr>index = Map.empty, cells = (\<lambda>_. new_item 1 1000), cell_locks = Map.empty, time = 3000000000\<rparr>"
  have "cell_play any_free (ref_helpers 0) sample_calls
      [Come 0 key_a key_b 2, Run 0 9, Run 0 9, Ask (Del_fdb (mac_string mac_a) 5) 9] one_entry = Some (?cs, ?m)"
    unfolding about_to_write_def by (simp add: cell_play_unfold del: request_key.simps serve_rpc.simps)
  note att = cell_play_attained [OF this one_entry_attained]
  have "view ?m key_a = None" by (simp add: view_def)
  moreover obtain cs' m' where "(cell_move any_free (ref_helpers 0))\<^sup>*\<^sup>* (?cs, ?m) (cs', m')"
      "at (cs' ! 0) = Lookup_dst" "view m' = view ?m"
    using learning_on_a_removed_entry_is_lost [OF att, of 0] by auto
  ultimately show ?thesis
    by (intro exI [of _ "(?cs, ?m)"] exI [of _ cs'] exI [of _ m']) (simp add: about_to_write_def)
qed


theorem traffic_alone_keeps_entries_witness:
  "\<exists>s. (traffic any_free (ref_helpers 0))\<^sup>*\<^sup>* one_entry s \<and> points (fst s ! 0) = Some (key_a, 0) \<and>
    reachable (ref_helpers 0) (entry_system s)"
proof -
  let ?c = "(fst one_entry ! 0)\<lparr>src := key_a, dst := key_b, in_ifindex := 2, at := Lookup_src\<rparr>"
  let ?s1 = "([?c], snd one_entry)" and ?s2 = "([?c\<lparr>cell := 0, at := Time_old\<rparr>], snd one_entry)"
  have "traffic any_free (ref_helpers 0) one_entry ?s1"
    using arriving [of 0 "fst one_entry" any_free "ref_helpers 0" "snd one_entry" 2 key_b key_a]
    by (simp add: one_entry_def)
  moreover have "cell_move any_free (ref_helpers 0) ?s1 ?s2"
    using cell_move [of 0 "[?c]" "snd one_entry" any_free 0 "ref_helpers 0" "?c\<lparr>cell := 0, at := Time_old\<rparr>" "snd one_entry"]
    by (simp add: one_entry_def can_move_def cell_step.simps unlocked_def)
  ultimately have run: "(traffic any_free (ref_helpers 0))\<^sup>*\<^sup>* one_entry ?s2"
    by (meson moving rtranclp.rtrancl_refl rtranclp.rtrancl_into_rtrancl)
  have "at_rest one_entry" by (simp add: at_rest_def one_entry_def)
  from traffic_alone_keeps_entries [OF allocator_laws(1) ref_fdb_update_law this run] run show ?thesis
    by (intro exI [of _ ?s2]) (simp add: points_def)
qed

end
