(* ===== verification/Config.thy ===== *)
theory Config
  imports Prelude
begin

text \<open>
  The configuration of ports, which config.go of the data plane and types.go of the control plane
  declare alike.
\<close>

section \<open>Configuration\<close>

text \<open>config.go; a Go string is its bytes, and a pointer may be nil.\<close>

record l2_port_config =
  VlanMode :: string
  VlanID :: int
  StartVlanID :: int
  EndVlanID :: int

record port_config =
  Name :: string
  Mode :: string
  L2 :: "l2_port_config option"

definition InterfaceModeLayer2 :: string where "InterfaceModeLayer2 = ''l2''"
definition InterfaceModeLayer3 :: string where "InterfaceModeLayer3 = ''l3''"
definition InterfaceModeVlanIF :: string where "InterfaceModeVlanIF = ''vlanif''"

lemmas interface_modes = InterfaceModeLayer2_def InterfaceModeLayer3_def InterfaceModeVlanIF_def

lemma interface_modes_distinct [simp]:
  "InterfaceModeLayer2 \<noteq> InterfaceModeLayer3" "InterfaceModeLayer3 \<noteq> InterfaceModeLayer2"
  by (simp_all add: interface_modes)

end
