(* ===== verification/Agent.thy ===== *)
theory Agent
  imports Switch Config
begin

text \<open>
  The agent of the data plane (bpf.go): it loads the programs, and for every port of its
  configuration (theory Config) finds the interface, writes its entry of \<open>iface_config_map\<close> and attaches
  the programs to it. If anything is missing in the end it exits. The kernel's answers are a
  parameter, the record \<open>agent_env\<close>. This is where the configurations come from on which the C
  programs run, and the properties here say which of them can occur.
\<close>

section \<open>The kernel\<close>

text \<open>What \<open>net.InterfaceByName\<close> tells of an interface.\<close>

record net_interface =
  Index :: int
  HardwareAddr :: "u8 list"

type_synonym iface_map = "u32 \<rightharpoonup> iface_config_item"

text \<open>
  The answers of the kernel: which interfaces there are; whether the objects load; the update of the
  interface map, which may be refused, given whether the objects are loaded; whether the two kinds of
  programs can be attached to the interface of an index.
\<close>

record agent_env =
  interface_by_name :: "string \<Rightarrow> net_interface option"
  load_objects :: bool
  update_iface :: "bool \<Rightarrow> iface_map \<Rightarrow> u32 \<Rightarrow> iface_config_item \<Rightarrow> iface_map option"
  attach_xdp :: "int \<Rightarrow> bool"
  attach_tcx :: "int \<Rightarrow> bool"

text \<open>
  Documented of these: interface indices are positive and of 31 bits, an update with \<open>UpdateAny\<close>
  that succeeds creates the entry or replaces it.
\<close>

definition env_laws :: "agent_env \<Rightarrow> bool" where
  "env_laws e \<longleftrightarrow>
     (\<forall>n i. interface_by_name e n = Some i \<longrightarrow> 0 < Index i \<and> Index i < 2 ^ 31) \<and>
     (\<forall>m k v m'. update_iface e True m k v = Some m' \<longrightarrow> m' = m(k \<mapsto> v))"

section \<open>One entry\<close>

text \<open>\<open>copy(dst[:], src)\<close> copies as much as fits.\<close>

definition go_copy :: "u8 list \<Rightarrow> u8 list \<Rightarrow> u8 list" where
  "go_copy dst src = take (length dst) src @ drop (length src) dst"

definition populate_name :: "u8 list \<Rightarrow> u8 list" where
  "populate_name nameBytes =
     (let name = replicate 64 0 in
      if length name \<le> length nameBytes then
        (go_copy name (take (length name - 1) nameBytes))[length name - 1 := 0]
      else
        let name = go_copy name nameBytes in
        if length nameBytes < length name then name[length nameBytes := 0] else name)"

definition populate_mac :: "u8 list \<Rightarrow> u8 list" where
  "populate_mac hw =
     (let mac = replicate 6 0 in
      if length mac \<le> length hw then go_copy mac (take (length mac) hw) else go_copy mac hw)"

definition config_mode :: "string \<Rightarrow> u16" where
  "config_mode mode =
     (if mode = InterfaceModeLayer2 then 1 else if mode = InterfaceModeLayer3 then 2 else 0)"

text \<open>The item for a port; reading \<open>port.L2.VlanID\<close> when there is no \<open>l2\<close> section is a panic.\<close>

definition config_item :: "port_config \<Rightarrow> net_interface \<Rightarrow> iface_config_item option" where
  "config_item port iface = (case L2 port of None \<Rightarrow> None | Some l2 \<Rightarrow> Some
     \<lparr>ici_lock = \<lparr>lock_val = 0\<rparr>,
      ici_config = \<lparr>ifc_ifindex = word_of_int (Index iface),
        ifc_name = populate_name (map of_char (Name port)),
        ifc_node_mac = populate_mac (HardwareAddr iface),
        ifc_mode = config_mode (Mode port),
        ifc_l2 = \<lparr>l2c_vlan_id = word_of_int (VlanID l2), l2c_vlan_mode = 0,
          l2c_vlan_range_start = 0, l2c_vlan_range_end = 0\<rparr>\<rparr>\<rparr>)"

section \<open>The loop over the ports\<close>

text \<open>A link is an attached program, or the nil that a failed \<open>AttachTCX\<close> returns.\<close>

datatype link = Xdp_link int | Tcx_link int | Nil_link

record agent =
  links :: "link list"
  ifaces :: iface_map

text \<open>How one pass through the body ends.\<close>

datatype pass = Next agent | Break agent | Exit | Panic

definition agent_port :: "agent_env \<Rightarrow> port_config option \<Rightarrow> agent \<Rightarrow> pass" where
  "agent_port e p a = (case p of None \<Rightarrow> Panic | Some port \<Rightarrow>
     (case interface_by_name e (Name port) of None \<Rightarrow> Exit | Some iface \<Rightarrow>
       (case config_item port iface of None \<Rightarrow> Panic | Some item \<Rightarrow>
         if ifc_mode (ici_config item) = 0 then Break a
         else
           (case update_iface e (load_objects e) (ifaces a) (word_of_int (Index iface)) item of
              None \<Rightarrow> Exit
            | Some m \<Rightarrow>
                if \<not> attach_xdp e (Index iface) then Break (a\<lparr>ifaces := m\<rparr>)
                else Next (a\<lparr>ifaces := m, links := links a @ [Xdp_link (Index iface)] @
                  [if attach_tcx e (Index iface) then Tcx_link (Index iface) else Nil_link]\<rparr>)))))"

fun agent_ports :: "agent_env \<Rightarrow> port_config option list \<Rightarrow> agent \<Rightarrow> pass" where
  "agent_ports e [] a = Next a"
| "agent_ports e (p # ps) a = (case agent_port e p a of
     Next a' \<Rightarrow> agent_ports e ps a'
   | r \<Rightarrow> r)"

section \<open>The agent\<close>

text \<open>The agent exits with code 1, panics, or serves: it then prints the forwarding table forever.\<close>

datatype outcome = Exit_1 | Panicked | Serves agent

text \<open>Closing the nil link is a panic.\<close>

definition finish_agent :: "nat \<Rightarrow> agent \<Rightarrow> outcome" where
  "finish_agent n a =
     (if length (links a) = 0 then Exit_1
      else if length (links a) \<noteq> n * 2 then (if Nil_link \<in> set (links a) then Panicked else Exit_1)
      else Serves a)"

definition Agent :: "agent_env \<Rightarrow> port_config option list \<Rightarrow> outcome" where
  "Agent e ports = (case agent_ports e ports \<lparr>links = [], ifaces = Map.empty\<rparr> of
     Next a \<Rightarrow> finish_agent (length ports) a
   | Break a \<Rightarrow> finish_agent (length ports) a
   | Exit \<Rightarrow> Exit_1
   | Panic \<Rightarrow> Panicked)"

section \<open>Entries\<close>

text \<open>The name is cut to 63 bytes and padded with zeros to 64, so it always ends in a zero.\<close>

lemma populate_name_eq:
  "populate_name bs = take 63 bs @ replicate (64 - length (take 63 bs)) 0"
proof (cases "length bs < 64")
  case True
  then have "(bs @ replicate (64 - length bs) 0)[length bs := 0] = bs @ replicate (64 - length bs) 0"
    by (cases "64 - length bs") (simp_all add: list_update_append)
  with True show ?thesis by (simp add: populate_name_def go_copy_def min_def)
next
  case False
  then have l: "length (take 63 bs) = 63" by simp
  then have "(take 63 bs @ replicate 1 0)[63 := 0] = take 63 bs @ [0]"
    by (simp add: list_update_append)
  with False l show ?thesis by (simp add: populate_name_def go_copy_def min_def)
qed

lemma populate_mac_eq: "populate_mac hw = take 6 hw @ replicate (6 - length hw) 0"
  by (auto simp: populate_mac_def go_copy_def Let_def)

lemma config_item_fields:
  assumes "config_item port iface = Some item"
  shows "port_of item = word_of_int (Index iface)"
    and "ifc_mode (ici_config item) = config_mode (Mode port)"
    and "l2c_vlan_mode (ifc_l2 (ici_config item)) = VLAN_ACCESS"
    and "length (ifc_name (ici_config item)) = 64" and "last (ifc_name (ici_config item)) = 0"
    and "length (ifc_node_mac (ici_config item)) = 6"
  using assms
  by (auto simp: config_item_def port_of_def VLAN_ACCESS_def populate_name_eq populate_mac_eq
    split: option.splits)

lemma config_item_vlan:
  "config_item port iface = Some item \<Longrightarrow> L2 port = Some l2 \<Longrightarrow>
     l2c_vlan_id (ifc_l2 (ici_config item)) = word_of_int (VlanID l2)"
  by (auto simp: config_item_def)

section \<open>The specification\<close>

text \<open>A port that can be configured: its interface and its item.\<close>

definition usable :: "agent_env \<Rightarrow> port_config option \<Rightarrow> (net_interface \<times> iface_config_item) option" where
  "usable e p = (case p of None \<Rightarrow> None | Some port \<Rightarrow>
     (case interface_by_name e (Name port) of None \<Rightarrow> None | Some iface \<Rightarrow>
       (case config_item port iface of None \<Rightarrow> None | Some item \<Rightarrow>
         if ifc_mode (ici_config item) \<noteq> 0 \<and> attach_xdp e (Index iface) then Some (iface, item) else None)))"

definition ifkey :: "net_interface \<Rightarrow> u32" where
  "ifkey i = word_of_int (Index i)"

text \<open>What the agent has done after the ports with these interfaces and items.\<close>

definition port_links :: "agent_env \<Rightarrow> net_interface \<times> iface_config_item \<Rightarrow> link list" where
  "port_links e r = [Xdp_link (Index (fst r)),
     if attach_tcx e (Index (fst r)) then Tcx_link (Index (fst r)) else Nil_link]"

definition entries :: "(net_interface \<times> iface_config_item) list \<Rightarrow> iface_map" where
  "entries rs = map_of (rev (map (\<lambda>(i, it). (ifkey i, it)) rs))"

definition wired :: "agent_env \<Rightarrow> (net_interface \<times> iface_config_item) list \<Rightarrow> agent \<Rightarrow> agent" where
  "wired e rs a = a\<lparr>links := links a @ concat (map (port_links e) rs), ifaces := ifaces a ++ entries rs\<rparr>"

lemma wired_Nil [simp]: "wired e [] a = a"
  by (simp add: wired_def entries_def)

lemma wired_Cons: "wired e (r # rs) a = wired e rs (wired e [r] a)"
  by (simp add: wired_def entries_def map_add_def fun_eq_iff split: prod.split option.split)

lemma wired_links: "length (links (wired e rs a)) = length (links a) + 2 * length rs"
  by (induction rs arbitrary: a) (simp_all add: wired_def port_links_def)

text \<open>The pass over a port succeeds when it is usable and the kernel takes the entry.\<close>

lemma agent_port_usable:
  assumes "env_laws e" and "load_objects e" and "usable e p = Some (i, it)"
  shows "agent_port e p a = (case update_iface e True (ifaces a) (ifkey i) it of
     None \<Rightarrow> Exit | Some m \<Rightarrow> Next (wired e [(i, it)] a))"
  using assms
  by (auto simp: agent_port_def usable_def wired_def entries_def port_links_def ifkey_def env_laws_def
    split: option.splits if_splits)

lemma agent_port_unusable:
  assumes "usable e p = None"
  shows "agent_port e p a = Exit \<or> agent_port e p a = Panic \<or>
    (\<exists>a'. agent_port e p a = Break a' \<and> links a' = links a)"
  using assms by (auto simp: agent_port_def usable_def split: option.splits if_splits)

lemma agent_ports_Next:
  assumes "env_laws e" and "load_objects e" and "agent_ports e ps a = Next a'"
  shows "\<exists>rs. map (usable e) ps = map Some rs \<and> a' = wired e rs a"
  using assms(3)
proof (induction ps arbitrary: a)
  case Nil
  then show ?case by simp
next
  case (Cons p ps)
  obtain r where r: "usable e p = Some r"
    using agent_port_unusable [of e p a] Cons.prems by (cases "usable e p") auto
  obtain i it where [simp]: "r = (i, it)" by fastforce
  have "agent_ports e ps (wired e [r] a) = Next a'"
    using Cons.prems agent_port_usable [OF assms(1,2), of p i it a] r by (simp split: option.splits)
  with Cons.IH obtain rs where "map (usable e) ps = map Some rs" "a' = wired e rs (wired e [r] a)" by blast
  with r show ?case by (intro exI [of _ "r # rs"]) (simp add: wired_Cons [of e "(i, it)" rs])
qed

text \<open>A loop that stops early has attached too little.\<close>

lemma agent_ports_Break:
  assumes "env_laws e" and "load_objects e" and "agent_ports e ps a = Break a'"
  shows "length (links a') < length (links a) + 2 * length ps"
  using assms(3)
proof (induction ps arbitrary: a)
  case Nil
  then show ?case by simp
next
  case (Cons p ps)
  show ?case
  proof (cases "usable e p")
    case None
    with Cons.prems agent_port_unusable [of e p a] show ?thesis by auto
  next
    case (Some r)
    obtain i it where [simp]: "r = (i, it)" by fastforce
    have "agent_ports e ps (wired e [r] a) = Break a'"
      using Cons.prems agent_port_usable [OF assms(1,2), of p i it a] Some by (simp split: option.splits)
    from Cons.IH [OF this] show ?thesis by (simp add: wired_links)
  qed
qed

text \<open>The map takes an entry as long as it has no more than its declared number of them.\<close>

definition roomy :: "agent_env \<Rightarrow> bool" where
  "roomy e \<longleftrightarrow> (\<forall>m k v. finite (dom m) \<and> card (insert k (dom m)) \<le> iface_config_map_max_entries \<longrightarrow>
     update_iface e True m k v \<noteq> None)"

lemma agent_ports_all:
  assumes "env_laws e" and "load_objects e" and "roomy e" and "map (usable e) ps = map Some rs"
    and "finite (dom (ifaces a))" and "card (dom (ifaces a)) + length ps \<le> iface_config_map_max_entries"
  shows "agent_ports e ps a = Next (wired e rs a)"
  using assms(4-)
proof (induction ps arbitrary: a rs)
  case Nil
  then show ?case by simp
next
  case (Cons p ps)
  obtain r rs' where rs: "rs = r # rs'" and r: "usable e p = Some r" and rest: "map (usable e) ps = map Some rs'"
    using Cons.prems(1) by (cases rs) auto
  obtain i it where [simp]: "r = (i, it)" by fastforce
  have d: "dom (ifaces (wired e [r] a)) = insert (ifkey i) (dom (ifaces a))"
    by (simp add: wired_def entries_def)
  have c: "card (insert (ifkey i) (dom (ifaces a))) \<le> Suc (card (dom (ifaces a)))"
    by (rule card_insert_le_m1) (simp_all add: card_gt_0_iff)
  then have "card (insert (ifkey i) (dom (ifaces a))) \<le> iface_config_map_max_entries"
    using Cons.prems(3) by simp
  then obtain m where "update_iface e True (ifaces a) (ifkey i) it = Some m"
    using assms(3) Cons.prems(2) unfolding roomy_def by blast
  then have "agent_port e p a = Next (wired e [r] a)"
    using agent_port_usable [OF assms(1,2), of p i it a] r by simp
  moreover have "agent_ports e ps (wired e [r] a) = Next (wired e rs' (wired e [r] a))"
    using Cons.IH [OF rest, of "wired e [r] a"] Cons.prems(2,3) c d by simp
  ultimately show ?case by (simp add: rs wired_Cons [of e "(i, it)" rs'])
qed

definition blank :: agent where
  "blank = \<lparr>links = [], ifaces = Map.empty\<rparr>"

lemma served:
  assumes "env_laws e" and "load_objects e" and "Agent e ports = Serves a"
  obtains rs where "map (usable e) ports = map Some rs" and "a = wired e rs blank" and "ports \<noteq> []"
proof (cases "agent_ports e ports blank")
  case (Next a')
  with agent_ports_Next [OF assms(1,2)] obtain rs where rs: "map (usable e) ports = map Some rs"
    "a' = wired e rs blank" by blast
  with Next assms(3) have "a = a'" and "length (links a') \<noteq> 0"
    by (simp_all add: Agent_def blank_def [symmetric] finish_agent_def split: if_splits)
  with rs that show ?thesis by (cases ports) (auto simp: blank_def)
next
  case (Break a')
  then have "length (links a') \<noteq> length ports * 2"
    using agent_ports_Break [OF assms(1,2)] by (fastforce simp: blank_def)
  with Break assms(3) show ?thesis
    by (simp add: Agent_def blank_def [symmetric] finish_agent_def split: if_splits)
qed (use assms(3) in \<open>simp_all add: Agent_def blank_def [symmetric]\<close>)

section \<open>The interface map\<close>

lemma usable_fields:
  assumes "usable e p = Some (i, it)"
  obtains port where "p = Some port" and "interface_by_name e (Name port) = Some i"
    and "config_item port i = Some it" and "ifc_mode (ici_config it) \<noteq> 0"
  using assms by (auto simp: usable_def split: option.splits if_splits)

lemma usable_port: "usable e p = Some (i, it) \<Longrightarrow> port_of it = ifkey i"
  by (elim usable_fields) (simp add: config_item_fields(1) ifkey_def)

lemma usable_members: "map (usable e) ps = map Some rs \<Longrightarrow> r \<in> set rs \<Longrightarrow> \<exists>p\<in>set ps. usable e p = Some r"
  by (metis (no_types, lifting) image_iff list.set_map)

lemma entries_dom: "dom (entries rs) = (\<lambda>r. ifkey (fst r)) ` set rs"
  by (force simp: entries_def dom_map_of_conv_image_fst image_image case_prod_unfold)

lemma entries_some: "entries rs k = Some it \<Longrightarrow> \<exists>i. (i, it) \<in> set rs \<and> ifkey i = k"
  by (auto simp: entries_def dest!: map_of_SomeD)

lemma entries_at:
  assumes "distinct (map (\<lambda>r. ifkey (fst r)) rs)" and "(i, it) \<in> set rs"
  shows "entries rs (ifkey i) = Some it"
  unfolding entries_def using assms
  by (intro map_of_is_SomeI) (auto simp: rev_map [symmetric] comp_def case_prod_unfold image_iff intro: bexI [of _ "(i, it)"])

lemma entries_snoc: "entries (rs @ [(i, it)]) = (entries rs)(ifkey i \<mapsto> it)"
  by (simp add: entries_def fun_eq_iff)

lemma entries_well_configured:
  assumes "map (usable e) ps = map Some rs"
  shows "well_configured (entries rs)"
  unfolding well_configured_def
proof (intro conjI allI impI)
  show "finite (dom (entries rs))" by (simp add: entries_dom)
next
  fix k it assume "entries rs k = Some it"
  then obtain i where "(i, it) \<in> set rs" "ifkey i = k" using entries_some by blast
  with usable_members [OF assms] usable_port show "port_of it = k" by blast
qed

lemma entries_reachable:
  assumes "map (usable e) ps = map Some rs"
  shows "\<exists>tr. reach H tr (power_on\<lparr>sw_ifaces := entries rs\<rparr>)"
proof -
  have "\<forall>(i, it)\<in>set rs. port_of it = ifkey i"
    using usable_members [OF assms] usable_port by blast
  then show ?thesis
  proof (induction rs rule: rev_induct)
    case Nil
    have "power_on\<lparr>sw_ifaces := entries []\<rparr> = power_on" by (simp add: power_on_def entries_def)
    then show ?case using start by metis
  next
    case (snoc r rs)
    obtain i it where r [simp]: "r = (i, it)" by fastforce
    from snoc obtain tr where "reach H tr (power_on\<lparr>sw_ifaces := entries rs\<rparr>)" by auto
    moreover have "switch_step H (power_on\<lparr>sw_ifaces := entries rs\<rparr>) (Configured (ifkey i) it)
        (power_on\<lparr>sw_ifaces := entries (rs @ [r])\<rparr>)"
      using snoc.prems by (simp add: configured_step entries_snoc)
    ultimately show ?case using more by blast
  qed
qed

lemma ifkey_nonzero: "env_laws e \<Longrightarrow> interface_by_name e n = Some i \<Longrightarrow> ifkey i \<noteq> 0"
proof
  assume "env_laws e" "interface_by_name e n = Some i" and z: "ifkey i = 0"
  then have "0 < Index i" "Index i < 2 ^ 31" by (auto simp: env_laws_def)
  moreover have "uint (ifkey i) = Index i mod 2 ^ 32" by (simp add: ifkey_def uint_word_of_int)
  ultimately show False using z by simp
qed

lemma agent_entry:
  assumes "env_laws e" and "map (usable e) ps = map Some rs" and "entries rs k = Some it"
  shows "k \<noteq> 0 \<and> port_of it = k \<and> ifc_mode (ici_config it) \<in> {IF_MODE_L2, IF_MODE_L3} \<and>
    l2c_vlan_mode (ifc_l2 (ici_config it)) = VLAN_ACCESS \<and> length (ifc_name (ici_config it)) = 64 \<and>
    last (ifc_name (ici_config it)) = 0 \<and> length (ifc_node_mac (ici_config it)) = 6"
proof -
  obtain i p where p: "usable e p = Some (i, it)" and k: "ifkey i = k"
    using entries_some [OF assms(3)] usable_members [OF assms(2)] by blast
  from p obtain port where port: "interface_by_name e (Name port) = Some i" "config_item port i = Some it"
    "ifc_mode (ici_config it) \<noteq> 0" by (rule usable_fields)
  have "ifc_mode (ici_config it) \<in> {IF_MODE_L2, IF_MODE_L3}"
    using config_item_fields(2) [OF port(2)] port(3)
    by (auto simp: config_mode_def IF_MODE_L2_def IF_MODE_L3_def split: if_splits)
  with config_item_fields [OF port(2)] ifkey_nonzero [OF assms(1) port(1)] usable_port [OF p] k
  show ?thesis by simp
qed

lemma served_entries:
  assumes "env_laws e" and "load_objects e" and "Agent e ports = Serves a"
  shows "\<exists>rs. map (usable e) ports = map Some rs \<and> ifaces a = entries rs"
  by (rule served [OF assms]) (auto simp: wired_def blank_def)

section \<open>Properties\<close>

text \<open>A node with two interfaces and a kernel that grants everything, and a configuration for it.\<close>

definition sample_env :: agent_env where
  "sample_env = \<lparr>interface_by_name = [''eth0'' \<mapsto> \<lparr>Index = 1, HardwareAddr = mac_a\<rparr>,
       ''eth1'' \<mapsto> \<lparr>Index = 2, HardwareAddr = mac_b\<rparr>],
     load_objects = True, update_iface = (\<lambda>_ m k v. Some (m(k \<mapsto> v))),
     attach_xdp = (\<lambda>_. True), attach_tcx = (\<lambda>_. True)\<rparr>"

definition sample_port :: "string \<Rightarrow> string \<Rightarrow> int \<Rightarrow> port_config" where
  "sample_port n mode vid = \<lparr>Name = n, Mode = ''l2'',
     L2 = Some \<lparr>VlanMode = mode, VlanID = vid, StartVlanID = 10, EndVlanID = 20\<rparr>\<rparr>"

definition sample_ports :: "port_config option list" where
  "sample_ports = [Some (sample_port ''eth0'' ''access'' 5), Some (sample_port ''eth1'' ''trunk'' 5)]"

definition sample_rs :: "(net_interface \<times> iface_config_item) list" where
  "sample_rs = map (\<lambda>p. the (usable sample_env p)) sample_ports"

lemma sample_env_laws [simp]: "env_laws sample_env" "load_objects sample_env" "roomy sample_env"
  by (auto simp: env_laws_def roomy_def sample_env_def split: if_splits)

lemma sample_usable [simp]: "map (usable sample_env) sample_ports = map Some sample_rs"
  by (simp add: sample_rs_def sample_ports_def sample_port_def sample_env_def usable_def config_item_def
    config_mode_def interface_modes)



lemma sample_entries: "dom (entries sample_rs) = {1, 2}"
  by (simp add: entries_dom sample_rs_def sample_ports_def sample_port_def sample_env_def usable_def
    config_item_def config_mode_def interface_modes ifkey_def)

lemma sample_serves: "\<exists>a. Agent sample_env sample_ports = Serves a \<and> ifaces a = entries sample_rs"
proof -
  have "agent_ports sample_env sample_ports blank = Next (wired sample_env sample_rs blank)"
    by (rule agent_ports_all)
      (simp_all add: blank_def iface_config_map_max_entries_def sample_ports_def [THEN arg_cong [of _ _ length]])
  moreover have "length sample_rs = 2" "length sample_ports = 2" by (simp_all add: sample_rs_def sample_ports_def)
  ultimately show ?thesis
    by (simp add: Agent_def blank_def [symmetric] finish_agent_def wired_links) (simp add: blank_def wired_def)
qed

text \<open>The map the agent leaves to the programs is sound: every entry lies under its own interface
  number, which is not 0; its mode is layer 2 or layer 3; its name fills the 64 bytes and ends in a
  zero, and its address has 6 bytes; every entry is for an access port. The switch over which the
  invariants of the programs hold reaches the state with this map.\<close>

theorem agent_map_is_sound:
  assumes "env_laws e" and "load_objects e" and "Agent e ports = Serves a"
  shows "well_configured (ifaces a) \<and> (\<exists>tr. reach H tr (power_on\<lparr>sw_ifaces := ifaces a\<rparr>)) \<and>
    (\<forall>k item. ifaces a k = Some item \<longrightarrow> k \<noteq> 0 \<and> ifc_mode (ici_config item) \<in> {IF_MODE_L2, IF_MODE_L3} \<and>
      l2c_vlan_mode (ifc_l2 (ici_config item)) = VLAN_ACCESS \<and>
      length (ifc_name (ici_config item)) = 64 \<and> last (ifc_name (ici_config item)) = 0 \<and>
      length (ifc_node_mac (ici_config item)) = 6)"
proof -
  obtain rs where rs: "map (usable e) ports = map Some rs" "ifaces a = entries rs"
    using served_entries [OF assms] by blast
  have "k \<noteq> 0 \<and> ifc_mode (ici_config item) \<in> {IF_MODE_L2, IF_MODE_L3} \<and>
      l2c_vlan_mode (ifc_l2 (ici_config item)) = VLAN_ACCESS \<and>
      length (ifc_name (ici_config item)) = 64 \<and> last (ifc_name (ici_config item)) = 0 \<and>
      length (ifc_node_mac (ici_config item)) = 6" if "ifaces a k = Some item" for k item
    using agent_entry [OF assms(1) rs(1)] that by (auto simp: rs(2))
  with rs entries_well_configured [OF rs(1)] entries_reachable [OF rs(1)] show ?thesis by auto
qed

theorem agent_map_is_sound_witness:
  "\<exists>a item. Agent sample_env sample_ports = Serves a \<and> ifaces a 2 = Some item \<and>
    l2c_vlan_mode (ifc_l2 (ici_config item)) = VLAN_ACCESS"
proof -
  obtain a where a: "Agent sample_env sample_ports = Serves a" "ifaces a = entries sample_rs"
    using sample_serves by blast
  then have "2 \<in> dom (ifaces a)" by (simp add: sample_entries)
  then obtain item where "ifaces a 2 = Some item" by blast
  with a agent_map_is_sound [OF _ _ a(1)] show ?thesis by auto
qed

text \<open>A trunk is not configured as one. The agent writes access mode for every port, whatever the
  configuration says, so the switch drops every frame that carries a tag, on every port, and learns
  nothing from it; the VLAN range in the configuration has no effect.\<close>

theorem trunk_configuration_is_ignored:
  assumes "env_laws e" and "load_objects e" and "Agent e ports = Serves a"
    and "iface_config_map s = ifaces a" and "held s = None" and "parse_frame (frame s) = Some True"
  shows "\<exists>s'. xdp_process H s = Some (XDP_DROP, s') \<and> fdb_table s' = fdb_table s \<and>
    redirect_to s' = redirect_to s"
proof -
  obtain rs where rs: "map (usable e) ports = map Some rs" "ifaces a = entries rs"
    using served_entries [OF assms(1-3)] by blast
  have l2: "xdp_l2_process H (entered fc item s) = Some (XDP_DROP, entered fc item s)"
    if "iface_config_map s k = Some item" for fc item k
  proof -
    have f: "l2c_vlan_mode (ifc_l2 (ici_config item)) = VLAN_ACCESS" "port_of item \<noteq> 0"
      using that assms(4) agent_entry [OF assms(1) rs(1)] rs(2) by auto
    then have "l2_decide H (fc\<lparr>fc_in_if_config := ici_config item\<rparr>) (entered fc item s) = Discard"
      using assms(6) by (simp add: l2_decide_def admit_def frame_tag_def)
    with f assms(5) show ?thesis by (simp add: xdp_l2_process_run port_of_def)
  qed
  show ?thesis
    using assms(5) l2 by (auto simp: xdp_process_run xdp_l3_process_run split: option.splits)
qed

theorem trunk_configuration_is_ignored_witness:
  "\<exists>a s'. Agent sample_env sample_ports = Serves a \<and>
    xdp_process (ref_helpers 0)
      ((sample_state (tagged_frame mac_a mac_b 12) 2 Map.empty zero_cache)\<lparr>iface_config_map := ifaces a\<rparr>) =
      Some (XDP_DROP, s') \<and> fdb_table s' = Map.empty"
proof -
  obtain a where a: "Agent sample_env sample_ports = Serves a" using sample_serves by blast
  let ?s = "(sample_state (tagged_frame mac_a mac_b 12) 2 Map.empty zero_cache)\<lparr>iface_config_map := ifaces a\<rparr>"
  have "parse_frame (tagged_frame mac_a mac_b 12) = Some True"
    by (simp add: parse_frame_def tagged_frame_def mac_a_def mac_b_def type_at_def ntohs_word16 vlan_type_def
      frame_vid_def ETH_P_8021Q_def ETH_P_8021AD_def)
  then have "parse_frame (frame ?s) = Some True" by simp
  from trunk_configuration_is_ignored [OF _ _ a _ _ this, of "ref_helpers 0"] a show ?thesis by auto
qed

text \<open>
  The number of the interface a port names, and the ports that are members of a VLAN by the
  configuration.
\<close>

definition port_number :: "agent_env \<Rightarrow> port_config option \<Rightarrow> u32 option" where
  "port_number e p = (case p of None \<Rightarrow> None | Some port \<Rightarrow>
     map_option ifkey (interface_by_name e (Name port)))"

definition configured_for :: "port_config \<Rightarrow> u32 \<Rightarrow> bool" where
  "configured_for port vid \<longleftrightarrow> Mode port = InterfaceModeLayer2 \<and>
     (case L2 port of None \<Rightarrow> False | Some l2 \<Rightarrow> word_of_int (VlanID l2) = vid)"

lemma usable_number: "usable e p = Some (i, it) \<Longrightarrow> port_number e p = Some (ifkey i)"
  by (elim usable_fields) (simp add: port_number_def)

lemma usable_fst: "usable e p = Some r \<Longrightarrow> port_number e p = Some (ifkey (fst r))"
  by (cases r) (simp add: usable_number)

lemma usable_configured:
  assumes "usable e (Some port) = Some (i, it)"
  shows "ifc_mode (ici_config it) = IF_MODE_L2 \<and> egress_member (ifc_l2 (ici_config it)) vid \<longleftrightarrow>
    configured_for port vid"
proof -
  have item: "config_item port i = Some it" using assms by (elim usable_fields) simp
  then obtain l2 where l2: "L2 port = Some l2" by (auto simp: config_item_def split: option.splits)
  from config_item_fields(2,3) [OF item] config_item_vlan [OF item l2] l2 show ?thesis
    by (auto simp: configured_for_def egress_member_def config_mode_def IF_MODE_L2_def interface_modes)
qed

text \<open>When the ports name different interfaces, the map has one entry for each of them.\<close>

lemma served_port:
  assumes "map (usable e) ports = map Some rs" and "distinct (map (port_number e) ports)"
    and "Some port \<in> set ports"
  shows "\<exists>i it. usable e (Some port) = Some (i, it) \<and> entries rs (ifkey i) = Some it"
proof -
  have "usable e (Some port) \<in> Some ` set rs" using assms(1,3) by (metis image_eqI list.set_map)
  then obtain i it where r: "usable e (Some port) = Some (i, it)" "(i, it) \<in> set rs" by auto
  have "map (port_number e) ports = map (\<lambda>r. Some (ifkey (fst r))) rs"
    using assms(1)
    by (intro nth_equalityI)
      (auto dest: map_eq_imp_length_eq simp: list_eq_iff_nth_eq usable_fst)
  then have "distinct (map (\<lambda>r. ifkey (fst r)) rs)"
    using assms(2) by (simp add: distinct_map inj_on_def)
  with r entries_at show ?thesis by blast
qed

lemma served_members:
  assumes "map (usable e) ports = map Some rs" and "distinct (map (port_number e) ports)"
  shows "(\<exists>out. entries rs k = Some out \<and> ifc_mode (ici_config out) = IF_MODE_L2 \<and>
      egress_member (ifc_l2 (ici_config out)) vid) \<longleftrightarrow>
    (\<exists>port. Some port \<in> set ports \<and> port_number e (Some port) = Some k \<and> configured_for port vid)"
proof
  assume "\<exists>out. entries rs k = Some out \<and> ifc_mode (ici_config out) = IF_MODE_L2 \<and>
      egress_member (ifc_l2 (ici_config out)) vid"
  then obtain out where out: "entries rs k = Some out" "ifc_mode (ici_config out) = IF_MODE_L2"
    "egress_member (ifc_l2 (ici_config out)) vid" by blast
  then obtain i p where p: "p \<in> set ports" "usable e p = Some (i, out)" "ifkey i = k"
    using entries_some usable_members [OF assms(1)] by blast
  then obtain port where "p = Some port" by (elim usable_fields)
  with p out usable_number usable_configured
  show "\<exists>port. Some port \<in> set ports \<and> port_number e (Some port) = Some k \<and> configured_for port vid"
    by blast
next
  assume "\<exists>port. Some port \<in> set ports \<and> port_number e (Some port) = Some k \<and> configured_for port vid"
  then obtain port where port: "Some port \<in> set ports" "port_number e (Some port) = Some k"
    "configured_for port vid" by blast
  with served_port [OF assms] obtain i it where "usable e (Some port) = Some (i, it)"
    "entries rs (ifkey i) = Some it" by blast
  with port usable_number [of e "Some port" i it] usable_configured [of e port i it vid]
  show "\<exists>out. entries rs k = Some out \<and> ifc_mode (ici_config out) = IF_MODE_L2 \<and>
      egress_member (ifc_l2 (ici_config out)) vid" by auto
qed



text \<open>The same agent where the TC program cannot be attached: every TC link is nil.\<close>

definition no_tcx :: "agent_env \<Rightarrow> agent_env" where
  "no_tcx e = e\<lparr>attach_tcx := \<lambda>_. False\<rparr>"

definition without_tc :: "agent \<Rightarrow> agent" where
  "without_tc a = a\<lparr>links := map (\<lambda>l. case l of Tcx_link i \<Rightarrow> Nil_link | _ \<Rightarrow> l) (links a)\<rparr>"

fun map_pass :: "(agent \<Rightarrow> agent) \<Rightarrow> pass \<Rightarrow> pass" where
  "map_pass f (Next a) = Next (f a)"
| "map_pass f (Break a) = Break (f a)"
| "map_pass f r = r"

lemma agent_port_no_tcx: "agent_port (no_tcx e) p (without_tc a) = map_pass without_tc (agent_port e p a)"
  by (auto simp: agent_port_def no_tcx_def without_tc_def split: option.split)

lemma agent_ports_no_tcx: "agent_ports (no_tcx e) ps (without_tc a) = map_pass without_tc (agent_ports e ps a)"
  by (induction ps arbitrary: a) (auto simp: agent_port_no_tcx split: pass.split)

text \<open>A node without its TC programs looks healthy. When the TC program cannot be attached, the
  agent appends the nil link all the same, so the count of links is right: every configuration it
  serves it also serves with TC attached to no interface, with the same map, and then nothing floods
  the frames that XDP passes on for flooding.\<close>

theorem tcx_failure_goes_unnoticed:
  assumes "Agent e ports = Serves a"
  shows "\<exists>a'. Agent (e\<lparr>attach_tcx := \<lambda>_. False\<rparr>) ports = Serves a' \<and> ifaces a' = ifaces a \<and>
    length (links a') = length (links a) \<and> (\<forall>i. Tcx_link i \<notin> set (links a'))"
proof -
  have blank: "without_tc blank = blank" by (simp add: without_tc_def blank_def)
  have finish: "finish_agent n b = Serves a \<Longrightarrow> a = b \<and> finish_agent n (without_tc b) = Serves (without_tc b)"
    for n b by (auto simp: finish_agent_def without_tc_def split: if_splits)
  have "agent_ports (no_tcx e) ports blank = map_pass without_tc (agent_ports e ports blank)"
    using agent_ports_no_tcx [of e ports blank] by (simp add: blank)
  with assms have "Agent (no_tcx e) ports = Serves (without_tc a)"
    using finish by (auto simp: Agent_def blank_def [symmetric] split: pass.splits)
  moreover have "Tcx_link i \<notin> set (links (without_tc a))" for i
    by (auto simp: without_tc_def split: link.splits)
  ultimately show ?thesis by (auto simp: no_tcx_def without_tc_def)
qed

theorem tcx_failure_goes_unnoticed_witness:
  "\<exists>a. Agent (sample_env\<lparr>attach_tcx := \<lambda>_. False\<rparr>) sample_ports = Serves a \<and>
    (\<forall>i. Tcx_link i \<notin> set (links a))"
  using sample_serves tcx_failure_goes_unnoticed [of sample_env sample_ports] by blast

text \<open>A port without a section \<open>l2\<close> stops the agent by a panic, whatever its mode: the section is
  optional in the configuration, but the loop reads \<open>port.L2.VlanID\<close> before it looks at the mode. So
  a configuration with a layer-3 port that is written without that section never serves; when the
  loop gets to the port and the interface exists, the process panics.\<close>

theorem port_without_l2_panics:
  assumes "agent_ports e pre \<lparr>links = [], ifaces = Map.empty\<rparr> = Next a" and "L2 port = None"
    and "interface_by_name e (Name port) = Some i"
  shows "Agent e (pre @ Some port # post) = Panicked"
proof -
  have split: "agent_ports e (ps @ qs) b = (case agent_ports e ps b of Next c \<Rightarrow> agent_ports e qs c | r \<Rightarrow> r)"
    for ps qs b by (induction ps arbitrary: b) (auto split: pass.split)
  have "agent_port e (Some port) a = Panic" using assms(2,3) by (simp add: agent_port_def config_item_def)
  with assms(1) show ?thesis by (simp add: Agent_def split)
qed

theorem port_without_l2_panics_witness:
  "Agent sample_env [Some \<lparr>Name = ''eth0'', Mode = ''l3'', L2 = None\<rparr>] = Panicked"
  using port_without_l2_panics [of sample_env "[]" _ "\<lparr>Name = ''eth0'', Mode = ''l3'', L2 = None\<rparr>" _ "[]"]
  by (simp add: sample_env_def)

end
