(* ===== verification/Control.thy ===== *)
theory Control
  imports Config Registry
begin

text \<open>
  The control plane: the configuration manager and the port manager (controlplane/server/config.go),
  the CNI executor (cmd/cni.go) and the CNI service, the client of the data plane
  (client/dataplane.go), and the HTTP handlers (controlplane/server/server.go). Every method of the
  manager runs under its mutex, so the calls take effect one after the other. Reading and decoding a
  request body, and encoding an answer, are the library's: a body is here the outcome of decoding it.
\<close>

section \<open>Errors\<close>

text \<open>types.go. A result of type \<open>error\<close> is nil or an error.\<close>

record cp_error =
  Code :: nat
  Message :: string

definition ErrCodeNotFound :: nat where "ErrCodeNotFound = 404"
definition ErrCodeAlreadyExists :: nat where "ErrCodeAlreadyExists = 409"
definition ErrCodeInvalidArgument :: nat where "ErrCodeInvalidArgument = 400"

definition NewNotFoundError :: "string \<Rightarrow> cp_error" where
  "NewNotFoundError msg = \<lparr>Code = ErrCodeNotFound, Message = msg\<rparr>"

definition NewAlreadyExistsError :: "string \<Rightarrow> cp_error" where
  "NewAlreadyExistsError msg = \<lparr>Code = ErrCodeAlreadyExists, Message = msg\<rparr>"

definition NewInvalidArgumentError :: "string \<Rightarrow> cp_error" where
  "NewInvalidArgumentError msg = \<lparr>Code = ErrCodeInvalidArgument, Message = msg\<rparr>"

lemmas error_defs = NewNotFoundError_def NewAlreadyExistsError_def NewInvalidArgumentError_def
  ErrCodeNotFound_def ErrCodeAlreadyExists_def ErrCodeInvalidArgument_def

section \<open>Configuration manager\<close>

type_synonym config_manager = "string \<rightharpoonup> port_config"

definition NewConfigManager :: config_manager where "NewConfigManager = Map.empty"

definition AddPort :: "string \<Rightarrow> port_config option \<Rightarrow> config_manager \<Rightarrow> cp_error option \<times> config_manager" where
  "AddPort name config m =
     (if name = '''' then (Some (NewInvalidArgumentError ''port name cannot be empty''), m)
      else (case config of
        None \<Rightarrow> (Some (NewInvalidArgumentError ''port config cannot be nil''), m)
      | Some c \<Rightarrow>
          if m name \<noteq> None then (Some (NewAlreadyExistsError (''port already exists: '' @ name)), m)
          else (None, m(name \<mapsto> c))))"

definition DeletePort :: "string \<Rightarrow> config_manager \<Rightarrow> cp_error option \<times> config_manager" where
  "DeletePort name m =
     (if name = '''' then (Some (NewInvalidArgumentError ''port name cannot be empty''), m)
      else if m name = None then (Some (NewNotFoundError (''port not found: '' @ name)), m)
      else (None, m(name := None)))"

definition UpdatePort :: "string \<Rightarrow> port_config option \<Rightarrow> config_manager \<Rightarrow> cp_error option \<times> config_manager" where
  "UpdatePort name config m =
     (if name = '''' then (Some (NewInvalidArgumentError ''port name cannot be empty''), m)
      else (case config of
        None \<Rightarrow> (Some (NewInvalidArgumentError ''port config cannot be nil''), m)
      | Some c \<Rightarrow>
          if m name = None then (Some (NewNotFoundError (''port not found: '' @ name)), m)
          else (None, m(name \<mapsto> c))))"

definition GetPort :: "string \<Rightarrow> config_manager \<Rightarrow> cp_error + port_config" where
  "GetPort name m =
     (if name = '''' then Inl (NewInvalidArgumentError ''port name cannot be empty'')
      else (case m name of
        Some port \<Rightarrow> Inr port
      | None \<Rightarrow> Inl (NewNotFoundError (''port not found: '' @ name))))"

text \<open>The order in which \<open>range\<close> visits the map is the run time's choice.\<close>

definition ListPorts :: "string list \<Rightarrow> config_manager \<Rightarrow> port_config list" where
  "ListPorts order m = map (\<lambda>n. the (m n)) order"

definition range_order :: "config_manager \<Rightarrow> string list \<Rightarrow> bool" where
  "range_order m order \<longleftrightarrow> distinct order \<and> set order = dom m"

lemmas manager_defs = AddPort_def DeletePort_def UpdatePort_def GetPort_def error_defs

text \<open>The manager keeps the contract of a registry, with names that are not empty as keys.\<close>

definition manager_call :: "(string, port_config) call \<Rightarrow> config_manager \<Rightarrow> bool \<times> config_manager" where
  "manager_call c m = (case c of
     Add_entry n cfg \<Rightarrow> apfst (\<lambda>e. e = None) (AddPort n (Some cfg) m)
   | Del_entry n \<Rightarrow> apfst (\<lambda>e. e = None) (DeletePort n m)
   | Set_entry n cfg \<Rightarrow> apfst (\<lambda>e. e = None) (UpdatePort n (Some cfg) m))"

interpretation cm: registry manager_call "\<lambda>m. m" "\<lambda>n. n \<noteq> ''''"
proof
  fix c m r m'
  assume "manager_call c m = (r, m')"
  then show "spec_call (\<lambda>n. n \<noteq> '''') c m = (r, m')"
    by (cases c) (auto simp: manager_call_def manager_defs split: if_splits)
qed

section \<open>Port manager and CNI\<close>

text \<open>The port manager hands every call on to the manager it was made with.\<close>

definition pm_AddPort :: "string \<Rightarrow> port_config option \<Rightarrow> config_manager \<Rightarrow> cp_error option \<times> config_manager" where
  "pm_AddPort name config m = AddPort name config m"

definition pm_DeletePort :: "string \<Rightarrow> config_manager \<Rightarrow> cp_error option \<times> config_manager" where
  "pm_DeletePort name m = DeletePort name m"

definition pm_UpdatePort :: "string \<Rightarrow> port_config option \<Rightarrow> config_manager \<Rightarrow> cp_error option \<times> config_manager" where
  "pm_UpdatePort name config m = UpdatePort name config m"

text \<open>\<open>cniExecutor\<close>; the arguments may be nil.\<close>

record cni_args =
  ContainerID :: string
  NetNS :: string
  IfName :: string

definition cni_port :: "string \<Rightarrow> port_config" where
  "cni_port n = \<lparr>Name = n, Mode = InterfaceModeLayer2, L2 = None\<rparr>"

definition cni_Add :: "cni_args option \<Rightarrow> config_manager \<Rightarrow> cp_error option \<times> config_manager" where
  "cni_Add args m = (case args of
     None \<Rightarrow> (Some (NewInvalidArgumentError ''interface name is required''), m)
   | Some a \<Rightarrow>
       if IfName a = '''' then (Some (NewInvalidArgumentError ''interface name is required''), m)
       else pm_AddPort (IfName a) (Some (cni_port (IfName a))) m)"

definition cni_Delete :: "cni_args option \<Rightarrow> config_manager \<Rightarrow> cp_error option \<times> config_manager" where
  "cni_Delete args m = (case args of
     None \<Rightarrow> (Some (NewInvalidArgumentError ''interface name is required''), m)
   | Some a \<Rightarrow>
       if IfName a = '''' then (Some (NewInvalidArgumentError ''interface name is required''), m)
       else pm_DeletePort (IfName a) m)"

definition cni_Check :: "cni_args option \<Rightarrow> config_manager \<Rightarrow> cp_error option \<times> config_manager" where
  "cni_Check args m = (None, m)"

text \<open>\<open>CNIServer\<close>: the answer is an error or success.\<close>

definition AddNetwork :: "string option \<Rightarrow> config_manager \<Rightarrow> (cp_error + unit) \<times> config_manager" where
  "AddNetwork req m = (case req of
     None \<Rightarrow> (Inl (NewInvalidArgumentError ''port name is required''), m)
   | Some portName \<Rightarrow>
       if portName = '''' then (Inl (NewInvalidArgumentError ''port name is required''), m)
       else (case AddPort portName (Some (cni_port portName)) m of
         (Some err, m) \<Rightarrow> (Inl err, m)
       | (None, m) \<Rightarrow> (Inr (), m)))"

definition DelNetwork :: "string option \<Rightarrow> config_manager \<Rightarrow> (cp_error + unit) \<times> config_manager" where
  "DelNetwork req m = (case req of
     None \<Rightarrow> (Inl (NewInvalidArgumentError ''port name is required''), m)
   | Some portName \<Rightarrow>
       if portName = '''' then (Inl (NewInvalidArgumentError ''port name is required''), m)
       else (case DeletePort portName m of
         (Some err, m) \<Rightarrow> (Inl err, m)
       | (None, m) \<Rightarrow> (Inr (), m)))"

section \<open>The client of the data plane\<close>

text \<open>Every call of the client succeeds and does nothing; the table it reports is empty.\<close>

record fdb_entry =
  Mac :: string
  VlanID_of :: int
  Ifindex :: int
  LastSeen :: int

record dataplane_client =
  addr :: string
  timeout :: nat

definition NewDataplaneClient :: "string \<Rightarrow> nat \<Rightarrow> dataplane_client" where
  "NewDataplaneClient a t =
     \<lparr>addr = (if a = '''' then ''localhost:50051'' else a), timeout = (if t = 0 then 5000000000 else t)\<rparr>"

definition client_GetFdbTable :: "dataplane_client \<Rightarrow> cp_error + fdb_entry list" where
  "client_GetFdbTable c = Inr []"

section \<open>HTTP\<close>

text \<open>
  A request with the outcome of decoding its body (an error text, or a configuration), and an
  answer: the status and what the body shows.
\<close>

record request =
  Method :: string
  path :: string
  body :: "string + port_config"

datatype content = Text string | Ports "port_config list" | Port port_config
  | Fdb "fdb_entry list" | Healthy | Nothing

type_synonym answer = "nat \<times> content"

definition http_Error :: "string \<Rightarrow> nat \<Rightarrow> answer" where
  "http_Error msg code = (code, Text msg)"

definition listPorts :: "string list \<Rightarrow> config_manager \<Rightarrow> answer" where
  "listPorts order m = (200, Ports (ListPorts order m))"

definition addPort :: "request \<Rightarrow> config_manager \<Rightarrow> answer \<times> config_manager" where
  "addPort r m = (case body r of
     Inl err \<Rightarrow> (http_Error err 400, m)
   | Inr cfg \<Rightarrow> (case AddPort (Name cfg) (Some cfg) m of
       (Some err, m) \<Rightarrow>
         if Code err = ErrCodeAlreadyExists then (http_Error (Message err) 409, m)
         else (http_Error (Message err) 400, m)
     | (None, m) \<Rightarrow> ((201, Nothing), m)))"

definition getPort :: "string \<Rightarrow> config_manager \<Rightarrow> answer" where
  "getPort name m = (case GetPort name m of
     Inl err \<Rightarrow> http_Error (Message err) 404
   | Inr port \<Rightarrow> (200, Port port))"

definition updatePort :: "request \<Rightarrow> string \<Rightarrow> config_manager \<Rightarrow> answer \<times> config_manager" where
  "updatePort r name m = (case body r of
     Inl err \<Rightarrow> (http_Error err 400, m)
   | Inr cfg \<Rightarrow> (case UpdatePort name (Some cfg) m of
       (Some err, m) \<Rightarrow> (http_Error (Message err) 400, m)
     | (None, m) \<Rightarrow> ((200, Nothing), m)))"

definition deletePort :: "string \<Rightarrow> config_manager \<Rightarrow> answer \<times> config_manager" where
  "deletePort name m = (case DeletePort name m of
     (Some err, m) \<Rightarrow> (http_Error (Message err) 404, m)
   | (None, m) \<Rightarrow> ((204, Nothing), m))"

definition handlePorts :: "string list \<Rightarrow> request \<Rightarrow> config_manager \<Rightarrow> answer \<times> config_manager" where
  "handlePorts order r m =
     (if Method r = ''GET'' then (listPorts order m, m)
      else if Method r = ''POST'' then addPort r m
      else (http_Error ''Method not allowed'' 405, m))"

definition handlePortDetail :: "request \<Rightarrow> config_manager \<Rightarrow> answer \<times> config_manager" where
  "handlePortDetail r m =
     (let name = drop (length ''/admin/ports/'') (path r) in
      if name = '''' then (http_Error ''Port name required'' 400, m)
      else if Method r = ''GET'' then (getPort name m, m)
      else if Method r = ''DELETE'' then deletePort name m
      else if Method r = ''PUT'' then updatePort r name m
      else (http_Error ''Method not allowed'' 405, m))"

definition handleFdb :: "dataplane_client option \<Rightarrow> request \<Rightarrow> answer" where
  "handleFdb dpClient r =
     (if Method r \<noteq> ''GET'' then http_Error ''Method not allowed'' 405
      else (case dpClient of
        None \<Rightarrow> (200, Fdb [])
      | Some c \<Rightarrow> (case client_GetFdbTable c of
          Inl err \<Rightarrow> http_Error (Message err) 500
        | Inr entries \<Rightarrow> (200, Fdb entries))))"

text \<open>
  The routes of \<open>Start\<close>: a pattern that ends in a slash takes every path below it. The multiplexer
  redirects paths that are not clean before a handler sees them; here the path is clean.
\<close>

definition serve ::
  "dataplane_client option \<Rightarrow> string list \<Rightarrow> request \<Rightarrow> config_manager \<Rightarrow> answer \<times> config_manager" where
  "serve dpClient order r m =
     (if path r = ''/admin/ports'' then handlePorts order r m
      else if take (length ''/admin/ports/'') (path r) = ''/admin/ports/'' then handlePortDetail r m
      else if path r = ''/admin/fdb'' then (handleFdb dpClient r, m)
      else if path r = ''/health'' then ((200, Healthy), m)
      else (http_Error ''404 page not found'' 404, m))"

lemmas handler_defs = listPorts_def addPort_def getPort_def updatePort_def deletePort_def handlePorts_def
  handlePortDetail_def http_Error_def

section \<open>The API keeps the contract of a registry\<close>

definition port_path :: "string \<Rightarrow> string" where
  "port_path n = ''/admin/ports/'' @ n"

definition get_port :: "config_manager \<Rightarrow> string \<Rightarrow> answer" where
  "get_port m n = fst (serve None [] \<lparr>Method = ''GET'', path = port_path n, body = Inl ''''\<rparr> m)"

lemma serve_port_path:
  "serve dpClient order \<lparr>Method = meth, path = port_path n, body = b\<rparr> m =
     (if n = '''' then (http_Error ''Port name required'' 400, m)
      else if meth = ''GET'' then (getPort n m, m)
      else if meth = ''DELETE'' then deletePort n m
      else if meth = ''PUT'' then updatePort \<lparr>Method = meth, path = port_path n, body = b\<rparr> n m
      else (http_Error ''Method not allowed'' 405, m))"
  by (simp add: serve_def handlePortDetail_def port_path_def Let_def)

lemma serve_post:
  "serve dpClient order \<lparr>Method = ''POST'', path = ''/admin/ports'', body = b\<rparr> m =
     addPort \<lparr>Method = ''POST'', path = ''/admin/ports'', body = b\<rparr> m"
  by (simp add: serve_def handlePorts_def)

lemma get_port_eq:
  "get_port m n = (if n = '''' then (400, Text ''Port name required'') else case m n of
     None \<Rightarrow> (404, Text (''port not found: '' @ n)) | Some c \<Rightarrow> (200, Port c))"
  by (simp add: get_port_def serve_port_path getPort_def http_Error_def manager_defs split: option.split)


text \<open>A call as the request that makes it, and the port as \<open>GET\<close> shows it. A status below 300 is success.\<close>

fun request_for :: "(string, string \<times> l2_port_config option) call \<Rightarrow> request" where
  "request_for (Add_entry n v) = \<lparr>Method = ''POST'', path = ''/admin/ports'',
     body = Inr \<lparr>Name = n, Mode = fst v, L2 = snd v\<rparr>\<rparr>"
| "request_for (Del_entry n) = \<lparr>Method = ''DELETE'', path = port_path n, body = Inl ''''\<rparr>"
| "request_for (Set_entry n v) = \<lparr>Method = ''PUT'', path = port_path n,
     body = Inr \<lparr>Name = n, Mode = fst v, L2 = snd v\<rparr>\<rparr>"

definition http_call ::
  "(string, string \<times> l2_port_config option) call \<Rightarrow> config_manager \<Rightarrow> bool \<times> config_manager" where
  "http_call c m = apfst (\<lambda>a. fst a < 300) (serve None [] (request_for c) m)"

definition shown :: "config_manager \<Rightarrow> string \<Rightarrow> (string \<times> l2_port_config option) option" where
  "shown m n = (case snd (get_port m n) of Port c \<Rightarrow> Some (Mode c, L2 c) | _ \<Rightarrow> None)"

lemma shown_eq: "shown m n = (if n = '''' then None else map_option (\<lambda>c. (Mode c, L2 c)) (m n))"
  by (simp add: shown_def get_port_eq split: option.split)

lemma shown_upd:
  "n \<noteq> '''' \<Longrightarrow> shown (m(n \<mapsto> c)) = (shown m)(n \<mapsto> (Mode c, L2 c))"
  "n \<noteq> '''' \<Longrightarrow> shown (m(n := None)) = (shown m)(n := None)"
  by (simp_all add: shown_eq fun_eq_iff)

interpretation api: registry http_call shown "\<lambda>n. n \<noteq> ''''"
proof
  fix c m r m'
  assume c: "http_call c m = (r, m')"
  show "spec_call (\<lambda>n. n \<noteq> '''') c (shown m) = (r, shown m')"
  proof (cases c)
    case (Add_entry n v)
    then have "http_call c m = apfst (\<lambda>a. fst a < 300) (addPort (request_for c) m)"
      by (simp add: http_call_def serve_post)
    with c Add_entry show ?thesis
      by (auto simp: addPort_def http_Error_def manager_defs shown_upd shown_eq split: if_splits)
  next
    case (Del_entry n)
    with c show ?thesis
      by (auto simp: http_call_def serve_port_path deletePort_def updatePort_def http_Error_def manager_defs
        shown_upd shown_eq split: if_splits)
  next
    case (Set_entry n v)
    with c show ?thesis
      by (auto simp: http_call_def serve_port_path deletePort_def updatePort_def http_Error_def manager_defs
        shown_upd shown_eq split: if_splits)
  qed
qed

section \<open>Properties\<close>

text \<open>C32: the API is what its answers say. After any sequence of requests to add, change and remove
  ports, from an empty manager, \<open>GET\<close> of a port shows the configuration of the last request on its name
  that was answered with success, and no port after a successful removal; the list shows exactly one
  configuration for every port there is.\<close>

theorem rest_api_follows_the_answers:
  assumes "run_calls http_call cs NewConfigManager = (rs, m)" and "range_order m order"
  shows "(case snd (get_port m n) of Port c \<Rightarrow> Some (Mode c, L2 c) | _ \<Rightarrow> None) = logged (zip cs rs) n \<and>
    (\<exists>ps. serve dpClient order \<lparr>Method = ''GET'', path = ''/admin/ports'', body = b\<rparr> m = ((200, Ports ps), m) \<and>
      length ps = card (dom m) \<and> set ps = ran m)"
proof -
  have "shown NewConfigManager = Map.empty" by (simp add: shown_eq NewConfigManager_def fun_eq_iff)
  from api.view_is_logged [OF this assms(1), of n]
  have "(case snd (get_port m n) of Port c \<Rightarrow> Some (Mode c, L2 c) | _ \<Rightarrow> None) = logged (zip cs rs) n"
    by (simp add: shown_def)
  moreover have "length (ListPorts order m) = card (dom m)"
    using assms(2) distinct_card [of order] by (simp add: ListPorts_def range_order_def)
  moreover have "set (ListPorts order m) = ran m"
    using assms(2) by (force simp: ListPorts_def range_order_def ran_def)
  ultimately show ?thesis by (simp add: serve_def handlePorts_def listPorts_def)
qed

theorem rest_api_follows_the_answers_witness:
  "\<exists>m. run_calls http_call [Add_entry ''eth0'' (''l2'', None), Add_entry ''eth0'' (''l3'', None),
      Set_entry ''eth1'' (''l2'', None)] NewConfigManager = ([True, False, False], m) \<and>
    shown m ''eth0'' = Some (''l2'', None) \<and> shown m ''eth1'' = None"
proof -
  let ?cs = "[Add_entry ''eth0'' (''l2'', None), Add_entry ''eth0'' (''l3'', None), Set_entry ''eth1'' (''l2'', None)]"
  obtain m where m: "run_calls http_call ?cs NewConfigManager = ([True, False, False], m)" "dom m = {''eth0''}"
    by (simp add: http_call_def serve_def port_path_def handler_defs manager_defs NewConfigManager_def Let_def)
  have r: "range_order m [''eth0'']" using m(2) by (simp add: range_order_def)
  from rest_api_follows_the_answers [OF m(1) r, of "''eth0''"] rest_api_follows_the_answers [OF m(1) r, of "''eth1''"] m(1)
  show ?thesis by (simp add: shown_def logged_def)
qed

text \<open>Each failure has its status, but for one. Adding a port that is there is answered with 409,
  reading or removing one that is not with 404, a body that cannot be decoded with 400, another
  method with 405, always with no effect. Changing a port that is not there is answered with 400,
  although the manager's error carries the code 404.\<close>

theorem http_failures:
  assumes "name \<noteq> ''''"
  shows "(m (Name cfg) \<noteq> None \<and> Name cfg \<noteq> '''' \<longrightarrow>
      (\<exists>t. serve dp order \<lparr>Method = ''POST'', path = ''/admin/ports'', body = Inr cfg\<rparr> m = ((409, Text t), m))) \<and>
    (m name = None \<longrightarrow>
      (\<exists>t. serve dp order \<lparr>Method = ''GET'', path = port_path name, body = b\<rparr> m = ((404, Text t), m)) \<and>
      (\<exists>t. serve dp order \<lparr>Method = ''DELETE'', path = port_path name, body = b\<rparr> m = ((404, Text t), m)) \<and>
      (\<exists>e. UpdatePort name (Some cfg) m = (Some e, m) \<and> Code e = 404 \<and>
        serve dp order \<lparr>Method = ''PUT'', path = port_path name, body = Inr cfg\<rparr> m = ((400, Text (Message e)), m))) \<and>
    serve dp order \<lparr>Method = ''POST'', path = ''/admin/ports'', body = Inl err\<rparr> m = ((400, Text err), m) \<and>
    (\<exists>t. serve dp order \<lparr>Method = ''PATCH'', path = port_path name, body = b\<rparr> m = ((405, Text t), m))"
  using assms
  by (auto simp: serve_port_path getPort_def deletePort_def updatePort_def http_Error_def manager_defs
    serve_post addPort_def)

theorem http_failures_witness:
  "\<exists>t. serve None [] \<lparr>Method = ''PUT'', path = port_path ''eth9'', body = Inr (cni_port ''eth9'')\<rparr> Map.empty =
    ((400, Text t), Map.empty)"
  using http_failures [of "''eth9''" Map.empty "cni_port ''eth9''" None "[]"] by auto

text \<open>The control plane never reaches the data plane. Whatever its client is and whatever the tables
  of the kernel hold, \<open>GET /admin/fdb\<close> answers with an empty table.\<close>

theorem control_plane_sees_no_forwarding:
  "serve dpClient order \<lparr>Method = ''GET'', path = ''/admin/fdb'', body = b\<rparr> m = ((200, Fdb []), m)"
  by (simp add: serve_def handleFdb_def client_GetFdbTable_def split: option.split)

text \<open>Adding and removing by CNI are inverse, and the port in between is a layer-2 port without a
  section \<open>l2\<close>. Removing is not idempotent: removing a second time is an error, code 404. \<open>Check\<close>
  finds nothing wrong in any state.\<close>

theorem cni_add_delete:
  assumes "IfName a \<noteq> ''''" and "m (IfName a) = None"
  shows "\<exists>m'. cni_Add (Some a) m = (None, m') \<and> m' (IfName a) = Some (cni_port (IfName a)) \<and>
    (\<exists>e. cni_Add (Some a) m' = (Some e, m') \<and> Code e = 409) \<and>
    cni_Delete (Some a) m' = (None, m) \<and> (\<exists>e. cni_Delete (Some a) m = (Some e, m) \<and> Code e = 404) \<and>
    cni_Check (Some a) m = (None, m)"
  using assms
  by (auto simp: cni_Add_def cni_Delete_def cni_Check_def pm_AddPort_def pm_DeletePort_def manager_defs
    fun_upd_idem)

theorem cni_add_delete_witness:
  "\<exists>m'. cni_Add (Some \<lparr>ContainerID = ''c'', NetNS = ''n'', IfName = ''eth0''\<rparr>) Map.empty = (None, m') \<and>
    cni_Delete (Some \<lparr>ContainerID = ''c'', NetNS = ''n'', IfName = ''eth0''\<rparr>) m' = (None, Map.empty)"
  using cni_add_delete [of "\<lparr>ContainerID = ''c'', NetNS = ''n'', IfName = ''eth0''\<rparr>" Map.empty] by auto

text \<open>The two ways in, the executor and the service, do the same.\<close>

lemma cni_service_agrees:
  "snd (AddNetwork (Some (IfName a)) m) = snd (cni_Add (Some a) m)"
  "snd (DelNetwork (Some (IfName a)) m) = snd (cni_Delete (Some a) m)"
  by (simp_all add: AddNetwork_def DelNetwork_def cni_Add_def cni_Delete_def pm_AddPort_def pm_DeletePort_def
    split: prod.splits option.splits)

end
