(* ===== verification/Report.thy ===== *)
theory Report
  imports Server
begin

text \<open>
  The agent's report (bpf.go, \<open>formatFdbTables\<close> and the loop that calls it): once a second it walks
  the forwarding database and logs one line of text. The walk is the kernel's and a parameter: the
  entries it visits, and whether it ended with an error.
\<close>

section \<open>Printing\<close>

text \<open>The decimal digits \<open>fmt.Sprintf\<close> prints for \<open>%d\<close> and an unsigned number.\<close>

definition digit :: "nat \<Rightarrow> char" where
  "digit d = ''0123456789'' ! d"

fun decimal :: "nat \<Rightarrow> string" where
  "decimal n = (if n < 10 then [digit n] else decimal (n div 10) @ [digit (n mod 10)])"

declare decimal.simps [simp del]

definition report_line :: "fdb_key \<times> fdb_value_item \<Rightarrow> string" where
  "report_line kv = (case kv of (k, v) \<Rightarrow>
     mac_string (take 6 (fk_mac k)) @ '', '' @ decimal (unat (fk_vlan_id k)) @ '' => '' @
     decimal (unat (fv_ifindex (fvi_value v))) @ '', '' @ decimal (unat (fv_last_seen (fvi_value v))))"

text \<open>The lines follow each other without a separator.\<close>

fun formatFdbTables :: "(fdb_key \<times> fdb_value_item) list \<Rightarrow> string option \<Rightarrow> string \<times> string option" where
  "formatFdbTables visited err = (concat (map report_line visited), err)"

text \<open>One round of the loop: what is logged, and whether as an error.\<close>

datatype log = Log_error string | Log_info string

definition report :: "(fdb_key \<times> fdb_value_item) list \<Rightarrow> string option \<Rightarrow> log" where
  "report visited err = (case formatFdbTables visited err of
     (s, Some e) \<Rightarrow> Log_error e
   | (s, None) \<Rightarrow> Log_info s)"

section \<open>Reading it back\<close>

definition digit_value :: "char \<Rightarrow> nat" where
  "digit_value c = the (hex_value c)"

lemma digit_value_digit: "d < 10 \<Longrightarrow> digit_value (digit d) = d"
proof -
  have "list_all (\<lambda>d. digit_value (digit d) = d) [0..<10]" by code_simp
  then show "d < 10 \<Longrightarrow> digit_value (digit d) = d" by (simp add: list_all_iff)
qed

lemma digit_in: "d < 10 \<Longrightarrow> digit d \<in> set ''0123456789''"
  unfolding digit_def by (rule nth_mem) simp

lemma decimal_read: "foldl (\<lambda>n c. 10 * n + digit_value c) 0 (decimal n) = n"
proof (induction n rule: decimal.induct)
  case (1 n)
  show ?case
  proof (cases "n < 10")
    case True
    then show ?thesis by (simp add: decimal.simps [of n] digit_value_digit)
  next
    case False
    then show ?thesis using 1 by (subst decimal.simps) (simp add: digit_value_digit)
  qed
qed

lemma decimal_inj: "decimal m = decimal n \<longleftrightarrow> m = n"
  by (metis decimal_read)

lemma decimal_digits: "set (decimal n) \<subseteq> set ''0123456789''"
proof (induction n rule: decimal.induct)
  case (1 n)
  then show ?case
    using digit_in [of n] digit_in [of "n mod 10"] by (subst decimal.simps) auto
qed

lemma decimal_no_colon: "CHR '':'' \<notin> set (decimal n)" and decimal_no_space: "CHR '' '' \<notin> set (decimal n)"
    and decimal_no_comma: "CHR '','' \<notin> set (decimal n)"
  using decimal_digits [of n] by auto

text \<open>A number ends where a character comes that no number has.\<close>

lemma first_eq: "c \<notin> set xs \<Longrightarrow> c \<notin> set ys \<Longrightarrow> xs @ c # us = ys @ c # vs \<Longrightarrow> xs = ys \<and> us = vs"
proof (induction xs arbitrary: ys)
  case Nil
  then show ?case by (cases ys) auto
next
  case (Cons x xs)
  then show ?case by (cases ys) auto
qed

lemma decimal_ends:
  assumes "c \<notin> set (decimal m)" and "c \<notin> set (decimal n)" and "decimal m @ c # xs = decimal n @ c # ys"
  shows "m = n \<and> xs = ys"
  using first_eq [OF assms] by (simp add: decimal_inj)

text \<open>What may follow a line: nothing, or a line, which begins with two hexadecimal digits and a colon.\<close>

definition follows :: "string \<Rightarrow> bool" where
  "follows s \<longleftrightarrow> s = [] \<or> (\<exists>a b t. s = a # b # CHR '':'' # t \<and> a \<noteq> CHR '':'' \<and> b \<noteq> CHR '':'')"

lemma decimal_then_follows:
  assumes "decimal m @ xs = decimal n @ ys" and "follows xs" and "follows ys"
  shows "m = n \<and> xs = ys"
proof -
  have colon: "CHR '':'' \<in> set (decimal k @ zs) \<longleftrightarrow> zs \<noteq> []" if "follows zs" for k zs
    using that decimal_no_colon [of k] by (auto simp: follows_def)
  have "xs = [] \<longleftrightarrow> ys = []" using colon [OF assms(2), of m] colon [OF assms(3), of n] assms(1) by simp
  then consider "xs = []" "ys = []"
    | a b t a' b' t' where "xs = a # b # CHR '':'' # t" "ys = a' # b' # CHR '':'' # t'"
      "CHR '':'' \<notin> set (decimal m @ [a, b])" "CHR '':'' \<notin> set (decimal n @ [a', b'])"
    using assms(2,3) decimal_no_colon [of m] decimal_no_colon [of n] by (auto simp: follows_def)
  then show ?thesis
  proof cases
    case 1
    with assms(1) show ?thesis by (simp add: decimal_inj)
  next
    case 2
    then have "(decimal m @ [a, b]) @ CHR '':'' # t = (decimal n @ [a', b']) @ CHR '':'' # t'"
      using assms(1) by simp
    from first_eq [OF 2(3,4) this] have "decimal m @ [a, b] = decimal n @ [a', b'] \<and> t = t'" .
    with 2 show ?thesis by (simp add: decimal_inj)
  qed
qed

section \<open>Properties\<close>

text \<open>The fields of an entry that are printed.\<close>

definition printed :: "fdb_key \<times> fdb_value_item \<Rightarrow> u8 list \<times> u16 \<times> u32 \<times> u64" where
  "printed kv = (take 6 (fk_mac (fst kv)), fk_vlan_id (fst kv), fv_ifindex (fvi_value (snd kv)),
     fv_last_seen (fvi_value (snd kv)))"

lemma hex_digit_no_colon: "d < 16 \<Longrightarrow> hexDigit ! d \<noteq> CHR '':''"
proof -
  have "list_all (\<lambda>d. hexDigit ! d \<noteq> CHR '':'') [0..<16]" by code_simp
  then show "d < 16 \<Longrightarrow> hexDigit ! d \<noteq> CHR '':''" by (simp add: list_all_iff)
qed

lemma report_line_follows:
  assumes "length (fk_mac (fst kv)) = 6"
  shows "follows (concat (map report_line (kv # kvs)))"
proof -
  obtain k v where kv: "kv = (k, v)" by (cases kv)
  obtain b b' bs where mac: "take 6 (fk_mac k) = b # b' # bs"
    using assms kv by (cases "fk_mac k" rule: mac_string.cases) auto
  have "unat b < 256" using unat_less [of b] by simp
  then show ?thesis
    using kv mac by (auto simp: report_line_def hex_byte_def follows_def hex_digit_no_colon)
qed

lemma all_follows: "\<forall>kv\<in>set kvs. length (fk_mac (fst kv)) = 6 \<Longrightarrow> follows (concat (map report_line kvs))"
  by (cases kvs) (simp add: follows_def, metis report_line_follows list.set_intros(1))

lemma report_line_eq:
  assumes "report_line kv @ xs = report_line kv' @ ys" and "follows xs" and "follows ys"
    and "length (fk_mac (fst kv)) = 6" and "length (fk_mac (fst kv')) = 6"
  shows "printed kv = printed kv' \<and> xs = ys"
proof -
  obtain k v k' v' where kv: "kv = (k, v)" "kv' = (k', v')" by (cases kv, cases kv')
  have l: "length (mac_string (take 6 (fk_mac k))) = length (mac_string (take 6 (fk_mac k')))"
    using assms(4,5) kv by (simp add: mac_string_length)
  have eq: "mac_string (take 6 (fk_mac k)) @ '', '' @ decimal (unat (fk_vlan_id k)) @ '' => '' @
      decimal (unat (fv_ifindex (fvi_value v))) @ '', '' @ decimal (unat (fv_last_seen (fvi_value v))) @ xs =
    mac_string (take 6 (fk_mac k')) @ '', '' @ decimal (unat (fk_vlan_id k')) @ '' => '' @
      decimal (unat (fv_ifindex (fvi_value v'))) @ '', '' @ decimal (unat (fv_last_seen (fvi_value v'))) @ ys"
    using assms(1) kv by (simp add: report_line_def)
  then have mac: "mac_string (take 6 (fk_mac k)) = mac_string (take 6 (fk_mac k'))"
    and r: "decimal (unat (fk_vlan_id k)) @ CHR '' '' # ''=> '' @
      decimal (unat (fv_ifindex (fvi_value v))) @ '', '' @ decimal (unat (fv_last_seen (fvi_value v))) @ xs =
    decimal (unat (fk_vlan_id k')) @ CHR '' '' # ''=> '' @
      decimal (unat (fv_ifindex (fvi_value v'))) @ '', '' @ decimal (unat (fv_last_seen (fvi_value v'))) @ ys"
    using l by simp_all
  from decimal_ends [OF decimal_no_space decimal_no_space r]
  have vlan: "unat (fk_vlan_id k) = unat (fk_vlan_id k')"
    and r: "decimal (unat (fv_ifindex (fvi_value v))) @ CHR '','' # '' '' @ decimal (unat (fv_last_seen (fvi_value v))) @ xs =
      decimal (unat (fv_ifindex (fvi_value v'))) @ CHR '','' # '' '' @ decimal (unat (fv_last_seen (fvi_value v'))) @ ys"
    by simp_all
  from decimal_ends [OF decimal_no_comma decimal_no_comma r]
  have port: "unat (fv_ifindex (fvi_value v)) = unat (fv_ifindex (fvi_value v'))"
    and r: "decimal (unat (fv_last_seen (fvi_value v))) @ xs = decimal (unat (fv_last_seen (fvi_value v'))) @ ys"
    by simp_all
  from decimal_then_follows [OF r assms(2,3)]
  have seen: "unat (fv_last_seen (fvi_value v)) = unat (fv_last_seen (fvi_value v'))" and "xs = ys"
    by simp_all
  moreover have "take 6 (fk_mac k) = take 6 (fk_mac k')"
    using mac parseMAC_mac_string [of "take 6 (fk_mac k)"] parseMAC_mac_string [of "take 6 (fk_mac k')"]
      assms(4,5) kv by (simp add: mac_length_def)
  ultimately show ?thesis using vlan port kv by (simp add: printed_def word_unat_eq_iff)
qed

text \<open>The report tells the whole table: although its lines run into each other, two walks that ended
  well and print the same text visited the same entries, in the same order. A walk that ended with an
  error logs the error alone, and what it had seen is lost.\<close>

theorem report_determines_table:
  assumes "\<forall>kv\<in>set xs \<union> set ys. length (fk_mac (fst kv)) = 6" and "report xs None = report ys None"
  shows "map printed xs = map printed ys \<and> report xs (Some e) = Log_error e"
proof -
  have "concat (map report_line xs) = concat (map report_line ys)"
    using assms(2) by (simp add: report_def)
  with assms(1) have "map printed xs = map printed ys"
  proof (induction xs arbitrary: ys)
    case Nil
    then show ?case by (cases ys) (auto simp: report_line_def split: prod.splits)
  next
    case (Cons x xs)
    then obtain y ys' where ys: "ys = y # ys'"
      by (cases ys) (auto simp: report_line_def split: prod.splits)
    have "printed x = printed y \<and> concat (map report_line xs) = concat (map report_line ys')"
      by (rule report_line_eq) (use Cons.prems ys in \<open>auto intro: all_follows\<close>)
    with Cons ys show ?case by simp
  qed
  then show ?thesis by (simp add: report_def)
qed

text \<open>Two tables whose lines would be alike if the numbers were not kept apart.\<close>

theorem report_determines_table_witness:
  "report [(fdb_key_for mac_a 5, new_item 7 1)] None = Log_info ''02:00:00:00:00:0a, 5 => 7, 1'' \<and>
   report [(fdb_key_for mac_a 5, new_item 7 1), (fdb_key_for mac_b 5, new_item 7 1)] None \<noteq>
   report [(fdb_key_for mac_a 5, new_item 7 10), (fdb_key_for mac_b 5, new_item 7 1)] None"
proof
  show "report [(fdb_key_for mac_a 5, new_item 7 1)] None = Log_info ''02:00:00:00:00:0a, 5 => 7, 1''"
    using mac_a_length
    by (simp add: report_def report_line_def fdb_key_for_def new_item_def decimal.simps digit_def)
      (simp add: mac_a_def hex_byte_def hexDigit_def)
  have "length mac_b = 6" by (simp add: mac_b_def)
  then show "report [(fdb_key_for mac_a 5, new_item 7 1), (fdb_key_for mac_b 5, new_item 7 1)] None \<noteq>
     report [(fdb_key_for mac_a 5, new_item 7 10), (fdb_key_for mac_b 5, new_item 7 1)] None"
    using report_determines_table [of "[(fdb_key_for mac_a 5, new_item 7 1), (fdb_key_for mac_b 5, new_item 7 1)]"
      "[(fdb_key_for mac_a 5, new_item 7 10), (fdb_key_for mac_b 5, new_item 7 1)]"] mac_a_length
    by (auto simp: printed_def fdb_key_for_def new_item_def)
qed

end
