(* ===== verification/Processes.thy ===== *)
theory Processes
  imports Agent Control Report
begin

text \<open>
  The two programs as processes: the main functions of the data plane and of the control plane
  (dataplane/main.go, controlplane/main.go, with \<open>NewServer\<close>, \<open>Start\<close> and \<open>Stop\<close> of server.go) and the
  choice of the log level (utils/logger.go). The command line, the file and its decoding are the
  libraries' and enter as their outcome, as does what becomes of the listening socket.
\<close>

section \<open>Log level\<close>

datatype log_level = LevelDebug | LevelInfo | LevelWarn | LevelError

definition InitLogger :: "string \<Rightarrow> log_level" where
  "InitLogger level =
     (if level = ''debug'' then LevelDebug
      else if level = ''info'' then LevelInfo
      else if level = ''warn'' then LevelWarn
      else if level = ''error'' then LevelError
      else LevelInfo)"

definition WithAttrs :: "'a list \<Rightarrow> 'a list" where "WithAttrs attrs = attrs"

section \<open>The data plane\<close>

text \<open>
  What the library makes of the command line: an error, a request that it answers itself (such as
  \<open>--help\<close>), or the flags, of which those not given are missing.
\<close>

datatype 'a command_line = Rejected string | Answered | Flags 'a

datatype process = Exited nat "log list" | Running outcome

definition loadConfig ::
  "(string \<Rightarrow> string + 'b) \<Rightarrow> ('b \<Rightarrow> string + port_config option list) \<Rightarrow> string \<Rightarrow> log + port_config option list" where
  "loadConfig ReadFile Unmarshal file = (case ReadFile file of
     Inl err \<Rightarrow> Inl (Log_error err)
   | Inr content \<Rightarrow> (case Unmarshal content of
       Inl err \<Rightarrow> Inl (Log_error err)
     | Inr ps \<Rightarrow> Inr ps))"

definition dataplane_main ::
  "(string \<Rightarrow> string + 'b) \<Rightarrow> ('b \<Rightarrow> string + port_config option list) \<Rightarrow> agent_env \<Rightarrow>
    string option command_line \<Rightarrow> process" where
  "dataplane_main ReadFile Unmarshal e cl = (case cl of
     Rejected err \<Rightarrow> Exited 1 [Log_error err]
   | Answered \<Rightarrow> Exited 0 []
   | Flags config \<Rightarrow>
       (let cfgFile = (case config of None \<Rightarrow> ''config.yaml'' | Some f \<Rightarrow> f) in
        case loadConfig ReadFile Unmarshal cfgFile of
          Inl l \<Rightarrow> Exited 1 [l]
        | Inr ps \<Rightarrow> Running (Agent e ps)))"

section \<open>The control plane\<close>

text \<open>
  \<open>run\<close> makes the manager, the client if there is an address for it, and the server, whose field
  \<open>httpServer\<close> is set only when \<open>Start\<close> runs, on a goroutine of its own.
\<close>

datatype http_server = Unset | Listening | Closed

datatype ending = Alive | Exits nat | Panics

record control_process =
  listen_addr :: string
  configMgr :: config_manager
  dpClient :: "dataplane_client option"
  httpServer :: http_server
  ending :: ending
  logs :: "log list"

definition control_start :: "string \<Rightarrow> string \<Rightarrow> control_process" where
  "control_start address dataplane = \<lparr>listen_addr = address, configMgr = NewConfigManager,
     dpClient = (if dataplane \<noteq> '''' then Some (NewDataplaneClient dataplane 0) else None),
     httpServer = Unset, ending = Alive, logs = []\<rparr>"

definition controlplane_main :: "(string option \<times> string option) command_line \<Rightarrow> nat \<times> log list + control_process" where
  "controlplane_main cl = (case cl of
     Rejected err \<Rightarrow> Inl (1, [Log_error err])
   | Answered \<Rightarrow> Inl (0, [])
   | Flags (a, d) \<Rightarrow> Inr (control_start (case a of None \<Rightarrow> '':8080'' | Some x \<Rightarrow> x)
       (case d of None \<Rightarrow> '''' | Some x \<Rightarrow> x)))"

text \<open>
  What happens to the process: the goroutine starts, and gets the socket or an error; a request
  comes, with the order in which \<open>range\<close> will visit the ports; the listening ends with an error; a
  signal comes, and \<open>Shutdown\<close> ends with an error or without. \<open>Shutdown\<close> of a nil server is a panic.
  An error of the server is only logged.
\<close>

datatype event = Started "string option" | Request "string list" request | Accept_fails string | Signalled "string option"

definition server_error :: "string \<Rightarrow> control_process \<Rightarrow> control_process" where
  "server_error err s = s\<lparr>httpServer := Closed, logs := logs s @ [Log_error err]\<rparr>"

fun control_step :: "event \<Rightarrow> control_process \<Rightarrow> answer option \<times> control_process" where
  "control_step ev s = (if ending s \<noteq> Alive then (None, s) else case ev of
     Started r \<Rightarrow> (None, if httpServer s \<noteq> Unset then s else
       (case r of None \<Rightarrow> s\<lparr>httpServer := Listening\<rparr> | Some err \<Rightarrow> server_error err s))
   | Request order r \<Rightarrow> (if httpServer s \<noteq> Listening then (None, s)
       else (case serve (dpClient s) order r (configMgr s) of (a, m) \<Rightarrow> (Some a, s\<lparr>configMgr := m\<rparr>)))
   | Accept_fails err \<Rightarrow> (None, if httpServer s = Listening then server_error err s else s)
   | Signalled r \<Rightarrow> (None, if httpServer s = Unset then s\<lparr>ending := Panics\<rparr>
       else s\<lparr>httpServer := Closed, ending := Exits 0,
         logs := logs s @ (case r of None \<Rightarrow> [] | Some err \<Rightarrow> [Log_error err])\<rparr>))"

declare control_step.simps [simp del]
lemmas control_step_unfold = control_step.simps server_error_def

fun control_run :: "event list \<Rightarrow> control_process \<Rightarrow> answer option list \<times> control_process" where
  "control_run [] s = ([], s)"
| "control_run (ev # evs) s =
     (let (a, s1) = control_step ev s; (as, s2) = control_run evs s1 in (a # as, s2))"

section \<open>Runs\<close>

lemma control_run_append:
  "control_run (evs @ evs') s =
     (let (as, s1) = control_run evs s; (as', s2) = control_run evs' s1 in (as @ as', s2))"
  by (induction evs arbitrary: s) (simp_all add: Let_def split: prod.split)

lemma control_run_invariant:
  assumes "control_run evs s = (as, s')" and "P s"
    and "\<And>ev s a s'. ev \<in> set evs \<Longrightarrow> control_step ev s = (a, s') \<Longrightarrow> P s \<Longrightarrow> P s' \<and> Q a"
  shows "P s' \<and> (\<forall>a\<in>set as. Q a)"
  using assms
proof (induction evs arbitrary: s as)
  case (Cons ev evs)
  obtain a s1 as' where r: "control_step ev s = (a, s1)" "control_run evs s1 = (as', s')" "as = a # as'"
    using Cons.prems(1) by (auto simp: Let_def split: prod.splits)
  have 1: "P s1 \<and> Q a" using Cons.prems(3) [OF _ r(1)] Cons.prems(2) by simp
  have "P s' \<and> Q a" if "ev \<in> set evs" "control_step ev s = (a, s')" "P s" for ev s a s'
    using Cons.prems(3) [of ev s a s'] that by simp
  from Cons.IH [OF r(2) _ this] 1 r(3) show ?case by auto
qed simp

text \<open>Without its server the process stays as it is, until a signal comes.\<close>

lemma closed_stays:
  "ending s = Alive \<Longrightarrow> httpServer s = Closed \<Longrightarrow> \<forall>r. ev \<noteq> Signalled r \<Longrightarrow> control_step ev s = (None, s)"
  by (cases ev) (simp_all add: control_step.simps)

text \<open>A request on a port is served the same way with and without a client of the data plane.\<close>

lemma serve_request_for: "serve d order (request_for c) m = serve None [] (request_for c) m"
  by (cases c) (simp_all add: serve_port_path serve_post)

definition calls :: "(string, string \<times> l2_port_config option) call list \<Rightarrow> event list" where
  "calls cs = map (\<lambda>c. Request [] (request_for c)) cs"

lemma control_run_calls:
  assumes "ending s = Alive" and "httpServer s = Listening"
    and "control_run (calls cs) s = (as, s')" and "run_calls http_call cs (configMgr s) = (rs, m)"
  shows "s' = s\<lparr>configMgr := m\<rparr> \<and> map (map_option (\<lambda>a. fst a < 300)) as = map Some rs"
  using assms
proof (induction cs arbitrary: s as rs)
  case Nil
  then show ?case by (simp add: calls_def)
next
  case (Cons c cs)
  obtain a m1 where a: "serve None [] (request_for c) (configMgr s) = (a, m1)" by fastforce
  then have step: "control_step (Request [] (request_for c)) s = (Some a, s\<lparr>configMgr := m1\<rparr>)"
    "http_call c (configMgr s) = (fst a < 300, m1)"
    using Cons.prems(1,2) by (simp_all add: control_step_unfold serve_request_for [of "dpClient s"] http_call_def)
  obtain as' rs' where r: "control_run (calls cs) (s\<lparr>configMgr := m1\<rparr>) = (as', s')" "as = Some a # as'"
    "run_calls http_call cs m1 = (rs', m)" "rs = (fst a < 300) # rs'"
    using Cons.prems(3,4) step by (auto simp: calls_def Let_def split: prod.splits)
  from Cons.IH [OF _ _ r(1)] r(2-4) Cons.prems(1,2) show ?case by simp
qed

section \<open>Properties\<close>

text \<open>The data plane runs its agent exactly if the command line gives a file, or gives none and there is
  \<open>config.yaml\<close>, which can be read and decoded, and then with the ports this file holds; otherwise
  it ends, with an error unless it was only asked for its usage.\<close>

theorem dataplane_runs_its_configuration:
  "(case dataplane_main ReadFile Unmarshal e cl of
      Running out \<Rightarrow> \<exists>config content ps. cl = Flags config \<and>
        ReadFile (case config of None \<Rightarrow> ''config.yaml'' | Some f \<Rightarrow> f) = Inr content \<and>
        Unmarshal content = Inr ps \<and> out = Agent e ps
    | Exited n ls \<Rightarrow> (n = 0 \<longleftrightarrow> cl = Answered) \<and> (n \<noteq> 0 \<longrightarrow> (\<exists>err. ls = [Log_error err]))) \<and>
    ((\<exists>out. dataplane_main ReadFile Unmarshal e (Flags (Some f)) = Running out) \<longleftrightarrow>
      (\<exists>content ps. ReadFile f = Inr content \<and> Unmarshal content = Inr ps))"
  by (auto simp: dataplane_main_def loadConfig_def Let_def
    split: command_line.split sum.split process.split option.split)

text \<open>A control plane that cannot listen stays. If the socket cannot be had, the process goes on and logs
  one error: it answers no request, and its ports never change, until a signal ends it, with
  status 0, as if it had served.\<close>

theorem unbound_control_plane_stays:
  assumes "\<forall>r. Signalled r \<notin> set evs"
    and "control_run (Started (Some err) # evs @ [Signalled None]) (control_start a d) = (as, s)"
  shows "set as = {None} \<and> configMgr s = Map.empty \<and> ending s = Exits 0 \<and> logs s = [Log_error err]"
proof -
  let ?s0 = "server_error err (control_start a d)"
  obtain as' s' where r: "control_run evs ?s0 = (as', s')" by fastforce
  have s0: "ending ?s0 = Alive" "httpServer ?s0 = Closed" "configMgr ?s0 = Map.empty" "logs ?s0 = [Log_error err]"
    by (simp_all add: server_error_def control_start_def NewConfigManager_def)
  have "s' = ?s0 \<and> (\<forall>a\<in>set as'. a = None)"
  proof (rule control_run_invariant [OF r])
    fix ev s a s'
    assume ev: "ev \<in> set evs" and step: "control_step ev s = (a, s')" and s: "s = ?s0"
    have "control_step ev s = (None, s)"
      by (rule closed_stays) (use assms(1) ev s0 s in auto)
    with step s show "s' = ?s0 \<and> a = None" by simp
  qed simp
  moreover have "control_step (Started (Some err)) (control_start a d) = (None, ?s0)"
    by (simp add: control_step_unfold control_start_def)
  ultimately show ?thesis
    using assms(2) r s0 by (auto simp: control_run_append control_step.simps [of "Signalled None"] Let_def)
qed

theorem unbound_control_plane_stays_witness:
  "\<exists>as s. control_run [Started (Some ''in use''), Request [] (request_for (Add_entry ''eth0'' (''l2'', None))),
      Signalled None] (control_start '':8080'' '''') = (as, s) \<and> set as = {None} \<and> ending s = Exits 0"
proof -
  let ?evs = "[Request [] (request_for (Add_entry ''eth0'' (''l2'', None)))]"
  obtain as s where r: "control_run (Started (Some ''in use'') # ?evs @ [Signalled None]) (control_start '':8080'' '''') = (as, s)"
    by fastforce
  from unbound_control_plane_stays [OF _ r] r show ?thesis by simp
qed

text \<open>A signal that comes before the goroutine has started is a panic.\<close>

theorem early_signal_panics:
  "ending (snd (control_run (Signalled r # evs) (control_start a d))) = Panics"
proof -
  have "ending (snd (control_run evs s)) = Panics" if "ending s = Panics" for s
    using that by (induction evs) (simp_all add: control_step.simps Let_def case_prod_unfold)
  then show ?thesis
    by (simp add: Let_def case_prod_unfold control_step_unfold control_start_def)
qed

text \<open>While it listens the control plane does what its answers say, whatever address it was given for the
  data plane: after any calls on ports, each answered, \<open>GET\<close> of a port shows the configuration of the
  last call on it that was answered with success. Nothing is kept beyond the process: with no calls
  since its start, no port is there.\<close>

theorem control_plane_follows_its_answers:
  assumes "controlplane_main (Flags (a, d)) = Inr s0" and "control_run (Started None # calls cs) s0 = (as, s)"
  shows "\<exists>rs. map (map_option (\<lambda>a. fst a < 300)) as = None # map Some rs \<and>
    (n \<noteq> '''' \<longrightarrow> control_step (Request [] \<lparr>Method = ''GET'', path = port_path n, body = b\<rparr>) s =
      (Some (case logged (zip cs rs) n of
         None \<Rightarrow> (404, Text (''port not found: '' @ n))
       | Some v \<Rightarrow> (200, Port \<lparr>Name = Name (the (configMgr s n)), Mode = fst v, L2 = snd v\<rparr>)), s))"
proof -
  let ?s1 = "s0\<lparr>httpServer := Listening\<rparr>"
  have s0: "ending s0 = Alive" "httpServer s0 = Unset" "configMgr s0 = NewConfigManager"
    using assms(1) by (auto simp: controlplane_main_def control_start_def)
  obtain as' where r: "control_run (calls cs) ?s1 = (as', s)" "as = None # as'"
    using assms(2) s0 by (auto simp: control_step_unfold Let_def split: prod.splits)
  obtain rs m where m: "run_calls http_call cs NewConfigManager = (rs, m)" by fastforce
  with control_run_calls [OF _ _ r(1)] s0 have s: "s = ?s1\<lparr>configMgr := m\<rparr>"
    "map (map_option (\<lambda>a. fst a < 300)) as' = map Some rs" by auto
  have "shown NewConfigManager = Map.empty" by (simp add: shown_eq NewConfigManager_def fun_eq_iff)
  from api.view_is_logged [OF this m, of n]
  have l: "n \<noteq> '''' \<Longrightarrow> logged (zip cs rs) n = map_option (\<lambda>c. (Mode c, L2 c)) (m n)" by (simp add: shown_eq)
  show ?thesis
    using s s0 r(2) l
    by (intro exI [of _ rs]) (auto simp: control_step_unfold serve_port_path getPort_def http_Error_def manager_defs
      split: option.split)
qed

theorem control_plane_follows_its_answers_witness:
  "\<exists>s0 as s. controlplane_main (Flags (None, Some ''dp:50051'')) = Inr s0 \<and>
    control_run (Started None # calls [Add_entry ''eth0'' (''l2'', None), Del_entry ''eth1'']) s0 = (as, s) \<and>
    map (map_option (\<lambda>a. fst a < 300)) as = [None, Some True, Some False] \<and>
    control_step (Request [] \<lparr>Method = ''GET'', path = port_path ''eth1'', body = Inl ''''\<rparr>) s =
      (Some (404, Text ''port not found: eth1''), s)"
proof -
  let ?cs = "[Add_entry ''eth0'' (''l2'', None), Del_entry ''eth1'']"
  let ?s0 = "control_start '':8080'' ''dp:50051''"
  have s0: "controlplane_main (Flags (None, Some ''dp:50051'')) = Inr ?s0" by (simp add: controlplane_main_def)
  obtain as s where r: "control_run (Started None # calls ?cs) ?s0 = (as, s)" by fastforce
  from control_plane_follows_its_answers [OF s0 r, of "''eth1''" "Inl ''''"] obtain rs where
    rs: "map (map_option (\<lambda>a. fst a < 300)) as = None # map Some rs"
    "control_step (Request [] \<lparr>Method = ''GET'', path = port_path ''eth1'', body = Inl ''''\<rparr>) s =
      (Some (case logged (zip ?cs rs) ''eth1'' of None \<Rightarrow> (404, Text (''port not found: '' @ ''eth1''))
       | Some v \<Rightarrow> (200, Port \<lparr>Name = Name (the (configMgr s ''eth1'')), Mode = fst v, L2 = snd v\<rparr>)), s)"
    by auto
  have "map (map_option (\<lambda>a. fst a < 300)) as = [None, Some True, Some False]"
    using r by (auto simp: calls_def control_step.simps control_start_def serve_def port_path_def handler_defs
      manager_defs NewConfigManager_def Let_def)
  moreover from this rs(1) have "rs = [True, False]" by auto
  ultimately show ?thesis using s0 r rs(2) by (auto simp: logged_def)
qed

end
