(* ===== verification/Loops.thy ===== *)
theory Loops
  imports Prelude
begin

text \<open>
  The loop macros of bpf_helpers.h: \<open>bpf_for_each\<close>, \<open>bpf_for\<close> and \<open>bpf_repeat\<close>, which wrap the
  kernel's open-coded iterators into a \<open>for\<close> statement of C. The three operations of an iterator are
  the kernel's and a parameter; a law states what the header says of them. A loop over an iterator
  that never ends is \<open>None\<close>.
\<close>

section \<open>The for statement\<close>

text \<open>
  The body falls through or continues, breaks, or leaves the function with a value. The iterator
  object lives in the statement: however the statement is left, the cleanup attribute destroys it.
\<close>

datatype 'r flow = Continue | Break | Return 'r

partial_function (option) for_loop ::
  "('i \<Rightarrow> 's \<Rightarrow> bool \<times> 'i \<times> 's) \<Rightarrow> ('s \<Rightarrow> 'r flow \<times> 's) \<Rightarrow> 'i \<Rightarrow> 's \<Rightarrow> ('r flow \<times> 'i \<times> 's) option" where
  "for_loop test body it s = (case test it s of (go, it1, s1) \<Rightarrow>
     if \<not> go then Some (Continue, it1, s1)
     else (case body s1 of (fl, s2) \<Rightarrow> (case fl of
         Continue \<Rightarrow> for_loop test body it1 s2
       | Break \<Rightarrow> Some (Continue, it1, s2)
       | Return r \<Rightarrow> Some (Return r, it1, s2))))"

declare for_loop.simps [code]

text \<open>An iterator over elements \<open>'e\<close>, made from arguments \<open>'a\<close>; its constructor returns a code.\<close>

record ('a, 'e, 'i, 's) iterator =
  iter_new :: "'a \<Rightarrow> 's \<Rightarrow> int \<times> 'i \<times> 's"
  iter_next :: "'i \<Rightarrow> 's \<Rightarrow> 'e option \<times> 'i \<times> 's"
  iter_destroy :: "'i \<Rightarrow> 's \<Rightarrow> 's"

definition with_cleanup :: "('i \<Rightarrow> 's \<Rightarrow> 's) \<Rightarrow> ('r flow \<times> 'i \<times> 's) option \<Rightarrow> ('r flow \<times> 's) option" where
  "with_cleanup destroy c = do { (fl, it, s) \<leftarrow> c; Some (fl, destroy it s) }"

section \<open>The macros\<close>

text \<open>\<open>cur\<close> is assigned what the iterator returns, the null pointer at the end too.\<close>

definition bpf_for_each ::
  "('a, 'e, 'i, 's) iterator \<Rightarrow> ('e option \<Rightarrow> 's \<Rightarrow> 's) \<Rightarrow> ('s \<Rightarrow> 'a) \<Rightarrow> ('s \<Rightarrow> 'r flow \<times> 's) \<Rightarrow> 's \<Rightarrow>
     ('r flow \<times> 's) option" where
  "bpf_for_each I set_cur args body s = (case iter_new I (args s) s of (rc, it, s1) \<Rightarrow>
     with_cleanup (iter_destroy I) (for_loop
       (\<lambda>it s. case iter_next I it s of (e, it', s') \<Rightarrow> (e \<noteq> None, it', set_cur e s')) body it s1))"

text \<open>
  \<open>start\<close> and \<open>end\<close> are expressions, evaluated for the constructor and again in each test; \<open>i\<close> is a
  signed variable of 32 bits, and keeps its value when the iterator ends.
\<close>

definition bpf_for ::
  "(u32 \<times> u32, u32, 'i, 's) iterator \<Rightarrow> (u32 \<Rightarrow> 's \<Rightarrow> 's) \<Rightarrow> ('s \<Rightarrow> u32) \<Rightarrow> ('s \<Rightarrow> u32) \<Rightarrow>
     ('s \<Rightarrow> 'r flow \<times> 's) \<Rightarrow> 's \<Rightarrow> ('r flow \<times> 's) option" where
  "bpf_for I set_i start end body s = (case iter_new I (start s, end s) s of (rc, it, s1) \<Rightarrow>
     with_cleanup (iter_destroy I) (for_loop
       (\<lambda>it s. case iter_next I it s of
          (None, it', s') \<Rightarrow> (False, it', s')
        | (Some v, it', s') \<Rightarrow>
            (let s'' = set_i v s' in (sint (start s'') \<le> sint v \<and> sint v < sint (end s''), it', s'')))
       body it s1))"

definition bpf_repeat ::
  "(u32 \<times> u32, u32, 'i, 's) iterator \<Rightarrow> ('s \<Rightarrow> u32) \<Rightarrow> ('s \<Rightarrow> 'r flow \<times> 's) \<Rightarrow> 's \<Rightarrow> ('r flow \<times> 's) option" where
  "bpf_repeat I N body s = (case iter_new I (0, N s) s of (rc, it, s1) \<Rightarrow>
     with_cleanup (iter_destroy I) (for_loop
       (\<lambda>it s. case iter_next I it s of (e, it', s') \<Rightarrow> (e \<noteq> None, it', s')) body it s1))"

section \<open>What an iterator does\<close>

text \<open>The elements an iterator still has to give are a finite list; giving them does not touch what
  the program sees.\<close>

definition gives :: "('a, 'e, 'i, 's) iterator \<Rightarrow> ('i \<Rightarrow> 'e list) \<Rightarrow> bool" where
  "gives I rest \<longleftrightarrow> (\<forall>it s. \<exists>it'. iter_next I it s =
     ((case rest it of [] \<Rightarrow> None | e # es \<Rightarrow> Some e), it', s) \<and> rest it' = tl (rest it))"

text \<open>
  Documented for the iterator over numbers: it runs from the first number through, but not including,
  the second. Its constructor may refuse a range; an iterator that was refused gives nothing.
\<close>

definition range_of :: "u32 \<Rightarrow> u32 \<Rightarrow> u32 list" where
  "range_of a b = map of_int [sint a..sint b - 1]"

definition num_law :: "(u32 \<times> u32, u32, 'i, 's) iterator \<Rightarrow> ('i \<Rightarrow> u32 list) \<Rightarrow> bool" where
  "num_law I rest \<longleftrightarrow> gives I rest \<and> (\<forall>a b s. \<exists>rc it. iter_new I (a, b) s = (rc, it, s) \<and>
     rest it = (if rc = 0 then range_of a b else []))"

definition accepts :: "(u32 \<times> u32, u32, 'i, 's) iterator \<Rightarrow> u32 \<Rightarrow> u32 \<Rightarrow> 's \<Rightarrow> bool" where
  "accepts I a b s \<longleftrightarrow> fst (iter_new I (a, b) s) = 0"

section \<open>Loops over a list\<close>

text \<open>The body for each element, until it breaks or returns; and whether the list was used up.\<close>

fun run_list :: "('e \<Rightarrow> 's \<Rightarrow> 's) \<Rightarrow> ('s \<Rightarrow> 'r flow \<times> 's) \<Rightarrow> 'e list \<Rightarrow> 's \<Rightarrow> bool \<times> 'r flow \<times> 's" where
  "run_list put body [] s = (True, Continue, s)"
| "run_list put body (e # es) s = (case body (put e s) of (fl, s') \<Rightarrow> (case fl of
       Continue \<Rightarrow> run_list put body es s'
     | Break \<Rightarrow> (False, Continue, s')
     | Return r \<Rightarrow> (False, Return r, s')))"

text \<open>A loop whose test takes the next element of a list, and \<open>fin\<close> is what it does at the end.\<close>

lemma for_loop_list:
  assumes "\<And>it s. P s \<Longrightarrow> rest it = [] \<Longrightarrow> \<exists>it'. test it s = (False, it', fin s)"
    and "\<And>it s e es. P s \<Longrightarrow> rest it = e # es \<Longrightarrow> set (rest it) \<subseteq> A \<Longrightarrow>
      \<exists>it'. test it s = (True, it', put e s) \<and> rest it' = es"
    and "\<And>s e s' fl. P s \<Longrightarrow> body (put e s) = (fl, s') \<Longrightarrow> P s'"
    and "P s" and "set (rest it) \<subseteq> A"
  shows "\<exists>it'. for_loop test body it s = (case run_list put body (rest it) s of
    (used, fl, s') \<Rightarrow> Some (fl, it', if used then fin s' else s'))"
  using assms(4,5)
proof (induction "rest it" arbitrary: it s)
  case Nil
  with assms(1) [of s it] show ?case by (subst for_loop.simps) auto
next
  case (Cons e es)
  obtain it1 where t: "test it s = (True, it1, put e s)" "rest it1 = es"
    using assms(2) [OF Cons.prems(1) Cons(2) [symmetric] Cons.prems(2)] by blast
  obtain fl s' where b: "body (put e s) = (fl, s')" by fastforce
  have "P s'" using assms(3) [OF Cons.prems(1) b] .
  moreover have "set (rest it1) \<subseteq> A" using Cons.prems(2) Cons(2) t(2) by (metis set_subset_Cons subset_trans)
  ultimately have "\<exists>it'. for_loop test body it1 s' = (case run_list put body (rest it1) s' of
    (used, fl, s') \<Rightarrow> Some (fl, it', if used then fin s' else s'))"
    using Cons(1) t(2) by blast
  with t b Cons(2) [symmetric] show ?case
    by (subst for_loop.simps) (auto split: flow.split)
qed

section \<open>The macros run over the list\<close>

lemma givesD:
  assumes "gives I rest"
  obtains it' where "iter_next I it s = ((case rest it of [] \<Rightarrow> None | e # es \<Rightarrow> Some e), it', s)"
    and "rest it' = tl (rest it)"
  using assms unfolding gives_def by blast

text \<open>A loop with \<open>bpf_for_each\<close> runs its body for each element the iterator gives, in order, with the
  element in \<open>cur\<close>, and \<open>cur\<close> is null after the last; it ends, and destroys its iterator once, also
  when the body breaks or returns.\<close>

theorem bpf_for_each_exact:
  assumes "gives I rest" and "iter_new I (args s) s = (rc, it, s1)"
  shows "\<exists>it'. bpf_for_each I set_cur args body s =
    (case run_list (\<lambda>e. set_cur (Some e)) body (rest it) s1 of
       (used, fl, s') \<Rightarrow> Some (fl, iter_destroy I it' (if used then set_cur None s' else s')))"
proof -
  let ?test = "\<lambda>it s. case iter_next I it s of (e, it', s') \<Rightarrow> (e \<noteq> None, it', set_cur e s')"
  have nil: "\<exists>it'. ?test it s = (False, it', set_cur None s)" if "rest it = []" for it s
    using that by (rule_tac givesD [OF assms(1), of it s]) auto
  have cons: "\<exists>it'. ?test it s = (True, it', set_cur (Some e) s) \<and> rest it' = es" if "rest it = e # es" for it s e es
    using that by (rule_tac givesD [OF assms(1), of it s]) auto
  have "\<exists>it'. for_loop ?test body it s1 = (case run_list (\<lambda>e. set_cur (Some e)) body (rest it) s1 of
      (used, fl, s') \<Rightarrow> Some (fl, it', if used then set_cur None s' else s'))"
    by (rule for_loop_list [where P = "\<lambda>_. True" and A = UNIV]) (use nil cons in auto)
  then show ?thesis
    using assms(2) by (auto simp: bpf_for_each_def with_cleanup_def split: prod.splits)
qed

lemma sint_of_int: "- (2 ^ 31) \<le> x \<Longrightarrow> x < 2 ^ 31 \<Longrightarrow> sint (of_int x :: u32) = x"
  by (simp add: signed_of_int signed_take_bit_int_eq_self)

lemma range_of_bounds:
  assumes "v \<in> set (range_of a b)"
  shows "sint a \<le> sint v \<and> sint v < sint b"
proof -
  obtain x where x: "v = of_int x" "sint a \<le> x" "x \<le> sint b - 1"
    using assms by (auto simp: range_of_def)
  have "- (2 ^ 31) \<le> sint a" "sint b < 2 ^ 31"
    using sint_range_size [of a] sint_range_size [of b] by (simp_all add: word_size)
  with x show ?thesis by (simp add: sint_of_int)
qed

lemma num_newE:
  assumes "num_law I rest"
  obtains rc it where "iter_new I (a, b) s = (rc, it, s)" and "gives I rest"
    and "rest it = (if accepts I a b s then range_of a b else [])"
  using assms unfolding num_law_def accepts_def by (metis fst_conv)

text \<open>\<open>bpf_for\<close> is the loop it stands for. If its bounds keep their values, the body runs for
  every number from the first through, but not including, the last, in order and with the number in
  the variable, until it breaks or returns; the loop ends, and destroys its iterator. But a range the
  kernel refuses is not reported: the macro drops the code of the constructor, and the body never
  runs.\<close>

theorem bpf_for_exact:
  assumes "num_law I rest" and "\<forall>v s. start (set_i v s) = start s \<and> stop (set_i v s) = stop s"
    and "\<forall>s fl s'. body s = (fl, s') \<longrightarrow> start s' = start s \<and> stop s' = stop s"
  shows "\<exists>it. bpf_for I set_i start stop body s =
    (case run_list set_i body (if accepts I (start s) (stop s) s then range_of (start s) (stop s) else []) s of
       (used, fl, s') \<Rightarrow> Some (fl, iter_destroy I it s'))"
proof -
  let ?a = "start s" and ?b = "stop s"
  let ?test = "\<lambda>it s. case iter_next I it s of (None, it', s') \<Rightarrow> (False, it', s')
    | (Some v, it', s') \<Rightarrow>
        (let s'' = set_i v s' in (sint (start s'') \<le> sint v \<and> sint v < sint (stop s''), it', s''))"
  obtain rc it where new: "iter_new I (?a, ?b) s = (rc, it, s)" and g: "gives I rest"
    and r: "rest it = (if accepts I ?a ?b s then range_of ?a ?b else [])"
    by (rule num_newE [OF assms(1)])
  let ?P = "\<lambda>s'. start s' = ?a \<and> stop s' = ?b"
  have nil: "\<exists>it'. ?test it s = (False, it', s)" if "rest it = []" for it s
    using that by (rule_tac givesD [OF g, of it s]) auto
  have cons: "\<exists>it'. ?test it s' = (True, it', set_i e s') \<and> rest it' = es"
    if "?P s'" "rest it = e # es" "set (rest it) \<subseteq> set (range_of ?a ?b)" for it s' e es
    using that range_of_bounds [of e ?a ?b] assms(2)
    by (rule_tac givesD [OF g, of it s']) (auto simp: Let_def)
  have "\<exists>it'. for_loop ?test body it s = (case run_list set_i body (rest it) s of
      (used, fl, s') \<Rightarrow> Some (fl, it', if used then s' else s'))"
    by (rule for_loop_list [where P = ?P and A = "set (range_of ?a ?b)" and fin = "\<lambda>s. s"])
      (use nil cons assms(2,3) r in \<open>auto split: if_splits\<close>)
  then show ?thesis
    using new r by (auto simp: bpf_for_def with_cleanup_def split: prod.splits)
qed

text \<open>\<open>bpf_repeat\<close> runs its body as often as its argument says, when it starts.\<close>

lemma run_list_length:
  "length xs = length ys \<Longrightarrow> run_list (\<lambda>_ s. s) body xs s = run_list (\<lambda>_ s. s) body ys s"
  by (induction xs ys arbitrary: s rule: list_induct2) (simp_all split: prod.split flow.split)

lemma length_range_of: "length (range_of a b) = nat (sint b - sint a)"
  by (simp add: range_of_def)

theorem bpf_repeat_exact:
  assumes "num_law I rest"
  shows "\<exists>it. bpf_repeat I N body s =
    (case run_list (\<lambda>_ s. s) body (replicate (if accepts I 0 (N s) s then nat (sint (N s)) else 0) ()) s of
       (used, fl, s') \<Rightarrow> Some (fl, iter_destroy I it s'))"
proof -
  let ?test = "\<lambda>it s. case iter_next I it s of (e, it', s') \<Rightarrow> (e \<noteq> None, it', s')"
  obtain rc it where new: "iter_new I (0, N s) s = (rc, it, s)" and g: "gives I rest"
    and r: "rest it = (if accepts I 0 (N s) s then range_of 0 (N s) else [])"
    by (rule num_newE [OF assms(1)])
  have nil: "\<exists>it'. ?test it s = (False, it', s)" if "rest it = []" for it s
    using that by (rule_tac givesD [OF g, of it s]) auto
  have cons: "\<exists>it'. ?test it s = (True, it', s) \<and> rest it' = es" if "rest it = e # es" for it s e es
    using that by (rule_tac givesD [OF g, of it s]) auto
  have "\<exists>it'. for_loop ?test body it s = (case run_list (\<lambda>_ s. s) body (rest it) s of
      (used, fl, s') \<Rightarrow> Some (fl, it', if used then s' else s'))"
    by (rule for_loop_list [where P = "\<lambda>_. True" and A = UNIV and fin = "\<lambda>s. s"]) (use nil cons in auto)
  moreover have "run_list (\<lambda>_ s. s) body (rest it) s = run_list (\<lambda>_ s. s) body
      (replicate (if accepts I 0 (N s) s then nat (sint (N s)) else 0) ()) s"
    by (rule run_list_length) (simp add: r length_range_of)
  ultimately show ?thesis
    using new by (auto simp: bpf_repeat_def with_cleanup_def split: prod.splits)
qed

section \<open>The bounds the body may rely on\<close>

lemma for_loop_le:
  fixes body :: "'s \<Rightarrow> 'r flow \<times> 's" and test :: "'i \<Rightarrow> 's \<Rightarrow> bool \<times> 'i \<times> 's"
  assumes "for_loop test body it s = Some y"
  shows "(\<forall>it s it' s'. test it s = (True, it', s') \<longrightarrow> body s' = body' s') \<longrightarrow> for_loop test body' it s = Some y"
proof (rule for_loop.raw_induct [where P = "\<lambda>test body it s y.
    (\<forall>it s it' s'. test it s = (True, it', s') \<longrightarrow> body s' = body' s') \<longrightarrow> for_loop test body' it s = Some y",
    OF _ assms], intro impI)
  fix loop it s and test :: "'i \<Rightarrow> 's \<Rightarrow> bool \<times> 'i \<times> 's" and body :: "'s \<Rightarrow> 'r flow \<times> 's"
    and y :: "'r flow \<times> 'i \<times> 's"
  assume IH: "\<And>test body it s y. loop test body it s = Some y \<Longrightarrow>
      (\<forall>it s it' s'. test it s = (True, it', s') \<longrightarrow> body s' = body' s') \<longrightarrow> for_loop test body' it s = Some y"
    and run: "(case test it s of (go, it1, s1) \<Rightarrow>
     if \<not> go then Some (Continue, it1, s1)
     else (case body s1 of (fl, s2) \<Rightarrow> (case fl of
         Continue \<Rightarrow> loop test body it1 s2
       | Break \<Rightarrow> Some (Continue, it1, s2)
       | Return r \<Rightarrow> Some (Return r, it1, s2)))) = Some y"
    and same: "\<forall>it s it' s'. test it s = (True, it', s') \<longrightarrow> body s' = body' s'"
  obtain go it1 s1 where t: "test it s = (go, it1, s1)" by (cases "test it s") auto
  show "for_loop test body' it s = Some y"
  proof (cases go)
    case False
    with run t show ?thesis by (subst for_loop.simps) simp
  next
    case True
    then have b: "body' s1 = body s1" using same t by simp
    show ?thesis
    proof (cases "body s1")
      case (Pair fl s2)
      show ?thesis
      proof (cases fl)
        case Continue
        then have "loop test body it1 s2 = Some y" using run t True Pair by simp
        then have "for_loop test body' it1 s2 = Some y" using IH same by blast
        with t b True Pair Continue show ?thesis by (subst for_loop.simps) simp
      next
        case Break
        with run t b True Pair show ?thesis by (subst for_loop.simps) simp
      next
        case (Return r)
        with run t b True Pair show ?thesis by (subst for_loop.simps) simp
      qed
    qed
  qed
qed

lemma for_loop_cong:
  assumes "\<And>it s it' s'. test it s = (True, it', s') \<Longrightarrow> body s' = body' s'"
  shows "for_loop test body it s = for_loop test body' it s"
proof (cases "for_loop test body it s")
  case (Some y)
  with for_loop_le [OF Some] assms show ?thesis by simp
next
  case None
  have "for_loop test body' it s \<noteq> Some y" for y
    using for_loop_le [of test body' it s y body] assms None by fastforce
  with None show ?thesis by (metis option.exhaust)
qed

text \<open>Whatever the kernel's iterator gives, and whatever the body does to the bounds, the number in the
  variable lies within the bounds as they are when the body starts: a body that is different outside
  the bounds makes no difference to the loop.\<close>

theorem bpf_for_body_in_range:
  assumes "\<forall>v s. get_i (set_i v s) = v"
  shows "bpf_for I set_i start stop body s = bpf_for I set_i start stop
    (\<lambda>s. if sint (start s) \<le> sint (get_i s) \<and> sint (get_i s) < sint (stop s) then body s else other s) s"
  unfolding bpf_for_def
  by (cases "iter_new I (start s, stop s) s", simp, rule arg_cong [where f = "with_cleanup _"], rule for_loop_cong)
     (auto simp: Let_def assms split: prod.splits option.splits)

section \<open>An example\<close>

text \<open>The sum of the numbers from 3 to 5 in a program state of the variable, the sum and a count of
  destroyed iterators; numbers up to 2 ^ 23 are accepted, as \<open>BPF_MAX_LOOPS\<close> of vmlinux.h has it.\<close>

definition list_iterator :: "(u32 \<times> u32, u32, u32 list, u32 \<times> u32 \<times> nat) iterator" where
  "list_iterator = \<lparr>
     iter_new = (\<lambda>(a, b) s. if sint b - sint a \<le> 8388608 then (0, range_of a b, s) else (-7, [], s)),
     iter_next = (\<lambda>it s. (case it of [] \<Rightarrow> None | v # _ \<Rightarrow> Some v, tl it, s)),
     iter_destroy = (\<lambda>_ (i, n, d). (i, n, Suc d))\<rparr>"

lemma list_iterator_law: "num_law list_iterator id"
  by (auto simp: num_law_def gives_def list_iterator_def)

definition add_up :: "u32 \<times> u32 \<times> nat \<Rightarrow> nat flow \<times> u32 \<times> u32 \<times> nat" where
  "add_up s = (case s of (i, n, d) \<Rightarrow> (Continue, i, n + i, d))"

theorem bpf_for_exact_witness:
  "bpf_for list_iterator (\<lambda>v (i, n, d). (v, n, d)) (\<lambda>_. 3) (\<lambda>_. 6) add_up (0, 0, 0) =
     Some (Continue, 5, 12, 1) \<and>
   bpf_for list_iterator (\<lambda>v (i, n, d). (v, n, d)) (\<lambda>_. 0) (\<lambda>_. 8388609) add_up (0, 0, 0) =
     Some (Continue, 0, 0, 1)"
proof -
  have r: "range_of 3 6 = [3, 4, 5]" by (simp add: range_of_def upto.simps)
  have a: "accepts list_iterator 3 6 s" "\<not> accepts list_iterator 0 8388609 s" for s
    by (simp_all add: accepts_def list_iterator_def)
  have d: "iter_destroy list_iterator it s = (fst s, fst (snd s), Suc (snd (snd s)))" for it s
    by (cases s) (simp add: list_iterator_def)
  show ?thesis
    using bpf_for_exact [OF list_iterator_law, of "\<lambda>_. 3" "\<lambda>v (i, n, d). (v, n, d)" "\<lambda>_. 6" add_up "(0, 0, 0)"]
      bpf_for_exact [OF list_iterator_law, of "\<lambda>_. 0" "\<lambda>v (i, n, d). (v, n, d)" "\<lambda>_. 8388609" add_up "(0, 0, 0)"]
    by (simp add: r a d add_up_def)
qed

end
