(* ===== verification/Core_Read.thy ===== *)
theory Core_Read
  imports Prelude
begin

text \<open>
  bpf_core_read.h: the macros that follow a chain of pointers through kernel memory, those that read
  a bit field, and those that ask the loader for a fact. The first are programs of the preprocessor, which count their arguments, take
  argument lists apart and paste names together; a macro here is a function on argument lists, and a
  call that does not compile is \<open>None\<close>. What they expand to is then run on a memory. The reads
  are the kernel's helpers and a parameter, and so are the facts on a field that the loader fills in.
\<close>

section \<open>Counting arguments\<close>

datatype 'a token = Blank | Argument 'a | Number nat | N_case

text \<open>\<open>___nth\<close> names eleven parameters before the one it yields.\<close>

definition core_nth :: "'a token list \<Rightarrow> 'a token option" where
  "core_nth ts = (if 11 < length ts then Some (ts ! 11) else None)"

definition core_counts :: "'a token list" where
  "core_counts = [Number 10, Number 9, Number 8, Number 7, Number 6, Number 5, Number 4, Number 3,
     Number 2, Number 1, Number 0]"

definition core_narg :: "'a list \<Rightarrow> 'a token option" where
  "core_narg args = core_nth (Blank # map Argument args @ core_counts)"

definition core_empty :: "'a list \<Rightarrow> 'a token option" where
  "core_empty args = core_nth (Blank # map Argument args @ replicate 10 N_case @ [Number 0])"

text \<open>A name made of a prefix and the count; such macros exist for some counts only.\<close>

definition apply_n :: "(nat \<Rightarrow> 'a list \<Rightarrow> 'b option) \<Rightarrow> 'a list \<Rightarrow> 'b option" where
  "apply_n f args = (case core_narg args of Some (Number n) \<Rightarrow> f n args | _ \<Rightarrow> None)"

lemma core_nth_after:
  "length ys = 11 \<Longrightarrow> core_nth (Blank # map Argument args @ ys) =
     Some (if length args \<le> 10 then ys ! (10 - length args) else Argument (args ! 10))"
  by (auto simp: core_nth_def nth_append)

lemma nth_core_counts: "n \<le> 10 \<Longrightarrow> core_counts ! (10 - n) = Number n"
  by (auto simp: core_counts_def le_Suc_eq numeral_eq_Suc)

lemma core_narg_eq:
  "core_narg args = Some (if length args \<le> 10 then Number (length args) else Argument (args ! 10))"
  by (simp add: core_narg_def core_nth_after nth_core_counts core_counts_def [THEN arg_cong [of _ _ length]])

lemma core_empty_eq:
  "core_empty args = Some (if args = [] then Number 0 else if length args \<le> 10 then N_case
     else Argument (args ! 10))"
  by (auto simp: core_empty_def core_nth_after nth_append)

lemma apply_n_eq: "apply_n f args = (if length args \<le> 10 then f (length args) args else None)"
  by (simp add: apply_n_def core_narg_eq)

section \<open>Expressions\<close>

text \<open>\<open>src\<close>, the local \<open>__t\<close>, and \<open>e->a\<close>. An argument of a macro is an expression or an accessor.\<close>

datatype 'a cexpr = Src | Tmp | Arrow "'a cexpr" 'a

datatype 'a marg = Expr "'a cexpr" | Acc 'a

text \<open>\<open>___last1\<close> to \<open>___last10\<close>, \<open>___nolast2\<close> to \<open>___nolast10\<close>, \<open>___arrow1\<close> to \<open>___arrow10\<close>.\<close>

definition last_n :: "nat \<Rightarrow> 'a list \<Rightarrow> 'a option" where
  "last_n n args = (if 1 \<le> n \<and> n \<le> 10 \<and> length args = n then Some (args ! (n - 1)) else None)"

definition nolast_n :: "nat \<Rightarrow> 'a list \<Rightarrow> 'a list option" where
  "nolast_n n args = (if 2 \<le> n \<and> n \<le> 10 \<and> length args = n then Some (take (n - 1) args) else None)"

fun arrows :: "'a cexpr \<Rightarrow> 'a marg list \<Rightarrow> 'a cexpr option" where
  "arrows e [] = Some e"
| "arrows e (Acc a # args) = arrows (Arrow e a) args"
| "arrows e (Expr e' # args) = None"

definition arrow_n :: "nat \<Rightarrow> 'a marg list \<Rightarrow> 'a cexpr option" where
  "arrow_n n args = (if 1 \<le> n \<and> n \<le> 10 \<and> length args = n
     then (case hd args of Expr e \<Rightarrow> arrows e (tl args) | Acc a \<Rightarrow> None) else None)"

definition core_last :: "'a list \<Rightarrow> 'a option" where "core_last = apply_n last_n"
definition core_nolast :: "'a list \<Rightarrow> 'a list option" where "core_nolast = apply_n nolast_n"
definition core_arrow :: "'a marg list \<Rightarrow> 'a cexpr option" where "core_arrow = apply_n arrow_n"

lemma core_last_eq: "core_last args = (if args \<noteq> [] \<and> length args \<le> 10 then Some (last args) else None)"
  by (cases args) (auto simp: core_last_def apply_n_eq last_n_def last_conv_nth)

lemma core_nolast_eq:
  "core_nolast args = (if 2 \<le> length args \<and> length args \<le> 10 then Some (butlast args) else None)"
  by (auto simp: core_nolast_def apply_n_eq nolast_n_def butlast_conv_take)

lemma arrows_accs: "arrows e (map Acc as) = Some (foldl Arrow e as)"
  by (induction "as" arbitrary: e) simp_all

lemma core_arrow_eq:
  "core_arrow (Expr e # map Acc as) = (if length as \<le> 9 then Some (foldl Arrow e as) else None)"
  by (auto simp: core_arrow_def apply_n_eq arrow_n_def arrows_accs)

lemma core_arrow_1 [simp]: "core_arrow [Expr e] = Some e"
  by (simp add: core_arrow_def apply_n_eq arrow_n_def)

section \<open>Reading\<close>

text \<open>
  The read functions the variants use; those of CO-RE emit a relocation for the address and then
  call the helper.
\<close>

datatype read_fn = Bpf_core_read | Bpf_core_read_user | Bpf_core_read_str | Bpf_core_read_user_str
  | Bpf_probe_read_kernel | Bpf_probe_read_user | Bpf_probe_read_kernel_str | Bpf_probe_read_user_str

datatype probe = Probe_read_kernel | Probe_read_user | Probe_read_kernel_str | Probe_read_user_str

fun call_of :: "read_fn \<Rightarrow> probe" where
  "call_of Bpf_core_read = Probe_read_kernel"
| "call_of Bpf_core_read_user = Probe_read_user"
| "call_of Bpf_core_read_str = Probe_read_kernel_str"
| "call_of Bpf_core_read_user_str = Probe_read_user_str"
| "call_of Bpf_probe_read_kernel = Probe_read_kernel"
| "call_of Bpf_probe_read_user = Probe_read_user"
| "call_of Bpf_probe_read_kernel_str = Probe_read_kernel_str"
| "call_of Bpf_probe_read_user_str = Probe_read_user_str"

datatype dest = Tmp_var | Result

text \<open>\<open>___read(fn, dst, typeof(t), src, a)\<close> as a statement.\<close>

datatype 'a stmt = Read read_fn dest "'a cexpr" "'a cexpr" 'a

definition core_read_stmt ::
  "read_fn \<Rightarrow> dest \<Rightarrow> 'a marg list \<Rightarrow> 'a cexpr \<Rightarrow> 'a marg option \<Rightarrow> 'a stmt option" where
  "core_read_stmt fn dst type_args src accessor = (case accessor of
     Some (Acc a) \<Rightarrow> do { t \<leftarrow> core_arrow type_args; Some (Read fn dst t src a) }
   | _ \<Rightarrow> None)"

fun rd_first :: "read_fn \<Rightarrow> 'a marg list \<Rightarrow> 'a stmt option" where
  "rd_first fn [Expr src, a] = core_read_stmt fn Tmp_var [Expr src] src (Some a)"
| "rd_first fn _ = None"

definition rd_last :: "read_fn \<Rightarrow> 'a marg list \<Rightarrow> 'a stmt option" where
  "rd_last fn args = do {
     init \<leftarrow> core_nolast args;
     core_read_stmt fn Tmp_var init Tmp (core_last args)
   }"

text \<open>\<open>___rd_p1\<close> to \<open>___rd_p9\<close>.\<close>

fun rd_p :: "nat \<Rightarrow> read_fn \<Rightarrow> 'a marg list \<Rightarrow> 'a stmt list option" where
  "rd_p 0 fn args = None"
| "rd_p (Suc 0) fn args = do { r \<leftarrow> rd_first fn args; Some [r] }"
| "rd_p (Suc (Suc n)) fn args = (if 9 < n + 2 then None else do {
     init \<leftarrow> core_nolast args;
     rs \<leftarrow> rd_p (Suc n) fn init;
     r \<leftarrow> rd_last fn args;
     Some (rs @ [r])
   })"

definition read_ptrs :: "read_fn \<Rightarrow> 'a cexpr \<Rightarrow> 'a marg list \<Rightarrow> 'a stmt list option" where
  "read_ptrs fn src accessors = apply_n (\<lambda>n args. rd_p n fn (Expr src # args)) accessors"

definition core_read0 :: "read_fn \<Rightarrow> 'a cexpr \<Rightarrow> 'a marg list \<Rightarrow> 'a stmt list option" where
  "core_read0 fn src args = (case args of
     [a] \<Rightarrow> do { r \<leftarrow> core_read_stmt fn Result [Expr src] src (Some a); Some [r] }
   | _ \<Rightarrow> None)"

definition core_readN :: "read_fn \<Rightarrow> read_fn \<Rightarrow> 'a cexpr \<Rightarrow> 'a marg list \<Rightarrow> 'a stmt list option" where
  "core_readN fn fn_ptr src args = do {
     init \<leftarrow> core_nolast args;
     rs \<leftarrow> read_ptrs fn_ptr src init;
     init' \<leftarrow> core_nolast args;
     r \<leftarrow> core_read_stmt fn Result (Expr src # init') Tmp (core_last args);
     Some (rs @ [r])
   }"

definition core_read :: "read_fn \<Rightarrow> read_fn \<Rightarrow> 'a cexpr \<Rightarrow> 'a marg list \<Rightarrow> 'a stmt list option" where
  "core_read fn fn_ptr src args = (case args of
     [] \<Rightarrow> None
   | a # more \<Rightarrow> (case core_empty more of
       Some (Number 0) \<Rightarrow> core_read0 fn src (a # more)
     | Some N_case \<Rightarrow> core_readN fn fn_ptr src (a # more)
     | _ \<Rightarrow> None))"

section \<open>What the macros expand to\<close>

text \<open>The reads of pointers for a chain of accessors.\<close>

definition ptr_read :: "read_fn \<Rightarrow> 'a list \<Rightarrow> nat \<Rightarrow> 'a stmt" where
  "ptr_read fn as i = Read fn Tmp_var (foldl Arrow Src (take i as)) (if i = 0 then Src else Tmp) (as ! i)"

definition last_read :: "read_fn \<Rightarrow> 'a list \<Rightarrow> 'a stmt" where
  "last_read fn as = Read fn Result (foldl Arrow Src (butlast as)) (if length as = 1 then Src else Tmp) (last as)"

lemma rd_p_eq:
  assumes "length as = n" and "1 \<le> n" and "n \<le> 9"
  shows "rd_p n fn (Expr Src # map Acc as) = Some (map (ptr_read fn as) [0..<n])"
  using assms(2,1,3)
proof (induction n arbitrary: "as" rule: nat_induct_at_least)
  case base
  then obtain a where "as = [a]" by (cases "as") auto
  then show ?case by (simp add: core_read_stmt_def ptr_read_def)
next
  case (Suc n)
  then obtain m where n: "n = Suc m" by (cases n) auto
  obtain bs b where as_eq: "as = bs @ [b]" using Suc.prems by (cases "as" rule: rev_cases) auto
  then have len: "length bs = n" using Suc.prems by simp
  have nolast: "core_nolast (Expr Src # map Acc as) = Some (Expr Src # map Acc bs)"
    using Suc.prems len by (simp add: core_nolast_eq as_eq butlast_append)
  have "map (ptr_read fn bs) [0..<n] = map (ptr_read fn as) [0..<n]"
    using len by (auto simp: ptr_read_def as_eq nth_append)
  moreover have "rd_last fn (Expr Src # map Acc as) = Some (ptr_read fn as n)"
    using Suc.prems Suc.hyps len core_arrow_eq [of Src bs] nolast [unfolded as_eq, simplified]
    by (auto simp: rd_last_def core_last_eq core_read_stmt_def ptr_read_def as_eq nth_append)
  ultimately show ?case
    using Suc.IH [OF len] Suc.prems nolast n by simp
qed

theorem core_read_expands:
  "core_read fn fn_ptr Src (map Acc as) =
     (if 1 \<le> length as \<and> length as \<le> 10
      then Some (map (ptr_read fn_ptr as) [0..<length as - 1] @ [last_read fn as]) else None)"
proof (cases "as")
  case Nil
  then show ?thesis by (simp add: core_read_def)
next
  case (Cons a more)
  show ?thesis
  proof (cases "more = []")
    case True
    with Cons show ?thesis
      by (simp add: core_read_def core_empty_eq core_read0_def core_read_stmt_def last_read_def)
  next
    case False
    then have "as = butlast as @ [last as]" "butlast as \<noteq> []" using Cons by simp_all
    then obtain bs b where as_eq: "as = bs @ [b]" "bs \<noteq> []" by blast
    then have len: "length bs = length more" using Cons by (metis butlast_snoc length_butlast diff_Suc_1 length_Cons)
    show ?thesis
    proof (cases "length as \<le> 10")
      case True
      have "rd_p (length bs) fn_ptr (Expr Src # map Acc bs) = Some (map (ptr_read fn_ptr bs) [0..<length bs])"
        using True as_eq by (intro rd_p_eq) (auto simp: Suc_le_eq)
      moreover have "map (ptr_read fn_ptr bs) [0..<length bs] = map (ptr_read fn_ptr as) [0..<length bs]"
        by (auto simp: ptr_read_def as_eq nth_append)
      ultimately have "core_readN fn fn_ptr Src (map Acc as) =
          Some (map (ptr_read fn_ptr as) [0..<length bs] @ [last_read fn as])"
        using True as_eq core_arrow_eq [of Src bs]
        by (simp add: core_readN_def core_nolast_eq butlast_append read_ptrs_def apply_n_eq core_last_eq
          core_read_stmt_def last_read_def Suc_le_eq)
      with True False Cons len show ?thesis by (simp add: core_read_def core_empty_eq)
    next
      case over: False
      then have "core_nolast (map Acc as) = None" by (simp add: core_nolast_eq)
      with over False Cons show ?thesis by (auto simp: core_read_def core_empty_eq core_readN_def)
    qed
  qed
qed

section \<open>What the expansion does\<close>

text \<open>
  Types as far as they matter: an integer of some bytes, a pointer to a named structure, or a
  structure inside another. A structure's fields are given by an environment; an accessor may be a
  path into inner structures, and has an offset and a type.
\<close>

datatype ctype = Int_type nat | Ptr_type string | Struct_type string nat

type_synonym 'a fields = "string \<Rightarrow> 'a \<Rightarrow> (nat \<times> ctype) option"

fun size_of :: "ctype \<Rightarrow> nat" where
  "size_of (Int_type n) = n"
| "size_of (Ptr_type s) = 8"
| "size_of (Struct_type s n) = n"

fun arrow_type :: "'a fields \<Rightarrow> ctype \<Rightarrow> 'a \<Rightarrow> (nat \<times> ctype) option" where
  "arrow_type \<Gamma> (Ptr_type s) a = \<Gamma> s a"
| "arrow_type \<Gamma> _ a = None"

text \<open>\<open>typeof\<close>; the local \<open>__t\<close> is a \<open>void *\<close>.\<close>

fun type_of :: "'a fields \<Rightarrow> ctype \<Rightarrow> 'a cexpr \<Rightarrow> ctype option" where
  "type_of \<Gamma> T Src = Some T"
| "type_of \<Gamma> T Tmp = None"
| "type_of \<Gamma> T (Arrow e a) = do { t \<leftarrow> type_of \<Gamma> T e; (off, t') \<leftarrow> arrow_type \<Gamma> t a; Some t' }"

text \<open>
  A helper that reads gets the address, the size and the old contents of the destination, and yields a
  code and the new contents. The local pointer is 8 bytes of the stack.
\<close>

type_synonym reader = "probe \<Rightarrow> u64 \<Rightarrow> nat \<Rightarrow> u8 list \<Rightarrow> int \<times> u8 list"

record chase_state =
  tmp_bytes :: "u8 list"
  result_bytes :: "u8 list"
  last_code :: int

definition as_pointer :: "u8 list \<Rightarrow> u64" where
  "as_pointer bs = of_nat (le_dec bs)"

definition exec_stmt ::
  "'a fields \<Rightarrow> ctype \<Rightarrow> reader \<Rightarrow> u64 \<Rightarrow> 'a stmt \<Rightarrow> chase_state \<Rightarrow> chase_state option" where
  "exec_stmt \<Gamma> T rd src st s = (case st of Read fn dst te from a \<Rightarrow> do {
     t \<leftarrow> type_of \<Gamma> T te;
     (off, t') \<leftarrow> arrow_type \<Gamma> t a;
     p \<leftarrow> (case from of Src \<Rightarrow> Some src | Tmp \<Rightarrow> Some (as_pointer (tmp_bytes s)) | Arrow _ _ \<Rightarrow> None);
     Some (case dst of
       Tmp_var \<Rightarrow> (case rd (call_of fn) (p + of_nat off) 8 (tmp_bytes s) of (rc, bs) \<Rightarrow> s\<lparr>tmp_bytes := bs, last_code := rc\<rparr>)
     | Result \<Rightarrow> (case rd (call_of fn) (p + of_nat off) (length (result_bytes s)) (result_bytes s) of
         (rc, bs) \<Rightarrow> s\<lparr>result_bytes := bs, last_code := rc\<rparr>))
   })"

fun exec :: "'a fields \<Rightarrow> ctype \<Rightarrow> reader \<Rightarrow> u64 \<Rightarrow> 'a stmt list \<Rightarrow> chase_state \<Rightarrow> chase_state option" where
  "exec \<Gamma> T rd src [] s = Some s"
| "exec \<Gamma> T rd src (st # sts) s = do { s' \<leftarrow> exec_stmt \<Gamma> T rd src st s; exec \<Gamma> T rd src sts s' }"

section \<open>The macros a program uses\<close>

text \<open>The variants: the function for the last read, and the one for the pointers before it.\<close>

datatype into_macro = CORE_READ_INTO | CORE_READ_USER_INTO | PROBE_READ_INTO | PROBE_READ_USER_INTO
  | CORE_READ_STR_INTO | CORE_READ_USER_STR_INTO | PROBE_READ_STR_INTO | PROBE_READ_USER_STR_INTO

fun read_fns :: "into_macro \<Rightarrow> read_fn \<times> read_fn" where
  "read_fns CORE_READ_INTO = (Bpf_core_read, Bpf_core_read)"
| "read_fns CORE_READ_USER_INTO = (Bpf_core_read_user, Bpf_core_read_user)"
| "read_fns PROBE_READ_INTO = (Bpf_probe_read_kernel, Bpf_probe_read_kernel)"
| "read_fns PROBE_READ_USER_INTO = (Bpf_probe_read_user, Bpf_probe_read_user)"
| "read_fns CORE_READ_STR_INTO = (Bpf_core_read_str, Bpf_core_read)"
| "read_fns CORE_READ_USER_STR_INTO = (Bpf_core_read_user_str, Bpf_core_read_user)"
| "read_fns PROBE_READ_STR_INTO = (Bpf_probe_read_kernel_str, Bpf_probe_read_kernel)"
| "read_fns PROBE_READ_USER_STR_INTO = (Bpf_probe_read_user_str, Bpf_probe_read_user)"

text \<open>A read into storage of the caller (\<open>old\<close> is what it holds): the code and the new contents.
  \<open>junk\<close> is what the stack holds.\<close>

definition read_into ::
  "into_macro \<Rightarrow> 'a fields \<Rightarrow> ctype \<Rightarrow> reader \<Rightarrow> u8 list \<Rightarrow> u8 list \<Rightarrow> u64 \<Rightarrow> 'a list \<Rightarrow> (int \<times> u8 list) option" where
  "read_into M \<Gamma> T rd junk old src as = do {
     sts \<leftarrow> core_read (fst (read_fns M)) (snd (read_fns M)) Src (map Acc as);
     s \<leftarrow> exec \<Gamma> T rd src sts \<lparr>tmp_bytes = junk, result_bytes = old, last_code = 0\<rparr>;
     Some (last_code s, result_bytes s)
   }"

text \<open>\<open>BPF_CORE_READ\<close> and its variants declare the storage, with the type of the whole chain, and
  yield its value.\<close>

definition read_value ::
  "into_macro \<Rightarrow> 'a fields \<Rightarrow> ctype \<Rightarrow> reader \<Rightarrow> u8 list \<Rightarrow> (nat \<Rightarrow> u8 list) \<Rightarrow> u64 \<Rightarrow> 'a list \<Rightarrow> u8 list option" where
  "read_value M \<Gamma> T rd junk stack src as = do {
     te \<leftarrow> core_arrow (Expr Src # map Acc as);
     t \<leftarrow> type_of \<Gamma> T te;
     (rc, bs) \<leftarrow> read_into M \<Gamma> T rd junk (stack (size_of t)) src as;
     Some bs
   }"

definition BPF_CORE_READ where "BPF_CORE_READ = read_value CORE_READ_INTO"
definition BPF_CORE_READ_USER where "BPF_CORE_READ_USER = read_value CORE_READ_USER_INTO"
definition BPF_PROBE_READ where "BPF_PROBE_READ = read_value PROBE_READ_INTO"
definition BPF_PROBE_READ_USER where "BPF_PROBE_READ_USER = read_value PROBE_READ_USER_INTO"

section \<open>Following pointers\<close>

definition mem_load :: "(u64 \<Rightarrow> u8) \<Rightarrow> u64 \<Rightarrow> nat \<Rightarrow> u8 list" where
  "mem_load m a n = map (\<lambda>i. m (a + of_nat i)) [0..<n]"

text \<open>What \<open>p->a->b->c\<close> means: the address and type of the object, in a memory \<open>m\<close>; and the places
  that are read to get its value.\<close>

fun lvalue :: "'a fields \<Rightarrow> (u64 \<Rightarrow> u8) \<Rightarrow> ctype \<Rightarrow> u64 \<Rightarrow> 'a list \<Rightarrow> (u64 \<times> ctype) option" where
  "lvalue \<Gamma> m T p [] = None"
| "lvalue \<Gamma> m T p [a] = do { (off, t) \<leftarrow> arrow_type \<Gamma> T a; Some (p + of_nat off, t) }"
| "lvalue \<Gamma> m T p (a # as) = do {
     (off, t) \<leftarrow> arrow_type \<Gamma> T a;
     lvalue \<Gamma> m t (as_pointer (mem_load m (p + of_nat off) 8)) as
   }"

fun read_places :: "'a fields \<Rightarrow> (u64 \<Rightarrow> u8) \<Rightarrow> ctype \<Rightarrow> u64 \<Rightarrow> 'a list \<Rightarrow> (u64 \<times> nat) list" where
  "read_places \<Gamma> m T p [] = []"
| "read_places \<Gamma> m T p (a # as) = (case arrow_type \<Gamma> T a of None \<Rightarrow> []
   | Some (off, t) \<Rightarrow>
       if as = [] then [(p + of_nat off, size_of t)]
       else (p + of_nat off, 8) # read_places \<Gamma> m t (as_pointer (mem_load m (p + of_nat off) 8)) as)"

text \<open>Documented: a read that succeeds stores the memory and returns 0.\<close>

definition reads :: "reader \<Rightarrow> probe \<Rightarrow> (u64 \<Rightarrow> u8) \<Rightarrow> (u64 \<times> nat) \<Rightarrow> bool" where
  "reads rd h m pl \<longleftrightarrow> (\<forall>old. length old = snd pl \<longrightarrow> rd h (fst pl) (snd pl) old = (0, mem_load m (fst pl) (snd pl)))"

text \<open>The pointer reached, and its type, after some accessors.\<close>

fun walk :: "'a fields \<Rightarrow> (u64 \<Rightarrow> u8) \<Rightarrow> ctype \<Rightarrow> u64 \<Rightarrow> 'a list \<Rightarrow> (u64 \<times> ctype) option" where
  "walk \<Gamma> m T p [] = Some (p, T)"
| "walk \<Gamma> m T p (a # as) = do {
     (off, t) \<leftarrow> arrow_type \<Gamma> T a;
     walk \<Gamma> m t (as_pointer (mem_load m (p + of_nat off) 8)) as
   }"

lemma walk_append:
  "walk \<Gamma> m T p (as @ bs) = do { (q, t) \<leftarrow> walk \<Gamma> m T p as; walk \<Gamma> m t q bs }"
  by (induction "as" arbitrary: T p) (auto split: Option.bind_splits)

lemma lvalue_snoc:
  "lvalue \<Gamma> m T p (as @ [b]) = do { (q, t) \<leftarrow> walk \<Gamma> m T p as; (off, t') \<leftarrow> arrow_type \<Gamma> t b; Some (q + of_nat off, t') }"
proof (induction "as" arbitrary: T p)
  case (Cons a bs)
  have "lvalue \<Gamma> m T p ((a # bs) @ [b]) = do { (off, t) \<leftarrow> arrow_type \<Gamma> T a;
      lvalue \<Gamma> m t (as_pointer (mem_load m (p + of_nat off) 8)) (bs @ [b]) }"
    by (cases bs) simp_all
  with Cons show ?case by (auto split: Option.bind_splits)
qed simp


lemma walk_types:
  "walk \<Gamma> m T p as = Some (q, t) \<Longrightarrow> type_of \<Gamma> T (foldl Arrow Src as) = Some t"
proof (induction "as" arbitrary: q t rule: rev_induct)
  case (snoc a as)
  then obtain q' t' off t1 where "walk \<Gamma> m T p as = Some (q', t')" "arrow_type \<Gamma> t' a = Some (off, t1)" "t1 = t"
    by (auto simp: walk_append split: Option.bind_splits)
  with snoc.IH show ?case by simp
qed simp

lemma exec_append:
  "exec \<Gamma> T rd src (xs @ ys) s = do { s' \<leftarrow> exec \<Gamma> T rd src xs s; exec \<Gamma> T rd src ys s' }"
  by (induction xs arbitrary: s) (auto split: Option.bind_splits)

text \<open>The places of a chain are those on the way, and the object itself.\<close>

lemma read_places_append:
  assumes "walk \<Gamma> m T p as = Some (q, t)" and "bs \<noteq> []"
  shows "\<exists>ps. read_places \<Gamma> m T p (as @ bs) = ps @ read_places \<Gamma> m t q bs \<and> length ps = length as"
  using assms
proof (induction "as" arbitrary: T p)
  case (Cons a as)
  then obtain off t1 where a: "arrow_type \<Gamma> T a = Some (off, t1)"
    "walk \<Gamma> m t1 (as_pointer (mem_load m (p + of_nat off) 8)) as = Some (q, t)"
    by (auto split: Option.bind_splits)
  with Cons.IH [OF a(2) Cons.prems(2)] Cons.prems(2) show ?case
    by (auto intro: exI [of _ "(p + of_nat off, 8) # _"])
qed simp

lemma nth_read_places:
  assumes "walk \<Gamma> m T p (take i as) = Some (q, t)" and "arrow_type \<Gamma> t (as ! i) = Some (off, t')" and "i < length as"
  shows "read_places \<Gamma> m T p as ! i = (q + of_nat off, if i = length as - 1 then size_of t' else 8)"
proof -
  have d: "drop i as = as ! i # drop (Suc i) as" using assms(3) by (simp add: Cons_nth_drop_Suc)
  then have "drop i as \<noteq> []" by simp
  from read_places_append [OF assms(1) this] obtain ps where
    ps: "read_places \<Gamma> m T p as = ps @ read_places \<Gamma> m t q (drop i as)" "length ps = i"
    using assms(3) by auto
  have "i = length as - 1 \<longleftrightarrow> drop (Suc i) as = []" using assms(3) by auto
  then show ?thesis unfolding ps(1) d using ps(2) assms(2) by (simp add: nth_append)
qed

lemma mem_load_length [simp]: "length (mem_load m a n) = n"
  by (simp add: mem_load_def)

lemma exec_ptr_reads:
  assumes "walk \<Gamma> m T src (take k as) = Some (q, t)" and "k < length as"
    and "\<forall>i<length as - 1. reads rd (call_of fn) m (read_places \<Gamma> m T src as ! i)"
    and "length (tmp_bytes s) = 8"
  shows "\<exists>s'. exec \<Gamma> T rd src (map (ptr_read fn as) [0..<k]) s = Some s' \<and>
    (k \<noteq> 0 \<longrightarrow> as_pointer (tmp_bytes s') = q) \<and> length (tmp_bytes s') = 8 \<and> result_bytes s' = result_bytes s"
  using assms(1,2)
proof (induction k arbitrary: q t)
  case 0
  with assms(4) show ?case by simp
next
  case (Suc k)
  have "take (Suc k) as = take k as @ [as ! k]" using Suc.prems(2) by (simp add: take_Suc_conv_app_nth)
  then obtain q0 t0 off where w: "walk \<Gamma> m T src (take k as) = Some (q0, t0)"
    and a: "arrow_type \<Gamma> t0 (as ! k) = Some (off, t)"
    and q: "q = as_pointer (mem_load m (q0 + of_nat off) 8)"
    using Suc.prems(1) by (auto simp: walk_append split: Option.bind_splits)
  obtain s' where s': "exec \<Gamma> T rd src (map (ptr_read fn as) [0..<k]) s = Some s'"
    "k \<noteq> 0 \<longrightarrow> as_pointer (tmp_bytes s') = q0" "length (tmp_bytes s') = 8" "result_bytes s' = result_bytes s"
    using Suc.IH [OF w] Suc.prems(2) by auto
  have "reads rd (call_of fn) m (q0 + of_nat off, 8)"
  proof -
    have "k < length as - 1" using Suc.prems(2) by simp
    with assms(3) nth_read_places [OF w a] show ?thesis by fastforce
  qed
  then have r: "rd (call_of fn) (q0 + of_nat off) 8 (tmp_bytes s') = (0, mem_load m (q0 + of_nat off) 8)"
    using s'(3) by (simp add: reads_def)
  have p: "(case if k = 0 then Src else Tmp of Src \<Rightarrow> Some src | Tmp \<Rightarrow> Some (as_pointer (tmp_bytes s'))
      | Arrow _ _ \<Rightarrow> None) = Some q0"
    using s'(2) w by auto
  have "exec_stmt \<Gamma> T rd src (ptr_read fn as k) s' =
      Some (s'\<lparr>tmp_bytes := mem_load m (q0 + of_nat off) 8, last_code := 0\<rparr>)"
    by (simp add: exec_stmt_def ptr_read_def walk_types [OF w] a p r)
  with s' q show ?case by (simp add: exec_append)
qed

lemma exec_last_read:
  assumes "walk \<Gamma> m T src as = Some (q, t)" and "arrow_type \<Gamma> t b = Some (off, t')"
    and "as \<noteq> [] \<longrightarrow> as_pointer (tmp_bytes s) = q"
  shows "exec_stmt \<Gamma> T rd src (last_read fn (as @ [b])) s =
    Some (case rd (call_of fn) (q + of_nat off) (length (result_bytes s)) (result_bytes s) of
      (rc, bs) \<Rightarrow> s\<lparr>result_bytes := bs, last_code := rc\<rparr>)"
  using assms walk_types [OF assms(1)] by (cases "as = []") (auto simp: exec_stmt_def last_read_def)

lemma read_into_follows:
  assumes "lvalue \<Gamma> m T src as = Some (addr, t)" and "length as \<le> 10"
    and "\<forall>i<length as - 1. reads rd (call_of (snd (read_fns M))) m (read_places \<Gamma> m T src as ! i)"
    and "length junk = 8"
  shows "read_into M \<Gamma> T rd junk old src as = Some (rd (call_of (fst (read_fns M))) addr (length old) old)"
proof -
  obtain bs b where as_eq: "as = bs @ [b]" using assms(1) by (cases "as" rule: rev_cases) auto
  then obtain q t0 off where w: "walk \<Gamma> m T src bs = Some (q, t0)" and a: "arrow_type \<Gamma> t0 b = Some (off, t)"
    and addr: "addr = q + of_nat off"
    using assms(1) by (auto simp: lvalue_snoc split: Option.bind_splits)
  let ?s = "\<lparr>tmp_bytes = junk, result_bytes = old, last_code = 0\<rparr>"
  have "take (length bs) as = bs" by (simp add: as_eq)
  then obtain s' where s': "exec \<Gamma> T rd src (map (ptr_read (snd (read_fns M)) as) [0..<length bs]) ?s = Some s'"
    "bs \<noteq> [] \<longrightarrow> as_pointer (tmp_bytes s') = q" "result_bytes s' = old"
    using exec_ptr_reads [of \<Gamma> m T src "length bs" as q t0 rd "snd (read_fns M)" ?s] w assms(3,4) as_eq by auto
  have "core_read (fst (read_fns M)) (snd (read_fns M)) Src (map Acc as) =
      Some (map (ptr_read (snd (read_fns M)) as) [0..<length bs] @ [last_read (fst (read_fns M)) as])"
    using core_read_expands [of "fst (read_fns M)" "snd (read_fns M)" as] assms(2) as_eq by simp
  moreover have "exec_stmt \<Gamma> T rd src (last_read (fst (read_fns M)) as) s' =
      Some (case rd (call_of (fst (read_fns M))) addr (length old) old of
        (rc, bs) \<Rightarrow> s'\<lparr>result_bytes := bs, last_code := rc\<rparr>)"
    using exec_last_read [OF w a s'(2), of rd "fst (read_fns M)"] s'(3) addr as_eq by simp
  ultimately show ?thesis
    using s'(1) by (simp add: read_into_def exec_append split: prod.split)
qed

lemma core_read_follows:
  assumes "lvalue \<Gamma> m T src as = Some (addr, t)" and "length as \<le> 9"
    and "\<forall>i<length as - 1. reads rd Probe_read_kernel m (read_places \<Gamma> m T src as ! i)"
    and "reads rd Probe_read_kernel m (addr, size_of t)"
    and "length junk = 8" and "length (stack (size_of t)) = size_of t"
  shows "BPF_CORE_READ \<Gamma> T rd junk stack src as = Some (mem_load m addr (size_of t)) \<and>
    BPF_PROBE_READ \<Gamma> T rd junk stack src as = Some (mem_load m addr (size_of t))"
proof -
  obtain bs b where as_eq: "as = bs @ [b]" using assms(1) by (cases "as" rule: rev_cases) auto
  then obtain q t0 off where w: "walk \<Gamma> m T src bs = Some (q, t0)" and a: "arrow_type \<Gamma> t0 b = Some (off, t)"
    using assms(1) by (auto simp: lvalue_snoc split: Option.bind_splits)
  have ty: "core_arrow (Expr Src # map Acc as) = Some (foldl Arrow Src as)"
      "type_of \<Gamma> T (foldl Arrow Src as) = Some t"
    using assms(2) core_arrow_eq [of Src as] walk_types [OF w] a by (simp_all add: as_eq)
  have r: "rd Probe_read_kernel addr (length (stack (size_of t))) (stack (size_of t)) = (0, mem_load m addr (size_of t))"
    using assms(4,6) by (simp add: reads_def)
  show ?thesis
    using ty r read_into_follows [OF assms(1) _ _ assms(5), of rd CORE_READ_INTO "stack (size_of t)"]
      read_into_follows [OF assms(1) _ _ assms(5), of rd PROBE_READ_INTO "stack (size_of t)"] assms(2,3)
    by (simp add: BPF_CORE_READ_def BPF_PROBE_READ_def read_value_def)
qed

section \<open>Properties\<close>

text \<open>C38: \<open>BPF_CORE_READ(s, a, b, ...)\<close> yields \<open>s->a->b->...\<close>. For up to nine accessors of which each
  fits the type before it, if the helper can read the places on the way and the object, the macro and
  its variant without relocations yield the bytes of the object the C expression denotes, whatever
  else is on the stack and in memory.\<close>

theorem core_read_follows_pointers:
  assumes "lvalue \<Gamma> m T src as = Some (addr, t)" and "length as \<le> 9"
    and "\<forall>i<length as - 1. reads rd Probe_read_kernel m (read_places \<Gamma> m T src as ! i)"
    and "reads rd Probe_read_kernel m (addr, size_of t)"
    and "length junk = 8" and "length (stack (size_of t)) = size_of t"
  shows "BPF_CORE_READ \<Gamma> T rd junk stack src as = Some (mem_load m addr (size_of t)) \<and>
    BPF_PROBE_READ \<Gamma> T rd junk stack src as = Some (mem_load m addr (size_of t))"
  using assms by (rule core_read_follows)

text \<open>\<open>struct list_head\<close> of vmlinux.h, two of them in memory, and a kernel that reads everything.\<close>

definition list_head_fields :: "string fields" where
  "list_head_fields s a = (if s = ''list_head'' \<and> a = ''next'' then Some (0, Ptr_type ''list_head'')
     else if s = ''list_head'' \<and> a = ''prev'' then Some (8, Ptr_type ''list_head'') else None)"

definition two_heads :: "u64 \<Rightarrow> u8" where
  "two_heads a = (if a = 0x1001 then 0x20 else if a = 0x2009 then 0x30 else 0)"

definition sample_reader :: reader where
  "sample_reader h a n old = (0, mem_load two_heads a n)"

lemma sample_reads [simp]: "reads sample_reader h two_heads pl"
  by (simp add: reads_def sample_reader_def)

lemma mem_load_8: "mem_load m a 8 = [m a, m (a + 1), m (a + 2), m (a + 3), m (a + 4), m (a + 5), m (a + 6), m (a + 7)]"
  by (simp add: mem_load_def upt_conv_Cons)

theorem core_read_follows_pointers_witness:
  "BPF_CORE_READ list_head_fields (Ptr_type ''list_head'') sample_reader (replicate 8 0xFF)
      (\<lambda>n. replicate n 0xFF) 0x1000 [''next'', ''prev''] = Some [0, 0x30, 0, 0, 0, 0, 0, 0]"
proof -
  have l: "as_pointer (mem_load two_heads 0x1000 8) = 0x2000" "mem_load two_heads 0x2008 8 = [0, 0x30, 0, 0, 0, 0, 0, 0]"
    by (simp_all add: mem_load_8 two_heads_def as_pointer_def)
  have lv: "lvalue list_head_fields two_heads (Ptr_type ''list_head'') 0x1000 [''next'', ''prev''] =
      Some (0x2008, Ptr_type ''list_head'')"
    using l by (simp add: list_head_fields_def)
  show ?thesis
    using core_read_follows_pointers [OF lv, of sample_reader "replicate 8 0xFF" "\<lambda>n. replicate n 0xFF"] l by simp
qed

text \<open>The limits: \<open>BPF_CORE_READ\<close> takes nine accessors, the variants into given storage take ten.\<close>

theorem core_read_limits:
  "(9 < length as \<longrightarrow> read_value M \<Gamma> T rd junk stack src as = None) \<and>
   (10 < length as \<longrightarrow> read_into M \<Gamma> T rd junk old src as = None)"
  using core_arrow_eq [of Src as] core_read_expands [of "fst (read_fns M)" "snd (read_fns M)" as]
  by (simp add: read_value_def read_into_def)

theorem core_read_limits_witness:
  "read_value CORE_READ_INTO list_head_fields (Ptr_type ''list_head'') sample_reader [] (\<lambda>_. []) 0
     (replicate 10 ''next'') = None"
  using core_read_limits [of "replicate 10 ''next''"] by simp

section \<open>Bit fields\<close>

text \<open>The facts on a field that \<open>__CORE_RELO\<close> asks for, which the loader fills in.\<close>

record field_relo =
  BYTE_OFFSET :: nat
  BYTE_SIZE :: nat
  SIGNED :: bool
  LSHIFT_U64 :: nat
  RSHIFT_U64 :: nat

definition shift_out :: "field_relo \<Rightarrow> u64 \<Rightarrow> u64" where
  "shift_out r val = (let val = push_bit (LSHIFT_U64 r) val in
     if SIGNED r then signed_drop_bit (RSHIFT_U64 r) val else drop_bit (RSHIFT_U64 r) val)"

text \<open>
  An unsigned integer of some bytes, in the byte order of the target (\<open>big\<close>), and the bytes of
  \<open>unsigned long long val = 0\<close> once some have been stored: \<open>__CORE_BITFIELD_PROBE_READ\<close> has the helper fill
  the first ones, or in big-endian order the last ones.
\<close>

definition uint_of :: "bool \<Rightarrow> u8 list \<Rightarrow> u64" where
  "uint_of big bs = of_nat (le_dec (if big then rev bs else bs))"

definition probed_val :: "bool \<Rightarrow> u8 list \<Rightarrow> u8 list" where
  "probed_val big bs = (if big then replicate (8 - length bs) 0 @ bs else bs @ replicate (8 - length bs) 0)"

text \<open>With the helper: a size above 8 would write past \<open>val\<close>. The macro yields \<open>val\<close>, and drops the code.\<close>

definition BPF_CORE_READ_BITFIELD_PROBED :: "bool \<Rightarrow> field_relo \<Rightarrow> reader \<Rightarrow> u64 \<Rightarrow> u64 option" where
  "BPF_CORE_READ_BITFIELD_PROBED big r rd s =
     (if 8 < BYTE_SIZE r then None
      else case rd Probe_read_kernel (s + of_nat (BYTE_OFFSET r)) (BYTE_SIZE r) (replicate (BYTE_SIZE r) 0) of
        (rc, bs) \<Rightarrow> Some (shift_out r (uint_of big (probed_val big bs))))"

text \<open>With direct reads: \<open>val\<close> has no value when the size is none of the four.\<close>

definition BPF_CORE_READ_BITFIELD :: "bool \<Rightarrow> field_relo \<Rightarrow> (u64 \<Rightarrow> u8) \<Rightarrow> u64 \<Rightarrow> u64 option" where
  "BPF_CORE_READ_BITFIELD big r m s = do {
     let p = s + of_nat (BYTE_OFFSET r);
     val \<leftarrow> (if BYTE_SIZE r = 1 then Some (uint_of big (mem_load m p 1))
       else if BYTE_SIZE r = 2 then Some (uint_of big (mem_load m p 2))
       else if BYTE_SIZE r = 4 then Some (uint_of big (mem_load m p 4))
       else if BYTE_SIZE r = 8 then Some (uint_of big (mem_load m p 8))
       else None);
     Some (shift_out r val)
   }"

text \<open>Documented: the facts describe a field of \<open>w\<close> bits at bit \<open>pos\<close> of the integer that holds it.\<close>

definition describes :: "field_relo \<Rightarrow> nat \<Rightarrow> nat \<Rightarrow> bool" where
  "describes r pos w \<longleftrightarrow> BYTE_SIZE r \<in> {1, 2, 4, 8} \<and> 0 < w \<and> pos + w \<le> 8 * BYTE_SIZE r \<and>
     LSHIFT_U64 r = 64 - (pos + w) \<and> RSHIFT_U64 r = 64 - w"

definition field_bits :: "bool \<Rightarrow> nat \<Rightarrow> nat \<Rightarrow> u64 \<Rightarrow> u64" where
  "field_bits neg pos w x = (let b = drop_bit pos x in if neg then signed_take_bit (w - 1) b else take_bit w b)"

lemma extract_field:
  assumes "0 < w" and "pos + w \<le> 64" and "LSHIFT_U64 r = 64 - (pos + w)" and "RSHIFT_U64 r = 64 - w"
  shows "shift_out r x = field_bits (SIGNED r) pos w x"
proof (rule bit_word_eqI)
  fix i assume i: "i < LENGTH(64)"
  show "bit (shift_out r x) i = bit (field_bits (SIGNED r) pos w x) i"
  proof (cases "SIGNED r")
    case True
    show ?thesis
    proof (cases "i < w")
      case low: True
      then have "min (w - 1) i = i" using assms(1) by simp
      with low True i assms show ?thesis
        by (auto simp: shift_out_def field_bits_def bit_simps ac_simps)
    next
      case high: False
      then have "min (w - 1) i = w - 1" by simp
      with high True i assms show ?thesis
        by (auto simp: shift_out_def field_bits_def bit_simps ac_simps)
    qed
  next
    case False
    with i assms show ?thesis by (auto simp: shift_out_def field_bits_def bit_simps ac_simps)
  qed
qed

lemma le_dec_append_zeros: "le_dec (bs @ replicate n 0) = le_dec bs"
  by (induction bs) simp_all

lemma uint_of_probed: "uint_of big (probed_val big bs) = uint_of big bs"
  by (simp add: uint_of_def probed_val_def le_dec_append_zeros)

lemma bitfield_bits_of:
  assumes "describes r pos w"
  shows "BPF_CORE_READ_BITFIELD big r m s = Some (field_bits (SIGNED r) pos w
      (uint_of big (mem_load m (s + of_nat (BYTE_OFFSET r)) (BYTE_SIZE r))))"
    and "BPF_CORE_READ_BITFIELD_PROBED big r rd s = Some (field_bits (SIGNED r) pos w
      (uint_of big (snd (rd Probe_read_kernel (s + of_nat (BYTE_OFFSET r)) (BYTE_SIZE r) (replicate (BYTE_SIZE r) 0)))))"
proof -
  have "pos + w \<le> 64" "BYTE_SIZE r \<le> 8" using assms by (auto simp: describes_def)
  note e = extract_field [OF _ this(1), of r] and le = this(2)
  show "BPF_CORE_READ_BITFIELD big r m s = Some (field_bits (SIGNED r) pos w
      (uint_of big (mem_load m (s + of_nat (BYTE_OFFSET r)) (BYTE_SIZE r))))"
    using assms e by (auto simp: BPF_CORE_READ_BITFIELD_def describes_def)
  show "BPF_CORE_READ_BITFIELD_PROBED big r rd s = Some (field_bits (SIGNED r) pos w
      (uint_of big (snd (rd Probe_read_kernel (s + of_nat (BYTE_OFFSET r)) (BYTE_SIZE r) (replicate (BYTE_SIZE r) 0)))))"
    using assms e le
    by (simp add: BPF_CORE_READ_BITFIELD_PROBED_def describes_def uint_of_probed split: prod.split)
qed

text \<open>A bit field is read exactly, on targets of both byte orders. If the loader's facts describe a field
  of \<open>w\<close> bits at bit \<open>pos\<close> of its integer, both macros yield those bits, extended by the sign bit when
  the field is signed and by zeros otherwise. The macro that reads through the helper yields the bits
  of whatever the helper stored, and drops its code: a failed read is not reported.\<close>

theorem bitfield_read_exact:
  assumes "describes r pos w"
  shows "BPF_CORE_READ_BITFIELD big r m s = Some (field_bits (SIGNED r) pos w
      (uint_of big (mem_load m (s + of_nat (BYTE_OFFSET r)) (BYTE_SIZE r)))) \<and>
    BPF_CORE_READ_BITFIELD_PROBED big r rd s = Some (field_bits (SIGNED r) pos w
      (uint_of big (snd (rd Probe_read_kernel (s + of_nat (BYTE_OFFSET r)) (BYTE_SIZE r) (replicate (BYTE_SIZE r) 0)))))"
  using bitfield_bits_of [OF assms] by blast

text \<open>A signed field of 3 bits at bit 4 of a byte 0x5C holds -3, in a memory of such bytes.\<close>

theorem bitfield_read_exact_witness:
  "BPF_CORE_READ_BITFIELD big \<lparr>BYTE_OFFSET = 6, BYTE_SIZE = 1, SIGNED = True, LSHIFT_U64 = 57, RSHIFT_U64 = 61\<rparr>
     (\<lambda>_. 0x5C) 0x1000 = Some (- 3)"
  using bitfield_read_exact [of "\<lparr>BYTE_OFFSET = 6, BYTE_SIZE = 1, SIGNED = True, LSHIFT_U64 = 57, RSHIFT_U64 = 61\<rparr>"
    4 3 big "\<lambda>_. 0x5C" "0x1000"]
  by (simp add: describes_def field_bits_def mem_load_def uint_of_def)

text \<open>Where the helper succeeds the two macros agree.\<close>

theorem bitfield_macros_agree:
  assumes "describes r pos w" and "reads rd Probe_read_kernel m (s + of_nat (BYTE_OFFSET r), BYTE_SIZE r)"
  shows "BPF_CORE_READ_BITFIELD_PROBED big r rd s = BPF_CORE_READ_BITFIELD big r m s"
  using bitfield_bits_of [OF assms(1)] assms(2) by (simp add: reads_def)

section \<open>Questions to the loader\<close>

text \<open>
  The other macros ask for a fact on a field, a type or an enumerator in the kernel the program will
  run on. The compiler's built-ins record the question and the loader fills in the answer: a parameter.
  An answer on a field depends on the structure and the field, however the program names them.
\<close>

datatype field_info = BPF_FIELD_BYTE_OFFSET | BPF_FIELD_BYTE_SIZE | BPF_FIELD_EXISTS | BPF_FIELD_SIGNED
  | BPF_FIELD_LSHIFT_U64 | BPF_FIELD_RSHIFT_U64

fun field_info_kind :: "field_info \<Rightarrow> nat" where
  "field_info_kind BPF_FIELD_BYTE_OFFSET = 0" | "field_info_kind BPF_FIELD_BYTE_SIZE = 1"
| "field_info_kind BPF_FIELD_EXISTS = 2" | "field_info_kind BPF_FIELD_SIGNED = 3"
| "field_info_kind BPF_FIELD_LSHIFT_U64 = 4" | "field_info_kind BPF_FIELD_RSHIFT_U64 = 5"

datatype type_id = BPF_TYPE_ID_LOCAL | BPF_TYPE_ID_TARGET

fun type_id_kind :: "type_id \<Rightarrow> nat" where
  "type_id_kind BPF_TYPE_ID_LOCAL = 0" | "type_id_kind BPF_TYPE_ID_TARGET = 1"

datatype type_info = BPF_TYPE_EXISTS | BPF_TYPE_SIZE | BPF_TYPE_MATCHES

fun type_info_kind :: "type_info \<Rightarrow> nat" where
  "type_info_kind BPF_TYPE_EXISTS = 0" | "type_info_kind BPF_TYPE_SIZE = 1" | "type_info_kind BPF_TYPE_MATCHES = 2"

datatype enum_value = BPF_ENUMVAL_EXISTS | BPF_ENUMVAL_VALUE

fun enum_value_kind :: "enum_value \<Rightarrow> nat" where
  "enum_value_kind BPF_ENUMVAL_EXISTS = 0" | "enum_value_kind BPF_ENUMVAL_VALUE = 1"

record 'a built_ins =
  preserve_field_info :: "string \<Rightarrow> 'a \<Rightarrow> nat \<Rightarrow> u32"
  btf_type_id :: "string \<Rightarrow> nat \<Rightarrow> u32"
  preserve_type_info :: "string \<Rightarrow> nat \<Rightarrow> u32"
  preserve_enum_value :: "string \<Rightarrow> string \<Rightarrow> nat \<Rightarrow> u64"

text \<open>\<open>___bpf_field_ref\<close>: the field an access names, or a structure and a field; \<open>src\<close> has type \<open>T\<close>.\<close>

datatype 'a field_arg = Access "'a cexpr" | Type_name string | Field_name 'a

fun bpf_field_ref :: "'a fields \<Rightarrow> ctype \<Rightarrow> 'a field_arg list \<Rightarrow> (string \<times> 'a) option" where
  "bpf_field_ref \<Gamma> T [Access (Arrow e a)] =
     (case type_of \<Gamma> T e of Some (Ptr_type s) \<Rightarrow> if \<Gamma> s a = None then None else Some (s, a) | _ \<Rightarrow> None)"
| "bpf_field_ref \<Gamma> T [Type_name s, Field_name a] = (if \<Gamma> s a = None then None else Some (s, a))"
| "bpf_field_ref \<Gamma> T _ = None"

definition field_question :: "field_info \<Rightarrow> 'a built_ins \<Rightarrow> 'a fields \<Rightarrow> ctype \<Rightarrow> 'a field_arg list \<Rightarrow> u32 option" where
  "field_question q B \<Gamma> T args = do {
     (s, a) \<leftarrow> bpf_field_ref \<Gamma> T args;
     Some (preserve_field_info B s a (field_info_kind q))
   }"

definition bpf_core_field_exists where "bpf_core_field_exists = field_question BPF_FIELD_EXISTS"
definition bpf_core_field_size where "bpf_core_field_size = field_question BPF_FIELD_BYTE_SIZE"
definition bpf_core_field_offset where "bpf_core_field_offset = field_question BPF_FIELD_BYTE_OFFSET"

definition bpf_core_type_id_local where "bpf_core_type_id_local B s = btf_type_id B s (type_id_kind BPF_TYPE_ID_LOCAL)"
definition bpf_core_type_id_kernel where "bpf_core_type_id_kernel B s = btf_type_id B s (type_id_kind BPF_TYPE_ID_TARGET)"
definition bpf_core_type_exists where "bpf_core_type_exists B s = preserve_type_info B s (type_info_kind BPF_TYPE_EXISTS)"
definition bpf_core_type_matches where "bpf_core_type_matches B s = preserve_type_info B s (type_info_kind BPF_TYPE_MATCHES)"
definition bpf_core_type_size where "bpf_core_type_size B s = preserve_type_info B s (type_info_kind BPF_TYPE_SIZE)"
definition bpf_core_enum_value_exists where
  "bpf_core_enum_value_exists B e v = preserve_enum_value B e v (enum_value_kind BPF_ENUMVAL_EXISTS)"
definition bpf_core_enum_value where
  "bpf_core_enum_value B e v = preserve_enum_value B e v (enum_value_kind BPF_ENUMVAL_VALUE)"

text \<open>\<open>__CORE_RELO\<close>, for all facts a bit field needs.\<close>

definition core_relo :: "'a built_ins \<Rightarrow> string \<Rightarrow> 'a \<Rightarrow> field_relo" where
  "core_relo B s a = \<lparr>BYTE_OFFSET = unat (preserve_field_info B s a (field_info_kind BPF_FIELD_BYTE_OFFSET)),
     BYTE_SIZE = unat (preserve_field_info B s a (field_info_kind BPF_FIELD_BYTE_SIZE)),
     SIGNED = (preserve_field_info B s a (field_info_kind BPF_FIELD_SIGNED) \<noteq> 0),
     LSHIFT_U64 = unat (preserve_field_info B s a (field_info_kind BPF_FIELD_LSHIFT_U64)),
     RSHIFT_U64 = unat (preserve_field_info B s a (field_info_kind BPF_FIELD_RSHIFT_U64))\<rparr>"

text \<open>The two forms of a question on a field are one: through a pointer, at the end of any chain of
  accessors, the loader is asked what it is asked by naming the structure and the field. So a program
  that has checked the size by name reads what the bit-field macros read through the pointer.\<close>

theorem field_questions_agree:
  assumes "type_of \<Gamma> T e = Some (Ptr_type s)"
  shows "field_question q B \<Gamma> T [Access (Arrow e a)] = field_question q B \<Gamma> T [Type_name s, Field_name a] \<and>
    (\<Gamma> s a \<noteq> None \<longrightarrow> bpf_core_field_size B \<Gamma> T [Type_name s, Field_name a] = Some n \<longrightarrow>
       BYTE_SIZE (core_relo B s a) = unat n)"
  using assms by (auto simp: field_question_def bpf_core_field_size_def core_relo_def)

theorem field_questions_agree_witness:
  "field_question BPF_FIELD_EXISTS B list_head_fields (Ptr_type ''list_head'')
      [Access (Arrow (Arrow Src ''next'') ''prev'')] =
    field_question BPF_FIELD_EXISTS B list_head_fields (Ptr_type ''list_head'') [Type_name ''list_head'', Field_name ''prev'']"
  using field_questions_agree [of list_head_fields "Ptr_type ''list_head''" "Arrow Src ''next''" "''list_head''"]
  by (simp add: list_head_fields_def)

end
