(* ===== verification/Registers.thy ===== *)
theory Registers
  imports Core_Read
begin

text \<open>
  bpf_tracing.h up to its argument macros: which architecture the header takes, and in which field of
  the saved registers each keeps the parameters of a function and of a system call, the result, and
  the frame, stack and instruction pointers. A field is named as the header does, by a path into the
  structure; where it lies is a parameter, except on x86, whose structure is in vmlinux.h. A register
  the header calls \<open>__unsupported__\<close> is missing.
\<close>

section \<open>The tables\<close>

text \<open>
  The type \<open>__PT_REGS_CAST\<close> gives the context; the parameters in order; those of a system call, of
  which the first is read, on two architectures, as a field of a structure of its own (\<open>r_orig\<close>); and
  if \<open>PT_REGS_SYSCALL_REGS\<close> expects the kernel to wrap system calls; and where the return address is.
\<close>

datatype ret_ip = Link_register | Ret_register | On_stack

record registers =
  r_type :: string
  r_parms :: "string list"
  r_syscall :: "string list"
  r_orig :: "string option"
  r_wrapper :: bool
  r_ret :: "string option"
  r_fp :: "string option"
  r_rc :: "string option"
  r_sp :: "string option"
  r_ip :: "string option"
  r_ret_ip :: ret_ip

definition x86_regs :: registers where
  "x86_regs = \<lparr>r_type = ''pt_regs'',
     r_parms = [''di'', ''si'', ''dx'', ''cx'', ''r8'', ''r9''],
     r_syscall = [''di'', ''si'', ''dx'', ''r10'', ''r8'', ''r9''],
     r_orig = None, r_wrapper = True,
     r_ret = Some ''sp'', r_fp = Some ''bp'', r_rc = Some ''ax'', r_sp = Some ''sp'',
       r_ip = Some ''ip'', r_ret_ip = On_stack\<rparr>"

definition i386_regs :: registers where
  "i386_regs = \<lparr>r_type = ''pt_regs'',
     r_parms = [''eax'', ''edx'', ''ecx''],
     r_syscall = [''ebx'', ''ecx'', ''edx'', ''esi'', ''edi'', ''ebp''],
     r_orig = None, r_wrapper = True,
     r_ret = Some ''esp'', r_fp = Some ''ebp'', r_rc = Some ''eax'', r_sp = Some ''esp'',
       r_ip = Some ''eip'', r_ret_ip = On_stack\<rparr>"

definition x86_64_regs :: registers where
  "x86_64_regs = \<lparr>r_type = ''pt_regs'',
     r_parms = [''rdi'', ''rsi'', ''rdx'', ''rcx'', ''r8'', ''r9''],
     r_syscall = [''rdi'', ''rsi'', ''rdx'', ''r10'', ''r8'', ''r9''],
     r_orig = None, r_wrapper = True,
     r_ret = Some ''rsp'', r_fp = Some ''rbp'', r_rc = Some ''rax'', r_sp = Some ''rsp'',
       r_ip = Some ''rip'', r_ret_ip = On_stack\<rparr>"

definition s390_regs :: registers where
  "s390_regs = \<lparr>r_type = ''user_pt_regs'',
     r_parms = [''gprs[2]'', ''gprs[3]'', ''gprs[4]'', ''gprs[5]'', ''gprs[6]''],
     r_syscall = [''orig_gpr2'', ''gprs[3]'', ''gprs[4]'', ''gprs[5]'', ''gprs[6]'', ''gprs[7]''],
     r_orig = Some ''pt_regs___s390'', r_wrapper = True,
     r_ret = Some ''gprs[14]'', r_fp = Some ''gprs[11]'', r_rc = Some ''gprs[2]'',
       r_sp = Some ''gprs[15]'', r_ip = Some ''psw.addr'', r_ret_ip = On_stack\<rparr>"

definition arm_regs :: registers where
  "arm_regs = \<lparr>r_type = ''pt_regs'',
     r_parms = [''uregs[0]'', ''uregs[1]'', ''uregs[2]'', ''uregs[3]''],
     r_syscall = [''uregs[0]'', ''uregs[1]'', ''uregs[2]'', ''uregs[3]'', ''uregs[4]'', ''uregs[5]'',
       ''uregs[6]''],
     r_orig = None, r_wrapper = True,
     r_ret = Some ''uregs[14]'', r_fp = Some ''uregs[11]'', r_rc = Some ''uregs[0]'',
       r_sp = Some ''uregs[13]'', r_ip = Some ''uregs[12]'', r_ret_ip = On_stack\<rparr>"

definition arm64_regs :: registers where
  "arm64_regs = \<lparr>r_type = ''user_pt_regs'',
     r_parms = [''regs[0]'', ''regs[1]'', ''regs[2]'', ''regs[3]'', ''regs[4]'', ''regs[5]'',
       ''regs[6]'', ''regs[7]''],
     r_syscall = [''orig_x0'', ''regs[1]'', ''regs[2]'', ''regs[3]'', ''regs[4]'', ''regs[5]''],
     r_orig = Some ''pt_regs___arm64'', r_wrapper = True,
     r_ret = Some ''regs[30]'', r_fp = Some ''regs[29]'', r_rc = Some ''regs[0]'', r_sp = Some ''sp'',
       r_ip = Some ''pc'', r_ret_ip = On_stack\<rparr>"

definition mips_regs :: registers where
  "mips_regs = \<lparr>r_type = ''pt_regs'',
     r_parms = [''regs[4]'', ''regs[5]'', ''regs[6]'', ''regs[7]'', ''regs[8]'', ''regs[9]'',
       ''regs[10]'', ''regs[11]''],
     r_syscall = [''regs[4]'', ''regs[5]'', ''regs[6]'', ''regs[7]'', ''regs[8]'', ''regs[9]''],
     r_orig = None, r_wrapper = True,
     r_ret = Some ''regs[31]'', r_fp = Some ''regs[30]'', r_rc = Some ''regs[2]'',
       r_sp = Some ''regs[29]'', r_ip = Some ''cp0_epc'', r_ret_ip = On_stack\<rparr>"

definition powerpc_regs :: "bool \<Rightarrow> registers" where
  "powerpc_regs arch64 = \<lparr>r_type = ''pt_regs'',
     r_parms = [''gpr[3]'', ''gpr[4]'', ''gpr[5]'', ''gpr[6]'', ''gpr[7]'', ''gpr[8]'', ''gpr[9]'',
       ''gpr[10]''],
     r_syscall = [''orig_gpr3'', ''gpr[4]'', ''gpr[5]'', ''gpr[6]'', ''gpr[7]'',
       ''gpr[8]''] @ (if arch64 then [] else [''gpr[9]'']),
     r_orig = None, r_wrapper = False,
     r_ret = Some ''regs[31]'', r_fp = None, r_rc = Some ''gpr[3]'', r_sp = Some ''sp'',
       r_ip = Some ''nip'', r_ret_ip = Link_register\<rparr>"

definition sparc_regs :: "bool \<Rightarrow> registers" where
  "sparc_regs arch64 = \<lparr>r_type = ''pt_regs'',
     r_parms = [''u_regs[UREG_I0]'', ''u_regs[UREG_I1]'', ''u_regs[UREG_I2]'', ''u_regs[UREG_I3]'',
       ''u_regs[UREG_I4]'', ''u_regs[UREG_I5]''],
     r_syscall = [''u_regs[UREG_I0]'', ''u_regs[UREG_I1]'', ''u_regs[UREG_I2]'', ''u_regs[UREG_I3]'',
       ''u_regs[UREG_I4]'', ''u_regs[UREG_I5]''],
     r_orig = None, r_wrapper = True,
     r_ret = Some ''u_regs[UREG_I7]'', r_fp = None, r_rc = Some ''u_regs[UREG_I0]'',
       r_sp = Some ''u_regs[UREG_FP]'',
     r_ip = Some (if arch64 then ''tpc'' else ''pc''), r_ret_ip = Ret_register\<rparr>"

definition riscv_regs :: registers where
  "riscv_regs = \<lparr>r_type = ''user_regs_struct'',
     r_parms = [''a0'', ''a1'', ''a2'', ''a3'', ''a4'', ''a5'', ''a6'', ''a7''],
     r_syscall = [''a0'', ''a1'', ''a2'', ''a3'', ''a4'', ''a5''],
     r_orig = None, r_wrapper = True,
     r_ret = Some ''ra'', r_fp = Some ''s0'', r_rc = Some ''a0'', r_sp = Some ''sp'',
       r_ip = Some ''pc'', r_ret_ip = On_stack\<rparr>"

definition arc_regs :: registers where
  "arc_regs = \<lparr>r_type = ''user_regs_struct'',
     r_parms = [''scratch.r0'', ''scratch.r1'', ''scratch.r2'', ''scratch.r3'', ''scratch.r4'',
       ''scratch.r5'', ''scratch.r6'', ''scratch.r7''],
     r_syscall = [''scratch.r0'', ''scratch.r1'', ''scratch.r2'', ''scratch.r3'', ''scratch.r4'',
       ''scratch.r5''],
     r_orig = None, r_wrapper = False,
     r_ret = Some ''scratch.blink'', r_fp = Some ''scratch.fp'', r_rc = Some ''scratch.r0'',
       r_sp = Some ''scratch.sp'', r_ip = Some ''scratch.ret'', r_ret_ip = On_stack\<rparr>"

definition loongarch_regs :: registers where
  "loongarch_regs = \<lparr>r_type = ''user_pt_regs'',
     r_parms = [''regs[4]'', ''regs[5]'', ''regs[6]'', ''regs[7]'', ''regs[8]'', ''regs[9]'',
       ''regs[10]'', ''regs[11]''],
     r_syscall = [''regs[4]'', ''regs[5]'', ''regs[6]'', ''regs[7]'', ''regs[8]'', ''regs[9]''],
     r_orig = None, r_wrapper = False,
     r_ret = Some ''regs[1]'', r_fp = Some ''regs[22]'', r_rc = Some ''regs[4]'',
       r_sp = Some ''regs[3]'', r_ip = Some ''csr_era'', r_ret_ip = On_stack\<rparr>"

section \<open>The choice of the target\<close>

text \<open>The macros that are defined where the header is read, with their values. A target the build names
  comes before the one the compiler is for.\<close>

type_synonym macros = "string \<rightharpoonup> int"

datatype target = X86 | S390 | Arm | Arm64 | Mips | Powerpc | Sparc | Riscv | Arc | Loongarch

definition named_targets :: "(string \<times> target) list" where
  "named_targets = [(''__TARGET_ARCH_x86'', X86), (''__TARGET_ARCH_s390'', S390), (''__TARGET_ARCH_arm'', Arm),
     (''__TARGET_ARCH_arm64'', Arm64), (''__TARGET_ARCH_mips'', Mips), (''__TARGET_ARCH_powerpc'', Powerpc),
     (''__TARGET_ARCH_sparc'', Sparc), (''__TARGET_ARCH_riscv'', Riscv), (''__TARGET_ARCH_arc'', Arc),
     (''__TARGET_ARCH_loongarch'', Loongarch)]"

definition compiler_targets :: "(string \<times> target) list" where
  "compiler_targets = [(''__x86_64__'', X86), (''__s390__'', S390), (''__arm__'', Arm), (''__aarch64__'', Arm64),
     (''__mips__'', Mips), (''__powerpc__'', Powerpc), (''__sparc__'', Sparc), (''__riscv'', Riscv),
     (''__arc__'', Arc), (''__loongarch__'', Loongarch)]"

fun first_target :: "(string \<Rightarrow> bool) \<Rightarrow> (string \<times> target) list \<Rightarrow> target option" where
  "first_target holds [] = None"
| "first_target holds ((n, t) # nts) = (if holds n then Some t else first_target holds nts)"

definition bpf_target :: "macros \<Rightarrow> target option" where
  "bpf_target d = (case first_target (\<lambda>n. d n \<noteq> None) named_targets of
     Some t \<Rightarrow> Some t
   | None \<Rightarrow> first_target (\<lambda>n. d n \<noteq> None \<and> (n = ''__riscv'' \<longrightarrow> d ''__riscv_xlen'' = Some 64)) compiler_targets)"

definition table_for :: "macros \<Rightarrow> target \<Rightarrow> registers" where
  "table_for d t = (case t of
     X86 \<Rightarrow> if d ''__KERNEL__'' \<noteq> None \<or> d ''__VMLINUX_H__'' \<noteq> None then x86_regs
       else if d ''__i386__'' \<noteq> None then i386_regs else x86_64_regs
   | S390 \<Rightarrow> s390_regs | Arm \<Rightarrow> arm_regs | Arm64 \<Rightarrow> arm64_regs | Mips \<Rightarrow> mips_regs
   | Powerpc \<Rightarrow> powerpc_regs (d ''__arch64__'' \<noteq> None) | Sparc \<Rightarrow> sparc_regs (d ''__arch64__'' \<noteq> None)
   | Riscv \<Rightarrow> riscv_regs | Arc \<Rightarrow> arc_regs | Loongarch \<Rightarrow> loongarch_regs)"

definition target_regs :: "macros \<Rightarrow> registers option" where
  "target_regs d = map_option (table_for d) (bpf_target d)"

section \<open>Access to the registers\<close>

text \<open>
  \<open>PT_REGS_PARMn(x)\<close> and its like access the field directly, \<open>PT_REGS_PARMn_CORE(x)\<close> go through the
  helper; \<open>x\<close> is the address of the registers in the memory \<open>m\<close>. Without a target, as with a register
  that is missing, there is no program: \<open>None\<close>.
\<close>

definition nth_reg :: "string list \<Rightarrow> nat \<Rightarrow> string option" where
  "nth_reg rs n = (if 1 \<le> n \<and> n \<le> length rs then Some (rs ! (n - 1)) else None)"

definition field_get :: "string fields \<Rightarrow> (u64 \<Rightarrow> u8) \<Rightarrow> u64 \<Rightarrow> string \<Rightarrow> string option \<Rightarrow> u64 option" where
  "field_get \<Gamma> m x s reg = do {
     r \<leftarrow> reg;
     (off, t) \<leftarrow> \<Gamma> s r;
     Some (as_pointer (mem_load m (x + of_nat off) (size_of t)))
   }"

text \<open>The local of \<open>BPF_CORE_READ\<close> and the storage hold some bytes of the stack, here zeros.\<close>

definition field_read :: "string fields \<Rightarrow> reader \<Rightarrow> u64 \<Rightarrow> string \<Rightarrow> string option \<Rightarrow> u64 option" where
  "field_read \<Gamma> rd x s reg = do {
     r \<leftarrow> reg;
     bs \<leftarrow> BPF_CORE_READ \<Gamma> (Ptr_type s) rd (replicate 8 0) (\<lambda>n. replicate n 0) x [r];
     Some (as_pointer bs)
   }"

definition PT_REGS_PARM :: "registers option \<Rightarrow> string fields \<Rightarrow> nat \<Rightarrow> (u64 \<Rightarrow> u8) \<Rightarrow> u64 \<Rightarrow> u64 option" where
  "PT_REGS_PARM T \<Gamma> n m x = do { R \<leftarrow> T; field_get \<Gamma> m x (r_type R) (nth_reg (r_parms R) n) }"

definition PT_REGS_RET where "PT_REGS_RET T \<Gamma> m x = do { R \<leftarrow> T; field_get \<Gamma> m x (r_type R) (r_ret R) }"
definition PT_REGS_FP where "PT_REGS_FP T \<Gamma> m x = do { R \<leftarrow> T; field_get \<Gamma> m x (r_type R) (r_fp R) }"
definition PT_REGS_RC where "PT_REGS_RC T \<Gamma> m x = do { R \<leftarrow> T; field_get \<Gamma> m x (r_type R) (r_rc R) }"
definition PT_REGS_SP where "PT_REGS_SP T \<Gamma> m x = do { R \<leftarrow> T; field_get \<Gamma> m x (r_type R) (r_sp R) }"
definition PT_REGS_IP where "PT_REGS_IP T \<Gamma> m x = do { R \<leftarrow> T; field_get \<Gamma> m x (r_type R) (r_ip R) }"

definition PT_REGS_PARM_CORE :: "registers option \<Rightarrow> string fields \<Rightarrow> nat \<Rightarrow> reader \<Rightarrow> u64 \<Rightarrow> u64 option" where
  "PT_REGS_PARM_CORE T \<Gamma> n rd x = do { R \<leftarrow> T; field_read \<Gamma> rd x (r_type R) (nth_reg (r_parms R) n) }"

definition PT_REGS_RET_CORE where "PT_REGS_RET_CORE T \<Gamma> rd x = do { R \<leftarrow> T; field_read \<Gamma> rd x (r_type R) (r_ret R) }"
definition PT_REGS_FP_CORE where "PT_REGS_FP_CORE T \<Gamma> rd x = do { R \<leftarrow> T; field_read \<Gamma> rd x (r_type R) (r_fp R) }"
definition PT_REGS_RC_CORE where "PT_REGS_RC_CORE T \<Gamma> rd x = do { R \<leftarrow> T; field_read \<Gamma> rd x (r_type R) (r_rc R) }"
definition PT_REGS_SP_CORE where "PT_REGS_SP_CORE T \<Gamma> rd x = do { R \<leftarrow> T; field_read \<Gamma> rd x (r_type R) (r_sp R) }"
definition PT_REGS_IP_CORE where "PT_REGS_IP_CORE T \<Gamma> rd x = do { R \<leftarrow> T; field_read \<Gamma> rd x (r_type R) (r_ip R) }"

text \<open>The first parameter of a system call may be in a structure of its own, and is then read through the
  helper in both forms.\<close>

definition syscall_type :: "registers \<Rightarrow> nat \<Rightarrow> string" where
  "syscall_type R n = (if n = 1 \<and> r_orig R \<noteq> None then the (r_orig R) else r_type R)"

definition PT_REGS_PARM_CORE_SYSCALL :: "registers option \<Rightarrow> string fields \<Rightarrow> nat \<Rightarrow> reader \<Rightarrow> u64 \<Rightarrow> u64 option" where
  "PT_REGS_PARM_CORE_SYSCALL T \<Gamma> n rd x = do {
     R \<leftarrow> T;
     field_read \<Gamma> rd x (syscall_type R n) (nth_reg (r_syscall R) n)
   }"

definition PT_REGS_PARM_SYSCALL ::
  "registers option \<Rightarrow> string fields \<Rightarrow> nat \<Rightarrow> reader \<Rightarrow> (u64 \<Rightarrow> u8) \<Rightarrow> u64 \<Rightarrow> u64 option" where
  "PT_REGS_PARM_SYSCALL T \<Gamma> n rd m x = do {
     R \<leftarrow> T;
     if n = 1 \<and> r_orig R \<noteq> None then PT_REGS_PARM_CORE_SYSCALL T \<Gamma> n rd x
     else field_get \<Gamma> m x (r_type R) (nth_reg (r_syscall R) n)
   }"

definition PT_REGS_SYSCALL_REGS :: "registers option \<Rightarrow> string fields \<Rightarrow> (u64 \<Rightarrow> u8) \<Rightarrow> u64 \<Rightarrow> u64 option" where
  "PT_REGS_SYSCALL_REGS T \<Gamma> m x = do { R \<leftarrow> T; if r_wrapper R then PT_REGS_PARM T \<Gamma> 1 m x else Some x }"

text \<open>The return address is put into a variable of the program, whose bytes are \<open>old\<close> before.\<close>

definition BPF_KPROBE_READ_RET_IP ::
  "registers option \<Rightarrow> string fields \<Rightarrow> reader \<Rightarrow> (u64 \<Rightarrow> u8) \<Rightarrow> u64 \<Rightarrow> u8 list \<Rightarrow> u8 list option" where
  "BPF_KPROBE_READ_RET_IP T \<Gamma> rd m x old = do {
     R \<leftarrow> T;
     (case r_ret_ip R of
        Link_register \<Rightarrow> do { v \<leftarrow> field_get \<Gamma> m x ''pt_regs'' (Some ''link''); Some (le_enc (length old) (unat v)) }
      | Ret_register \<Rightarrow> do { v \<leftarrow> PT_REGS_RET T \<Gamma> m x; Some (le_enc (length old) (unat v)) }
      | On_stack \<Rightarrow> do { p \<leftarrow> PT_REGS_RET T \<Gamma> m x; Some (snd (rd Probe_read_kernel p (length old) old)) })
   }"

definition BPF_KRETPROBE_READ_RET_IP ::
  "registers option \<Rightarrow> string fields \<Rightarrow> reader \<Rightarrow> (u64 \<Rightarrow> u8) \<Rightarrow> u64 \<Rightarrow> u8 list \<Rightarrow> u8 list option" where
  "BPF_KRETPROBE_READ_RET_IP T \<Gamma> rd m x old = do {
     R \<leftarrow> T;
     (if r_ret_ip R = On_stack
      then do { p \<leftarrow> PT_REGS_FP T \<Gamma> m x; Some (snd (rd Probe_read_kernel (p + of_nat (length old)) (length old) old)) }
      else BPF_KPROBE_READ_RET_IP T \<Gamma> rd m x old)
   }"

section \<open>The value of a register\<close>

definition reg_value :: "string fields \<Rightarrow> (u64 \<Rightarrow> u8) \<Rightarrow> u64 \<Rightarrow> string \<Rightarrow> string \<Rightarrow> u64" where
  "reg_value \<Gamma> m x s r = (case \<Gamma> s r of
     Some (off, t) \<Rightarrow> as_pointer (mem_load m (x + of_nat off) (size_of t)) | None \<Rightarrow> 0)"

lemma field_get_value: "\<Gamma> s r \<noteq> None \<Longrightarrow> field_get \<Gamma> m x s (Some r) = Some (reg_value \<Gamma> m x s r)"
  by (auto simp: field_get_def reg_value_def)

lemma field_read_value:
  assumes "\<Gamma> s r \<noteq> None" and "\<forall>pl. reads rd Probe_read_kernel m pl"
  shows "field_read \<Gamma> rd x s (Some r) = Some (reg_value \<Gamma> m x s r)"
proof -
  obtain off t where f: "\<Gamma> s r = Some (off, t)" using assms(1) by auto
  then have "lvalue \<Gamma> m (Ptr_type s) x [r] = Some (x + of_nat off, t)" by simp
  from core_read_follows [OF this, of rd "replicate 8 0" "\<lambda>n. replicate n 0"] assms(2) f
  show ?thesis by (simp add: field_read_def reg_value_def)
qed

text \<open>The tables make sense: on every target, whatever is defined, a function has three to eight parameters
  in registers and a system call six or seven, all of them different; and there is a register for the
  result, the stack and the instruction. No target is found unless the build or the compiler names one.\<close>

definition table_ok :: "registers \<Rightarrow> bool" where
  "table_ok R \<longleftrightarrow> distinct (r_parms R) \<and> 3 \<le> length (r_parms R) \<and> length (r_parms R) \<le> 8 \<and>
     distinct (r_syscall R) \<and> length (r_syscall R) \<in> {6, 7} \<and> r_rc R \<noteq> None \<and> r_sp R \<noteq> None \<and> r_ip R \<noteq> None"

lemma tables_ok:
  "list_all table_ok [x86_regs, i386_regs, x86_64_regs, s390_regs, arm_regs, arm64_regs, mips_regs,
     powerpc_regs False, powerpc_regs True, sparc_regs False, sparc_regs True, riscv_regs, arc_regs, loongarch_regs]"
  by code_simp

lemma table_for_ok: "table_ok (table_for d t)"
proof -
  have "table_ok (powerpc_regs b)" "table_ok (sparc_regs b)" for b using tables_ok by (cases b; simp)+
  then show ?thesis using tables_ok by (cases t) (simp_all add: table_for_def)
qed

lemma target_regs_ok: "target_regs d = Some R \<Longrightarrow> table_ok R"
  using table_for_ok by (auto simp: target_regs_def)

lemma no_target: "(\<And>n. n \<in> fst ` set (named_targets @ compiler_targets) \<Longrightarrow> d n = None) \<Longrightarrow> target_regs d = None"
  by (simp add: target_regs_def bpf_target_def named_targets_def compiler_targets_def)

end
