(* ===== verification/Tracing.thy ===== *)
theory Tracing
  imports Macros Registers
begin

text \<open>
  bpf_tracing.h: the macros that declare a program as if it were the function it traces. Each generates
  a call of the program's body with the arguments fetched from the context; here the macro is that list
  of arguments, after the context, and a declaration that does not compile is \<open>None\<close>. Where the
  registers are is the matter of Registers; for x86 the structure is that of vmlinux.h.
\<close>

section \<open>Lists of arguments\<close>

text \<open>
  \<open>___bpf_ctx_cast\<close>, \<open>___bpf_kprobe_args\<close>, \<open>___bpf_kretprobe_args\<close>, \<open>___bpf_syscall_args\<close> and
  \<open>___bpf_syswrap_args\<close> have one form: the macro for \<open>n\<close> names drops the first name, expands the one
  for \<open>n - 1\<close>, and appends the \<open>n\<close>-th value. They differ in the value and in the last \<open>n\<close> there is.
\<close>

fun args_n :: "nat \<Rightarrow> (nat \<Rightarrow> 'v option) \<Rightarrow> nat \<Rightarrow> 'a list \<Rightarrow> 'v list option" where
  "args_n limit get 0 [] = Some []"
| "args_n limit get (Suc n) (x # args) = (if limit < Suc n then None else do {
     vs \<leftarrow> args_n limit get n args;
     v \<leftarrow> get (Suc n);
     Some (vs @ [v])
   })"
| "args_n limit get _ _ = None"

definition bpf_args :: "nat \<Rightarrow> (nat \<Rightarrow> 'v option) \<Rightarrow> 'a list \<Rightarrow> 'v list option" where
  "bpf_args limit get args = (case bpf_narg args of Some (Count n) \<Rightarrow> args_n limit get n args | _ \<Rightarrow> None)"

definition BPF_PROG :: "(nat \<Rightarrow> u64) \<Rightarrow> 'a list \<Rightarrow> u64 list option" where
  "BPF_PROG ctx args = bpf_args 12 (\<lambda>n. Some (ctx (n - 1))) args"

definition BPF_KPROBE ::
  "registers option \<Rightarrow> string fields \<Rightarrow> (u64 \<Rightarrow> u8) \<Rightarrow> u64 \<Rightarrow> 'a list \<Rightarrow> u64 list option" where
  "BPF_KPROBE T \<Gamma> m ctx args = bpf_args 8 (\<lambda>n. PT_REGS_PARM T \<Gamma> n m ctx) args"

definition BPF_KRETPROBE ::
  "registers option \<Rightarrow> string fields \<Rightarrow> (u64 \<Rightarrow> u8) \<Rightarrow> u64 \<Rightarrow> 'a list \<Rightarrow> u64 list option" where
  "BPF_KRETPROBE T \<Gamma> m ctx args = bpf_args 1 (\<lambda>n. PT_REGS_RC T \<Gamma> m ctx) args"

definition BPF_UPROBE where "BPF_UPROBE = BPF_KPROBE"
definition BPF_URETPROBE where "BPF_URETPROBE = BPF_KRETPROBE"

text \<open>The registers of a system call are behind the first parameter, if the kernel wraps system calls,
  and are then read through the helper. Both calls are compiled.\<close>

definition BPF_KSYSCALL ::
  "registers option \<Rightarrow> string fields \<Rightarrow> bool \<Rightarrow> reader \<Rightarrow> (u64 \<Rightarrow> u8) \<Rightarrow> u64 \<Rightarrow> 'a list \<Rightarrow> u64 list option" where
  "BPF_KSYSCALL T \<Gamma> has_wrapper rd m ctx args = do {
     p \<leftarrow> PT_REGS_PARM T \<Gamma> 1 m ctx;
     let regs = (if has_wrapper then p else ctx);
     wrapped \<leftarrow> bpf_args 7 (\<lambda>n. PT_REGS_PARM_CORE_SYSCALL T \<Gamma> n rd regs) args;
     direct \<leftarrow> bpf_args 7 (\<lambda>n. PT_REGS_PARM_SYSCALL T \<Gamma> n rd m regs) args;
     Some (if has_wrapper then wrapped else direct)
   }"

definition BPF_KPROBE_SYSCALL where "BPF_KPROBE_SYSCALL = BPF_KSYSCALL"

section \<open>What the macros pass\<close>

lemma args_n_eq:
  "length args = n \<Longrightarrow> n \<le> limit \<Longrightarrow> (\<And>i. 1 \<le> i \<Longrightarrow> i \<le> n \<Longrightarrow> get i = Some (v i)) \<Longrightarrow>
     args_n limit get n args = Some (map v [1..<Suc n])"
proof (induction n arbitrary: args)
  case (Suc n)
  obtain x xs where "args = x # xs" using Suc.prems(1) by (cases args) auto
  then show ?case using Suc by simp
qed simp

lemma args_n_None: "args_n limit get n args = None" if "length args = n" "1 \<le> i" "i \<le> n" "get i = None"
  using that
proof (induction n arbitrary: args)
  case (Suc n)
  obtain x xs where "args = x # xs" using Suc.prems(1) by (cases args) auto
  then show ?case using Suc by (cases "i = Suc n") auto
qed simp

lemma args_n_limit: "limit < n \<Longrightarrow> args_n limit get n args = None"
  by (cases n; cases args) auto

lemma bpf_args_eq: "bpf_args limit get args =
    (if length args \<le> 12 then args_n limit get (length args) args else None)"
  by (simp add: bpf_args_def bpf_narg_eq)

section \<open>Structure arguments\<close>

text \<open>
  \<open>BPF_PROG2\<close> is given types and names in turn; a type matters by its size here, so an argument list
  is a list of sizes. \<open>___bpf_narg2\<close> counts the pairs.
\<close>

definition narg2_counts :: "'a Macros.token list" where
  "narg2_counts = [Count 12, Count 12, Count 11, Count 11, Count 10, Count 10, Count 9, Count 9, Count 8,
     Count 8, Count 7, Count 7, Count 6, Count 6, Count 5, Count 5, Count 4, Count 4, Count 3, Count 3,
     Count 2, Count 2, Count 1, Count 1, Count 0]"

definition bpf_nth2 :: "'a Macros.token list \<Rightarrow> 'a Macros.token option" where
  "bpf_nth2 ts = (if 25 < length ts then Some (ts ! 25) else None)"

definition bpf_narg2 :: "'a list \<Rightarrow> 'a Macros.token option" where
  "bpf_narg2 args = bpf_nth2 (Underscore # map Arg args @ narg2_counts)"

definition treg_cnt :: "nat \<Rightarrow> nat option" where
  "treg_cnt sz = (if sz \<in> {1, 2, 4, 8} then Some 1 else if sz = 16 then Some 2 else None)"

text \<open>\<open>___bpf_reg_cnt0\<close> to \<open>___bpf_reg_cnt12\<close>.\<close>

fun reg_cnt :: "nat list \<Rightarrow> nat option" where
  "reg_cnt [] = Some 0"
| "reg_cnt (t # ts) = do { n \<leftarrow> reg_cnt ts; k \<leftarrow> treg_cnt t; Some (n + k) }"

text \<open>\<open>___bpf_union_arg\<close>: an array of integers as large as the type, or of two words, filled from the
  context, and its bytes taken as the argument.\<close>

definition union_arg :: "(nat \<Rightarrow> u64) \<Rightarrow> nat \<Rightarrow> nat \<Rightarrow> u8 list option" where
  "union_arg ctx sz n = (if sz \<in> {1, 2, 4, 8} then Some (le_enc sz (unat (ctx n)))
     else if sz = 16 then Some (le_enc 8 (unat (ctx n)) @ le_enc 8 (unat (ctx (n + 1)))) else None)"

text \<open>\<open>___bpf_ctx_arg0\<close> to \<open>___bpf_ctx_arg12\<close>, for the number of words of all arguments.\<close>

fun ctx_arg_n :: "(nat \<Rightarrow> u64) \<Rightarrow> nat \<Rightarrow> nat \<Rightarrow> nat list \<Rightarrow> u8 list list option" where
  "ctx_arg_n ctx 0 n [] = Some []"
| "ctx_arg_n ctx (Suc k) n (t # ts) = (if 12 < Suc k then None else do {
     c \<leftarrow> reg_cnt (t # ts);
     a \<leftarrow> union_arg ctx t (n - c);
     as \<leftarrow> ctx_arg_n ctx k n ts;
     Some (a # as)
   })"
| "ctx_arg_n ctx _ n _ = None"

definition BPF_PROG2 :: "(nat \<Rightarrow> u64) \<Rightarrow> nat list \<Rightarrow> u8 list list option" where
  "BPF_PROG2 ctx sizes = (case bpf_narg2 (concat (map (\<lambda>sz. [sz, sz]) sizes)) of
     Some (Count k) \<Rightarrow> do { n \<leftarrow> reg_cnt sizes; ctx_arg_n ctx k n sizes }
   | _ \<Rightarrow> None)"

text \<open>What it should be: the arguments take the words of the context one after the other, each as many
  as it needs, and are the first bytes of its words.\<close>

fun from_words :: "u64 list \<Rightarrow> nat list \<Rightarrow> u8 list list" where
  "from_words ws [] = []"
| "from_words ws (sz # szs) = (let k = (if sz = 16 then 2 else 1) in
     take sz (concat (map (\<lambda>w. le_enc 8 (unat w)) (take k ws))) # from_words (drop k ws) szs)"

lemma nth_narg2_counts: "k \<le> 12 \<Longrightarrow> narg2_counts ! (24 - 2 * k) = Count k"
  by (auto simp: narg2_counts_def le_Suc_eq numeral_eq_Suc)

lemma length_narg2_counts [simp]: "length narg2_counts = 25"
  by (simp add: narg2_counts_def)

lemma length_pairs [simp]: "length (concat (map (\<lambda>sz. [sz, sz]) sizes)) = 2 * length sizes"
  by (induction sizes) simp_all

lemma bpf_narg2_eq:
  assumes "length sizes \<le> 12"
  shows "bpf_narg2 (concat (map (\<lambda>sz. [sz, sz]) sizes)) = Some (Count (length sizes))"
proof -
  have "bpf_narg2 (concat (map (\<lambda>sz. [sz, sz]) sizes)) = Some (narg2_counts ! (24 - 2 * length sizes))"
    using assms by (simp add: bpf_narg2_def bpf_nth2_def nth_append)
  then show ?thesis using nth_narg2_counts [OF assms] by simp
qed

lemma bpf_narg2_many:
  assumes "12 < length sizes"
  shows "\<exists>a. bpf_narg2 (concat (map (\<lambda>sz. [sz, sz]) sizes)) = Some (Arg a)"
proof -
  let ?args = "concat (map (\<lambda>sz. [sz, sz]) sizes)"
  have "24 < length ?args" using assms by simp
  then have "(map Arg ?args @ narg2_counts) ! 24 = Arg (?args ! 24)" by (simp add: nth_append del: length_pairs)
  with \<open>24 < length ?args\<close> show ?thesis
    by (simp add: bpf_narg2_def bpf_nth2_def narg2_counts_def del: length_pairs)
qed

lemma le_enc_take: "n \<le> m \<Longrightarrow> take n (le_enc m x) = le_enc n x"
proof (induction n arbitrary: m x)
  case (Suc n)
  then show ?case by (cases m) simp_all
qed simp

definition passable :: "nat \<Rightarrow> bool" where
  "passable sz \<longleftrightarrow> sz \<in> {1, 2, 4, 8, 16}"

lemma reg_cnt_eq:
  "reg_cnt szs = (if \<forall>sz\<in>set szs. passable sz then Some (sum_list (map (\<lambda>sz. if sz = 16 then 2 else 1) szs)) else None)"
  by (induction szs) (auto simp: passable_def treg_cnt_def)

lemma union_arg_words:
  assumes "passable sz"
  shows "union_arg ctx sz n = Some (take sz (concat (map (\<lambda>w. le_enc 8 (unat w))
    (map ctx [n..<n + (if sz = 16 then 2 else 1)]))))"
  using assms by (auto simp: union_arg_def passable_def le_enc_take upt_rec)

lemma ctx_arg_n_eq:
  assumes "\<forall>sz\<in>set szs. passable sz" and "length szs \<le> 12" and "reg_cnt szs = Some r" and "r \<le> n"
  shows "ctx_arg_n ctx (length szs) n szs = Some (from_words (map ctx [n - r..<n]) szs)"
  using assms
proof (induction szs arbitrary: r)
  case (Cons sz szs)
  let ?k = "if sz = 16 then 2 else 1 :: nat"
  have all: "passable sz" "\<forall>sz\<in>set szs. passable sz" using Cons.prems(1) by auto
  obtain q where q: "reg_cnt szs = Some q" "r = q + ?k"
    using Cons.prems(3) all by (auto simp: reg_cnt_eq split: if_splits)
  have IH: "ctx_arg_n ctx (length szs) n szs = Some (from_words (map ctx [n - q..<n]) szs)"
    using Cons.IH [OF all(2) _ q(1)] Cons.prems(2,4) q(2) by simp
  have k: "n - r + ?k = n - q" "n - q \<le> n" using Cons.prems(4) q(2) by auto
  then have "[n - r..<n] = [n - r..<n - r + ?k] @ [n - q..<n]"
    using upt_add_eq_append [of "n - r" "n - q" q] Cons.prems(4) q(2) by simp
  then have w: "take ?k (map ctx [n - r..<n]) = map ctx [n - r..<n - r + ?k]"
      "drop ?k (map ctx [n - r..<n]) = map ctx [n - q..<n]"
    by simp_all
  show ?case
    using Cons.prems(2,3) IH union_arg_words [OF all(1), of ctx "n - r"]
    by (simp only: ctx_arg_n.simps list.size from_words.simps w Let_def) simp
qed simp

section \<open>Every target\<close>

text \<open>A list of arguments whose values are those of a list of registers, as many as there are.\<close>

lemma bpf_args_regs:
  assumes "length ws \<le> limit" and "limit \<le> 12" and "length ws < limit \<Longrightarrow> get (Suc (length ws)) = None"
    and "\<And>n. 1 \<le> n \<Longrightarrow> n \<le> length ws \<Longrightarrow> get n = Some (f n (ws ! (n - 1)))"
  shows "bpf_args limit get args = (if length args \<le> length ws
    then Some (map (\<lambda>n. f n (ws ! (n - 1))) [1..<Suc (length args)]) else None)"
proof (cases "length args \<le> length ws")
  case True
  have "args_n limit get (length args) args = Some (map (\<lambda>n. f n (ws ! (n - 1))) [1..<Suc (length args)])"
    using True assms(1,4) by (intro args_n_eq) auto
  with True assms(1,2) show ?thesis by (simp add: bpf_args_eq del: upt_Suc)
next
  case False
  have "args_n limit get (length args) args = None"
  proof (cases "length ws < limit")
    case True
    with False assms(3) show ?thesis by (intro args_n_None [where i = "Suc (length ws)"]) auto
  next
    case over: False
    with False assms(1) show ?thesis by (intro args_n_limit) simp
  qed
  with False show ?thesis by (simp add: bpf_args_eq)
qed

lemma map_nth_upto: "k \<le> length ws \<Longrightarrow> map (\<lambda>n. f (ws ! (n - 1))) [1..<Suc k] = map f (take k ws)"
  by (intro nth_equalityI) (auto simp del: upt_Suc)

lemma nth_reg_eq: "1 \<le> n \<Longrightarrow> n \<le> length rs \<Longrightarrow> nth_reg rs n = Some (rs ! (n - 1))"
  "length rs < n \<Longrightarrow> nth_reg rs n = None"
  by (simp_all add: nth_reg_def)

text \<open>A traced program sees the parameters of the function it traces, on every target: as many as there
  are in registers there, in order, from where the target's table says; with more, it does not compile.
  Without a target only a program with no parameters compiles.\<close>

theorem kprobe_arguments_exact:
  assumes "\<And>R r. T = Some R \<Longrightarrow> r \<in> set (r_parms R) \<Longrightarrow> \<Gamma> (r_type R) r \<noteq> None"
    and "\<And>R. T = Some R \<Longrightarrow> table_ok R"
  shows "BPF_KPROBE T \<Gamma> m x args = (case T of
      None \<Rightarrow> if args = [] then Some [] else None
    | Some R \<Rightarrow> if length args \<le> length (r_parms R)
        then Some (map (reg_value \<Gamma> m x (r_type R)) (take (length args) (r_parms R))) else None)"
proof (cases T)
  case None
  then show ?thesis
    using bpf_args_regs [of "[] :: string list" 8 "\<lambda>n. PT_REGS_PARM T \<Gamma> n m x" "\<lambda>_ _. 0" args]
    by (auto simp: BPF_KPROBE_def PT_REGS_PARM_def)
next
  case (Some R)
  have "BPF_KPROBE T \<Gamma> m x args = (if length args \<le> length (r_parms R)
      then Some (map (\<lambda>n. reg_value \<Gamma> m x (r_type R) (r_parms R ! (n - 1))) [1..<Suc (length args)]) else None)"
    unfolding BPF_KPROBE_def
  proof (rule bpf_args_regs [of "r_parms R" 8])
    show "length (r_parms R) \<le> 8" using assms(2) [OF Some] by (simp add: table_ok_def)
    show "PT_REGS_PARM T \<Gamma> (Suc (length (r_parms R))) m x = None"
      by (simp add: PT_REGS_PARM_def Some nth_reg_eq field_get_def)
    show "PT_REGS_PARM T \<Gamma> n m x = Some (reg_value \<Gamma> m x (r_type R) (r_parms R ! (n - 1)))"
      if "1 \<le> n" "n \<le> length (r_parms R)" for n
      using assms(1) [OF Some, of "r_parms R ! (n - 1)"] that
      by (simp add: PT_REGS_PARM_def Some nth_reg_eq field_get_value)
  qed simp
  then show ?thesis
    using Some map_nth_upto [of "length args" "r_parms R" "reg_value \<Gamma> m x (r_type R)"]
    by (simp del: upt_Suc)
qed

text \<open>A program that traces a system call sees its arguments, whether the kernel wraps system calls or
  not, if the helper can read the registers. On two targets the first is in a structure of its own.\<close>

definition syscall_value :: "registers \<Rightarrow> string fields \<Rightarrow> (u64 \<Rightarrow> u8) \<Rightarrow> u64 \<Rightarrow> nat \<Rightarrow> u64" where
  "syscall_value R \<Gamma> m x n = reg_value \<Gamma> m x
     (syscall_type R n) (r_syscall R ! (n - 1))"

definition syscall_laid_out :: "registers \<Rightarrow> string fields \<Rightarrow> bool" where
  "syscall_laid_out R \<Gamma> \<longleftrightarrow> \<Gamma> (r_type R) (r_parms R ! 0) \<noteq> None \<and> (\<forall>n. 1 \<le> n \<longrightarrow> n \<le> length (r_syscall R) \<longrightarrow>
     \<Gamma> (syscall_type R n) (r_syscall R ! (n - 1)) \<noteq> None)"

theorem ksyscall_arguments_exact:
  assumes "table_ok R" and "syscall_laid_out R \<Gamma>" and "\<forall>pl. reads rd Probe_read_kernel m pl"
  shows "BPF_KSYSCALL (Some R) \<Gamma> has_wrapper rd m x args = (if length args \<le> length (r_syscall R)
    then Some (map (syscall_value R \<Gamma> m (if has_wrapper then reg_value \<Gamma> m x (r_type R) (r_parms R ! 0) else x))
      [1..<Suc (length args)]) else None)"
proof -
  have len: "length (r_syscall R) \<le> 7" "3 \<le> length (r_parms R)" using assms(1) by (auto simp: table_ok_def)
  have p: "PT_REGS_PARM (Some R) \<Gamma> 1 m x = Some (reg_value \<Gamma> m x (r_type R) (r_parms R ! 0))"
    using assms(2) len(2) nth_reg_eq(1) [of 1 "r_parms R"]
    by (simp add: PT_REGS_PARM_def syscall_laid_out_def field_get_value)
  have core: "PT_REGS_PARM_CORE_SYSCALL (Some R) \<Gamma> n rd y = Some (syscall_value R \<Gamma> m y n)"
    if "1 \<le> n" "n \<le> length (r_syscall R)" for n y
    using assms(2,3) that
    by (simp add: PT_REGS_PARM_CORE_SYSCALL_def syscall_laid_out_def syscall_value_def nth_reg_eq field_read_value)
  have direct: "PT_REGS_PARM_SYSCALL (Some R) \<Gamma> n rd m y = Some (syscall_value R \<Gamma> m y n)"
    if "1 \<le> n" "n \<le> length (r_syscall R)" for n y
  proof (cases "n = 1 \<and> r_orig R \<noteq> None")
    case False
    then have ty: "syscall_type R n = r_type R" by (auto simp: syscall_type_def)
    have "\<Gamma> (r_type R) (r_syscall R ! (n - 1)) \<noteq> None"
      using assms(2) that unfolding syscall_laid_out_def ty [symmetric] by blast
    with False ty that show ?thesis
      by (auto simp: PT_REGS_PARM_SYSCALL_def syscall_value_def nth_reg_eq field_get_value)
  qed (use core that in \<open>simp add: PT_REGS_PARM_SYSCALL_def\<close>)
  have core_args: "bpf_args 7 (\<lambda>n. PT_REGS_PARM_CORE_SYSCALL (Some R) \<Gamma> n rd y) args =
      (if length args \<le> length (r_syscall R) then Some (map (\<lambda>n. syscall_value R \<Gamma> m y n) [1..<Suc (length args)]) else None)" for y
    using len(1) core
    by (intro bpf_args_regs [of "r_syscall R" 7 _ "\<lambda>n _. syscall_value R \<Gamma> m y n"])
       (auto simp: PT_REGS_PARM_CORE_SYSCALL_def nth_reg_eq field_read_def)
  have direct_args: "bpf_args 7 (\<lambda>n. PT_REGS_PARM_SYSCALL (Some R) \<Gamma> n rd m y) args =
      (if length args \<le> length (r_syscall R) then Some (map (\<lambda>n. syscall_value R \<Gamma> m y n) [1..<Suc (length args)]) else None)" for y
    using len direct assms(1)
    by (intro bpf_args_regs [of "r_syscall R" 7 _ "\<lambda>n _. syscall_value R \<Gamma> m y n"])
       (auto simp: PT_REGS_PARM_SYSCALL_def nth_reg_eq field_get_def table_ok_def)
  show ?thesis by (simp add: BPF_KSYSCALL_def p [unfolded One_nat_def] core_args direct_args Let_def del: upt_Suc)
qed

section \<open>x86\<close>

text \<open>\<open>struct pt_regs\<close> of vmlinux.h: 21 words, of which the unions count as their widest member.\<close>

definition pt_regs_words :: "string list" where
  "pt_regs_words = [''r15'', ''r14'', ''r13'', ''r12'', ''bp'', ''bx'', ''r11'', ''r10'', ''r9'', ''r8'', ''ax'',
     ''cx'', ''dx'', ''si'', ''di'', ''orig_ax'', ''ip'', ''csx'', ''flags'', ''sp'', ''ssx'']"

definition pt_regs_fields :: "string fields" where
  "pt_regs_fields s a = (if s = ''pt_regs''
     then map_of (zip pt_regs_words (map (\<lambda>i. (8 * i, Int_type 8)) [0..<21])) a else None)"

text \<open>The word at an index of \<open>struct pt_regs\<close>.\<close>

definition reg_at :: "(u64 \<Rightarrow> u8) \<Rightarrow> u64 \<Rightarrow> nat \<Rightarrow> u64" where
  "reg_at m x i = as_pointer (mem_load m (x + of_nat (8 * i)) 8)"

definition vmlinux_x86 :: macros where
  "vmlinux_x86 = [''__TARGET_ARCH_x86'' \<mapsto> 1, ''__VMLINUX_H__'' \<mapsto> 1]"

lemma vmlinux_x86_regs: "target_regs vmlinux_x86 = Some x86_regs"
  by code_simp

definition word_indices :: "string list \<Rightarrow> nat list \<Rightarrow> bool" where
  "word_indices rs is \<longleftrightarrow> list_all2 (\<lambda>r i. pt_regs_fields ''pt_regs'' r = Some (8 * i, Int_type 8)) rs is"

lemma x86_words:
  "word_indices (r_parms x86_regs) [14, 13, 12, 11, 9, 8]"
  "word_indices (r_syscall x86_regs) [14, 13, 12, 7, 9, 8]"
  "word_indices [''ax'', ''sp'', ''bp''] [10, 19, 4]"
  "r_type x86_regs = ''pt_regs''" "length (r_parms x86_regs) = 6" "length (r_syscall x86_regs) = 6"
  "r_orig x86_regs = None" "r_rc x86_regs = Some ''ax''" "r_ret x86_regs = Some ''sp''" "r_fp x86_regs = Some ''bp''"
  "r_ret_ip x86_regs = On_stack"
  by code_simp+

lemma x86_ok: "table_ok x86_regs"
  using target_regs_ok [OF vmlinux_x86_regs] .

lemma word_value: "pt_regs_fields ''pt_regs'' r = Some (8 * i, Int_type 8) \<Longrightarrow>
    reg_value pt_regs_fields m x ''pt_regs'' r = reg_at m x i"
  by (simp add: reg_value_def reg_at_def)

lemma word_values: "word_indices rs is \<Longrightarrow> map (reg_value pt_regs_fields m x ''pt_regs'') rs = map (reg_at m x) is"
  unfolding word_indices_def by (induction rule: list_all2_induct) (simp_all add: word_value)

lemma word_defined: "word_indices rs is \<Longrightarrow> r \<in> set rs \<Longrightarrow> pt_regs_fields ''pt_regs'' r \<noteq> None"
  unfolding word_indices_def by (induction rule: list_all2_induct) auto

section \<open>Properties\<close>

text \<open>A traced program sees the arguments of what it traces. \<open>BPF_PROG\<close> passes up to twelve words of
  its context, in order; \<open>BPF_KPROBE\<close> passes the registers that carry the parameters, up to the six
  there are on x86, and does not compile with more; \<open>BPF_KRETPROBE\<close> passes the result, at most.
  \<open>BPF_PROG2\<close> lays its arguments, of one or two words each, over the words of the context from the
  first on without gap or overlap.\<close>

theorem traced_arguments_exact:
  "BPF_PROG ctx args = (if length args \<le> 12 then Some (map ctx [0..<length args]) else None) \<and>
   BPF_KPROBE (target_regs vmlinux_x86) pt_regs_fields m x args =
     (if length args \<le> 6 then Some (map (reg_at m x) (take (length args) [14, 13, 12, 11, 9, 8])) else None) \<and>
   BPF_KRETPROBE (target_regs vmlinux_x86) pt_regs_fields m x args =
     (if length args \<le> 1 then Some (take (length args) [reg_at m x 10]) else None) \<and>
   BPF_PROG2 ctx sizes = (if length sizes \<le> 12 \<and> (\<forall>sz\<in>set sizes. passable sz)
     then Some (from_words (map ctx [0..<the (reg_cnt sizes)]) sizes) else None)"
proof (intro conjI)
  have "map (\<lambda>n. ctx (n - 1)) [1..<Suc (length args)] = map ctx [0..<length args]"
    by (intro nth_equalityI) (auto simp del: upt_Suc)
  moreover have "args_n 12 (\<lambda>n. Some (ctx (n - 1))) (length args) args =
      Some (map (\<lambda>n. ctx (n - 1)) [1..<Suc (length args)])" if "length args \<le> 12"
    using that by (intro args_n_eq) auto
  ultimately show "BPF_PROG ctx args = (if length args \<le> 12 then Some (map ctx [0..<length args]) else None)"
    by (simp add: BPF_PROG_def bpf_args_eq)
  have "BPF_KPROBE (Some x86_regs) pt_regs_fields m x args = (if length args \<le> 6
      then Some (map (reg_value pt_regs_fields m x ''pt_regs'') (take (length args) (r_parms x86_regs))) else None)"
    using kprobe_arguments_exact [of "Some x86_regs" pt_regs_fields m x args] word_defined [OF x86_words(1)] x86_ok
    by (simp add: x86_words)
  moreover have "map (reg_value pt_regs_fields m x ''pt_regs'') (take k (r_parms x86_regs)) =
      map (reg_at m x) (take k [14, 13, 12, 11, 9, 8])" for k
    using word_values [OF x86_words(1), of m x] by (simp only: take_map [symmetric])
  ultimately show "BPF_KPROBE (target_regs vmlinux_x86) pt_regs_fields m x args =
     (if length args \<le> 6 then Some (map (reg_at m x) (take (length args) [14, 13, 12, 11, 9, 8])) else None)"
    by (simp only: vmlinux_x86_regs)
  have rc: "PT_REGS_RC (Some x86_regs) pt_regs_fields m x = Some (reg_at m x 10)"
    using word_values [OF x86_words(3), of m x] word_defined [OF x86_words(3), of "''ax''"]
    by (simp add: PT_REGS_RC_def x86_words field_get_value)
  show "BPF_KRETPROBE (target_regs vmlinux_x86) pt_regs_fields m x args =
      (if length args \<le> 1 then Some (take (length args) [reg_at m x 10]) else None)"
  proof (cases args)
    case (Cons a as)
    then show ?thesis
      using args_n_limit [of 1 "length args" "\<lambda>n. PT_REGS_RC (Some x86_regs) pt_regs_fields m x" args]
      by (cases "as") (auto simp: BPF_KRETPROBE_def bpf_args_eq rc vmlinux_x86_regs)
  qed (simp add: BPF_KRETPROBE_def bpf_args_eq)
  show "BPF_PROG2 ctx sizes = (if length sizes \<le> 12 \<and> (\<forall>sz\<in>set sizes. passable sz)
     then Some (from_words (map ctx [0..<the (reg_cnt sizes)]) sizes) else None)"
  proof (cases "length sizes \<le> 12")
    case True
    then show ?thesis
      using ctx_arg_n_eq [of sizes _ "the (reg_cnt sizes)" ctx] bpf_narg2_eq [OF True] reg_cnt_eq [of sizes]
      by (auto simp: BPF_PROG2_def)
  next
    case False
    with bpf_narg2_many [of sizes] show ?thesis by (auto simp: BPF_PROG2_def)
  qed
qed

text \<open>A byte, a structure of 16 bytes and an integer of four.\<close>

theorem traced_arguments_exact_witness:
  "BPF_PROG2 (\<lambda>i. of_nat (i + 1)) [1, 16, 4] =
     Some [[1], [2, 0, 0, 0, 0, 0, 0, 0, 3, 0, 0, 0, 0, 0, 0, 0], [4, 0, 0, 0]]"
proof -
  have r: "reg_cnt [1, 16, 4] = Some 4" by (simp add: treg_cnt_def)
  let ?ctx = "\<lambda>i. of_nat (i + 1) :: u64"
  have "BPF_PROG2 ?ctx [1, 16, 4] = (if length [1, 16, 4 :: nat] \<le> 12 \<and> (\<forall>sz\<in>set [1, 16, 4]. passable sz)
      then Some (from_words (map ?ctx [0..<the (reg_cnt [1, 16, 4])]) [1, 16, 4]) else None)"
    using traced_arguments_exact [of ?ctx "[] :: nat list" "\<lambda>_. 0" 0 "[1, 16, 4]"] by blast
  also have "\<dots> = Some (from_words (map ?ctx [0..<4]) [1, 16, 4])"
    by (simp only: r option.sel) (simp add: passable_def)
  also have "from_words (map ?ctx [0..<4]) [1, 16, 4] =
      [[1], [2, 0, 0, 0, 0, 0, 0, 0, 3, 0, 0, 0, 0, 0, 0, 0], [4, 0, 0, 0]]" by code_simp
  finally show ?thesis .
qed

text \<open>On x86 the fourth argument of a system call is in another register than that of a function.\<close>

theorem syscall_arguments_exact:
  assumes "\<forall>pl. reads rd Probe_read_kernel m pl"
  shows "BPF_KSYSCALL (target_regs vmlinux_x86) pt_regs_fields has_wrapper rd m x args =
    (if length args \<le> 6 then Some (map (reg_at m (if has_wrapper then reg_at m x 14 else x))
       (take (length args) [14, 13, 12, 7, 9, 8])) else None)"
proof -
  let ?y = "if has_wrapper then reg_at m x 14 else x"
  have no: "syscall_type x86_regs n = ''pt_regs''" for n
    by (simp add: syscall_type_def x86_words)
  have laid: "syscall_laid_out x86_regs pt_regs_fields"
    using word_defined [OF x86_words(1)] word_defined [OF x86_words(2)]
    by (simp add: syscall_laid_out_def no x86_words)
  have first: "reg_value pt_regs_fields m x (r_type x86_regs) (r_parms x86_regs ! 0) = reg_at m x 14"
    using arg_cong [OF word_values [OF x86_words(1), of m x], of hd] x86_words(5)
    by (cases "r_parms x86_regs") (simp_all add: x86_words)
  have sys: "syscall_value x86_regs pt_regs_fields m ?y = (\<lambda>n. reg_value pt_regs_fields m ?y ''pt_regs'' (r_syscall x86_regs ! (n - 1)))"
    unfolding syscall_value_def no by (rule refl)
  have "BPF_KSYSCALL (Some x86_regs) pt_regs_fields has_wrapper rd m x args = (if length args \<le> 6
      then Some (map (syscall_value x86_regs pt_regs_fields m ?y) [1..<Suc (length args)]) else None)"
    using ksyscall_arguments_exact [OF x86_ok laid assms, of has_wrapper x args] unfolding first x86_words(6) .
  moreover have "map (syscall_value x86_regs pt_regs_fields m ?y) [1..<Suc k] = map (reg_at m ?y) (take k [14, 13, 12, 7, 9, 8])"
    if "k \<le> 6" for k
    using map_nth_upto [of k "r_syscall x86_regs" "reg_value pt_regs_fields m ?y ''pt_regs''"] that
      word_values [OF x86_words(2), of m ?y] by (simp add: sys x86_words take_map [symmetric] del: upt_Suc)
  ultimately show ?thesis by (simp add: vmlinux_x86_regs del: upt_Suc)
qed

text \<open>Where a traced function was called from: on x86 the word the stack pointer points to at the entry,
  and the word above the frame pointer at the return.\<close>

theorem return_address_exact:
  assumes "\<forall>pl. reads rd Probe_read_kernel m pl" and "length old = 8"
  shows "BPF_KPROBE_READ_RET_IP (target_regs vmlinux_x86) pt_regs_fields rd m x old = Some (mem_load m (reg_at m x 19) 8) \<and>
    BPF_KRETPROBE_READ_RET_IP (target_regs vmlinux_x86) pt_regs_fields rd m x old = Some (mem_load m (reg_at m x 4 + 8) 8)"
proof -
  have rd: "rd Probe_read_kernel a 8 old = (0, mem_load m a 8)" for a
    using assms(1) [THEN spec, of "(a, 8)"] assms(2) by (simp add: reads_def)
  have "PT_REGS_RET (Some x86_regs) pt_regs_fields m x = Some (reg_at m x 19)"
      "PT_REGS_FP (Some x86_regs) pt_regs_fields m x = Some (reg_at m x 4)"
    using word_values [OF x86_words(3), of m x] word_defined [OF x86_words(3)]
    by (simp_all add: PT_REGS_RET_def PT_REGS_FP_def x86_words field_get_value)
  then show ?thesis
    using rd assms(2) by (simp add: BPF_KPROBE_READ_RET_IP_def BPF_KRETPROBE_READ_RET_IP_def vmlinux_x86_regs x86_words)
qed

end
