(* ===== verification/Spec2Isabelle.thy ===== *)
theory Spec2Isabelle
  imports Calls Arp Concurrency Interference Agent Served Processes Loops Tracing
begin

text \<open>
  nfvcni switches Ethernet frames between the interfaces of a node: eBPF programs written in C
  forward them in the kernel, and Go programs configure the interfaces. This development models
  the C data plane under src/pkg/dataplane/bpf, the agent that configures it, the service of the
  data plane and the control plane, and proves what they do.

  The program. A frame that arrives on an interface meets \<open>xdp_process\<close> (dataplane.c), which copies
  the configuration of the interface from \<open>iface_config_map\<close> into a per-CPU cache and calls, by
  tail call, the program for the interface's mode. \<open>xdp_l2_process\<close> parses the headers, decides by
  \<open>l2_recv_vlan\<close> (l2.h) whether the port takes the frame and in which VLAN, records the source
  address in \<open>fdb_table\<close> (\<open>fdb_learning\<close>), and looks the destination up (\<open>fdb_lookup\<close>). A known
  destination is sent through its port by \<open>xdp_l2_out\<close>; an unknown one is marked by
  \<open>fdb_flood_tag\<close> and passed, and \<open>tc_ingress\<close> and \<open>tc_ingress_l2\<close> then flood it (\<open>fdb_flood\<close>,
  \<open>tc_l2_out\<close>). Both ways out share the egress decision \<open>l2_out\<close>. \<open>xdp_l3_process\<close> drops all.

  The agent (bpf.go) writes \<open>iface_config_map\<close> from the configuration of the node and attaches
  \<open>xdp_process\<close> and \<open>tc_ingress\<close> to each interface. The service of the data plane (server.go)
  reads and writes the forwarding table and keeps a list of ports; the control plane keeps its own
  list of port configurations behind an HTTP and a CNI interface. In the code as it stands the
  three are not joined: nothing starts the service, and the control plane's client is a stub.

  The theories, in the order of the code.
    \<^item> Prelude: machine integers, little-endian bytes, the judgement \<open>succeeds\<close>.
    \<^item> Kernel_Abi: the helper numbers of bpf_helper_defs.h against the enumeration of vmlinux.h.
      Macros, Loops, Core_Read, Registers, Tracing: the macros of bpf_helpers.h, bpf_core_read.h
      and bpf_tracing.h that compute. Calls: every call of every data-plane function into the kernel,
      with its C types, against the declarations.
    \<^item> Endian: bpf_endian.h. Packet: the structures of vmlinux.h, linux_header.h, packet memory.
    \<^item> Forward_Config: forward_config.h. Layout: every structure the programs use as the compiler
      lays it out, and the Go structures generated for the maps (dataplane_bpfel.go).
    \<^item> Helpers: the state of an XDP run (maps, context, memory, the lock held) and the kernel
      helpers XDP programs call. Tc_Helpers: the same for TC programs.
    \<^item> Samples: the packets and states that the witnesses use.
    \<^item> Protocol: protocol.h. Fdb, Vlan, L2_Out, Xdp_Out, Tc_Flood: l2.h by subject.
    \<^item> Concurrency: the two functions on the forwarding database as steps of any number of CPUs.
      Interference: the same steps on the memory of the entries, while the service writes them.
    \<^item> Arp: l3.h, the responder of the layer-3 program, which the build leaves out.
    \<^item> Dataplane: dataplane.c. Forwarding and Switching: its runs as decisions over frames, and the
      hand-over from XDP to TC. Switch: the switch over any sequence of frames and configuration
      changes, as a step relation with invariants over its history.
    \<^item> Config: the port configuration of config.go and types.go. Agent: bpf.go, up to the service
      loop, and what its configurations make of the switch. Registry: the contract of a registry of
      ports. Server: server.go of the data plane. Served: the switch and the service on one table.
      Report: the agent's printing of the table. Control: config.go, server.go, cni.go, types.go and
      dataplane.go of the control plane. Processes: the main functions of both programs.
    \<^item> This theory: the properties of the programs as wholes.

  How the code appears. A function that may do something undefined or forbidden (an access outside
  the packet or the metadata, a helper call under a lock, a release of a lock not held) returns
  \<open>None\<close> there; its error returns are ordinary values. State is passed explicitly. A pointer is an
  address, checked against the context at each access. \<open>bpf_printk\<close> is left out. The kernel's
  helpers are not in the repository: they are a record of functions, and every theorem holds for all
  helpers that satisfy the laws in Helpers and Tc_Helpers, which restate the documentation that
  bpf_helper_defs.h carries; the reference helpers there satisfy them. A spin lock is a lock
  reference in the state. In the theories of whole programs the programs run one at a time; what
  CPUs share is \<open>fdb_table\<close>, and Concurrency cuts the functions that use it into steps at each
  access and lets any CPU move next. In Interference the table leads to cells of memory, a CPU keeps
  the pointer it has looked up, and the service replaces or deletes entries between any two steps;
  which cell the kernel takes for a new entry is a parameter, with laws on what it may take.

  What the lemmas show. Each send function meets one contract, the locale \<open>l2_sender\<close>, which is
  interpreted on the XDP and on the TC functions, so that the egress decision is proved once. The
  locale \<open>mac_table\<close> states what forwarding needs of the forwarding database, and is interpreted on
  the update the learning performs. The locale \<open>registry\<close> states what a registry of ports does, and
  is interpreted on the service, on the configuration manager and on the HTTP interface.
  From these: every run of \<open>xdp_process\<close> is safe on every packet;
  the layer-2 program implements the decision \<open>l2_decide\<close>; an address learned on a port is sent to
  through it; an unknown destination reaches every port of its VLAN once, and never another VLAN;
  table entries come from frames or calls of the service, are never aged, and are never replaced once
  the table is full. For the concurrent database: the entry locks exclude, there is no
  deadlock, every schedule ends, each update and each look-up is of a whole entry, and a CPU alone
  computes what the sequential functions compute, which carries the theorems above over to it. With
  the service on the same table, the locks hold (\<open>service_cannot_break_locking\<close>); where the kernel
  takes no cell a CPU points to, changes and reads are still of whole entries; and as long as no call
  comes, the system is that of Concurrency (\<open>traffic_alone_keeps_entries\<close>).
  The structures are laid out soundly, model and Go read them as C does, and the calls into the
  kernel are well typed, in number and type of their arguments. All recursion is structural (the
  flood runs over the finite list of keys the kernel visits), so no fuel is needed, with two
  exceptions: \<open>run_alone\<close> of Concurrency counts the steps of one CPU, of which 15 are proved to be
  enough, and \<open>for_loop\<close> of Loops is a partial function, \<open>None\<close> if it never ends, which is proved to end
  over every iterator that gives a finite list.

  The agent serves exactly the configurations it can carry out, the map it writes is the one the
  theorems on the switch ask for, and a frame floods to the ports the configuration file names
  (\<open>configured_vlan_is_flooded\<close>). An entry made through the service is the one the switch finds, the
  listing of the service shows where frames go (\<open>listing_shows_forwarding\<close>), and each
  interface reports what its answers said.

  What the proofs show to be wrong with the code. A successful redirect is requested and then lost,
  because \<open>xdp_l2_out\<close> returns \<open>XDP_DROP\<close> also on success (\<open>xdp_process_safety\<close>,
  \<open>reply_goes_to_learned_port\<close>). A lookup that finds nothing leaves the result of an earlier frame
  in the cache, which is then used (\<open>stale_result_replaces_flood\<close>). The flood metadata is cleared only
  in part (\<open>flood_tag_leaks_vlan_flag\<close>). A clone that fails while the tag is off leaves the frame
  untagged for the ports after it (\<open>failed_clone_strips_later_ports\<close>). A trunk without a native VLAN
  receives but never sends (\<open>trunk_without_native_never_sends\<close>). A CPU that read the clock before
  another refreshed the entry sets its time back (\<open>late_cpu_turns_time_back\<close>). What a CPU learns on
  an entry the service has meanwhile deleted is lost (\<open>learning_on_a_removed_entry_is_lost\<close>), or,
  if the kernel reuses its memory, ends up in the entry of another address
  (\<open>reused_entry_takes_a_foreign_port\<close>). The padding in the
  structure for ARP addresses keeps every request from being answered (\<open>wire_request_is_dropped\<close>).
  The agent configures trunks as access ports (\<open>trunk_configuration_is_ignored\<close>), does not notice
  that the flooding program is missing (\<open>tcx_failure_goes_unnoticed\<close>), and panics at a port without
  a layer-2 section (\<open>port_without_l2_panics\<close>). The control plane stays when it cannot listen
  (\<open>unbound_control_plane_stays\<close>), and panics at a signal that comes too soon
  (\<open>early_signal_panics\<close>).

  The library headers. bpf_core_read.h and bpf_tracing.h come with the programs, which use none of
  their macros. A macro is a function on its argument list, and what it expands to is run on a memory:
  a chain of accessors reads what the arrows of C denote (\<open>core_read_follows_pointers\<close>), a bit field is
  read exactly on either byte order, a traced program gets the arguments of what it traces on every
  target (\<open>kprobe_arguments_exact\<close>, \<open>ksyscall_arguments_exact\<close>), \<open>bpf_for\<close> runs over its range. What
  the loader answers to a question on a type, and where a register lies in the saved registers of a
  target other than x86, whose structure is not here, are parameters.

  Not modelled: of the generated headers and Go files all but the parts named above; reading and
  decoding of files, messages and command lines, signals and sockets, which are the libraries' and
  enter as their outcome; what is logged, except where it is all that happens; the interleaving of
  CPUs on \<open>iface_config_map\<close>, which the programs only read; and whole runs of the programs at the
  level of Interference, which has the two functions that share the table: Served has the whole
  runs, one after the other, with the calls between them.
\<close>

section \<open>Every run is safe\<close>

text \<open>C1: no packet makes the entry program misbehave. For every packet, configuration, cache and
  table, and whatever the kernel answers, a run of \<open>xdp_process\<close> ends without an access outside
  the packet or the metadata, without a helper call under a lock and without releasing a lock it
  does not hold; it ends with no lock held, the configuration as it was, the forwarding table
  within its capacity if it was, and the verdict \<open>XDP_DROP\<close> or \<open>XDP_PASS\<close>, never a redirect.\<close>

theorem xdp_process_safety:
  assumes "xdp_laws H" and "held s = None"
  shows "\<exists>act s'. xdp_process H s = Some (act, s') \<and> act \<in> {XDP_DROP, XDP_PASS} \<and> held s' = None \<and>
    iface_config_map s' = iface_config_map s \<and> (fdb_ok H (fdb_table s) \<longrightarrow> fdb_ok H (fdb_table s'))"
  using xdp_process_safe [OF assms] by (auto simp: succeeds_iff)

theorem xdp_process_safety_witness:
  "\<exists>act s'. xdp_process (ref_helpers 0) (sample_state [1, 2, 3] 1 Map.empty zero_cache) = Some (act, s') \<and>
    act \<in> {XDP_DROP, XDP_PASS}"
  using xdp_process_safety [of "ref_helpers 0" "sample_state [1, 2, 3] 1 Map.empty zero_cache"] by auto

section \<open>The layer-2 program implements the decision\<close>

text \<open>C2: the layer-2 program does what the forwarding decision says: it drops what it cannot parse
  or may not admit and changes nothing; it hands a frame without a known port to TC, marked with
  its VLAN; and it rewrites a frame with a port and asks for the redirect when the egress rule and
  the kernel allow, in every case after learning the source.\<close>

theorem xdp_l2_process_refines_decision:
  assumes "xdp_laws H" and "held s = None" and "xdp_forward_config_cache s 0 = Some fc"
    and "ifc_ifindex (fc_in_if_config fc) \<noteq> 0"
  shows "\<exists>act s'. xdp_l2_process H s = Some (act, s') \<and> l2_outcome H fc s act s' \<and> held s' = None \<and>
    iface_config_map s' = iface_config_map s"
  using xdp_l2_process_contract [OF assms] by (auto simp: succeeds_iff)

definition sample_in_cache :: forward_config where
  "sample_in_cache = zero_cache\<lparr>fc_in_if_config := sample_config 1 VLAN_ACCESS 5\<rparr>"

theorem xdp_l2_process_refines_decision_witness:
  "\<exists>act s'. xdp_l2_process (ref_helpers 0)
      (sample_state (plain_frame mac_a mac_b) 1 Map.empty sample_in_cache) = Some (act, s') \<and>
    l2_outcome (ref_helpers 0) sample_in_cache
      (sample_state (plain_frame mac_a mac_b) 1 Map.empty sample_in_cache) act s'"
  using xdp_l2_process_refines_decision [of "ref_helpers 0"
      "sample_state (plain_frame mac_a mac_b) 1 Map.empty sample_in_cache" sample_in_cache]
  by (auto simp: sample_in_cache_def sample_config_def)

section \<open>Dispatch\<close>

text \<open>The entry program copies the ingress interface's configuration into the cache and runs the
  program of its mode; it drops frames of an interface without configuration, of an unknown mode,
  and of a mode whose tail call fails.\<close>

theorem xdp_process_dispatch:
  assumes "held s = None"
  shows "xdp_process H s =
    (case (xdp_forward_config_cache s 0, iface_config_map s (ingress_ifindex (ctx s))) of
       (Some fc, Some item) \<Rightarrow>
         if ifc_mode (ici_config item) = IF_MODE_L2 \<and> h_tail_call H XDP_ID_L2
         then xdp_l2_process H (entered fc item s)
         else if ifc_mode (ici_config item) = IF_MODE_L3 \<and> h_tail_call H XDP_ID_L3
         then xdp_l3_process (entered fc item s)
         else Some (XDP_DROP, entered fc item s)
     | _ \<Rightarrow> Some (XDP_DROP, s))"
  using assms by (simp add: xdp_process_run split: option.splits)

theorem xdp_process_dispatch_witness:
  "xdp_process (ref_helpers 0) (sample_state (plain_frame mac_a mac_b) 9 Map.empty zero_cache) =
     Some (XDP_DROP, sample_state (plain_frame mac_a mac_b) 9 Map.empty zero_cache)"
  using xdp_process_dispatch [of "sample_state (plain_frame mac_a mac_b) 9 Map.empty zero_cache" "ref_helpers 0"]
  by (simp add: sample_ifaces_def)

text \<open>The layer-3 program drops every frame and changes nothing.\<close>

theorem xdp_l3_drops_everything:
  assumes "held s = None"
  shows "xdp_l3_process s = Some (XDP_DROP, s)"
  using assms by (rule xdp_l3_process_run)

theorem xdp_l3_drops_everything_witness:
  "xdp_l3_process (sample_state (plain_frame mac_a mac_b) 1 Map.empty sample_in_cache) =
     Some (XDP_DROP, sample_state (plain_frame mac_a mac_b) 1 Map.empty sample_in_cache)"
  using xdp_l3_drops_everything [of "sample_state (plain_frame mac_a mac_b) 1 Map.empty sample_in_cache"]
  by simp

text \<open>TC floods a frame exactly when its metadata is complete, genuine, of the layer-2 type and
  marked for flooding; marked frames that are not to be flooded, and frames of the layer-3 type, are
  dropped; all others go to the host.\<close>

theorem tc_ingress_dispatch:
  assumes "held s = None" and "h_tc_tail_call H TC_INGRESS_ID_L2" and "h_tc_tail_call H TC_INGRESS_ID_L3"
  shows "tc_ingress H s =
    (if \<not> (tc_has_meta s \<and> md_magic (tc_meta s) = DP_META_MAGIC \<and>
           md_meta_type (tc_meta s) \<in> {DP_META_L2, DP_META_L3}) then Some (TC_ACT_OK, s)
     else if md_meta_type (tc_meta s) = DP_META_L2 \<and> l2m_flags (md_l2 (tc_meta s)) AND L2_FLOOD \<noteq> 0
     then fdb_flood H (tc_meta s) s
     else Some (TC_ACT_SHOT, s))"
  using assms by (auto simp: tc_ingress_run)

theorem tc_ingress_dispatch_witness:
  "tc_ingress (ref_tc_helpers []) (sample_tc (plain_frame mac_a mac_b) 1 sample_ifaces) =
     Some (TC_ACT_OK, sample_tc (plain_frame mac_a mac_b) 1 sample_ifaces)"
proof -
  let ?s = "sample_tc (plain_frame mac_a mac_b) 1 sample_ifaces"
  have "load_bytes (\<lambda>_. 0) p 24 = replicate 24 0" for p
    by (simp add: load_bytes_def map_replicate_const)
  then have "md_magic (tc_meta ?s) \<noteq> DP_META_MAGIC"
    by (simp add: tc_meta_def sample_tc_def decode_dp_metadata_def word32_def DP_META_MAGIC_def)
  then show ?thesis
    using tc_ingress_dispatch [of ?s "ref_tc_helpers []"] by (simp add: prog_array_defs)
qed

section \<open>From one port to the others\<close>


lemma sample_passes: "\<exists>s'. xdp_process (ref_helpers 0) sample_start = Some (XDP_PASS, s')"
proof -
  have "h_tail_call (ref_helpers 0) XDP_ID_L2" by (simp add: prog_array_defs)
  from admitted_run [OF ref_helpers_laws this sample_admitted] admitted_decide [OF sample_admitted, of "ref_helpers 0"]
  show ?thesis
    by (auto simp: succeeds_iff l2_outcome_def sample_unknown sample_granted(1))
qed


text \<open>C4: a flooded frame stays in its VLAN, whatever the kernel refuses and whatever the memory
  held. Every frame XDP passes to TC was admitted to a VLAN by the port it came in on, and TC sends
  it at most once to each port, only to ports that carry this VLAN, and not back.\<close>

theorem flooded_frame_stays_in_its_vlan:
  assumes "xdp_laws H" and "tc_laws T" and "held s = None" and "well_configured (iface_config_map s)"
    and "xdp_process H s = Some (XDP_PASS, s')" and "passed_to_tc s' t"
  shows "\<exists>fc inn tagged vid act t' log. admitted s fc inn tagged vid \<and>
    tc_ingress T t = Some (act, t') \<and> sent t' = sent t @ log \<and> distinct (map fst log) \<and>
    (\<forall>(i, f)\<in>set log. i \<noteq> ingress_ifindex (ctx s) \<and>
      (\<exists>out. iface_config_map s i = Some out \<and> ifc_mode (ici_config out) = IF_MODE_L2 \<and>
         egress_member (ifc_l2 (ici_config out)) vid))"
proof -
  obtain fc inn tagged vid where a: "admitted s fc inn tagged vid" and tail: "h_tail_call H XDP_ID_L2"
    and d: "l2_decide H (fc\<lparr>fc_in_if_config := ici_config inn\<rparr>) (entered fc inn s) = Flood tagged vid"
    using passed_is_flooded [OF assms(1,3,5)] by blast
  note m = flooded_meta [OF assms(1) a assms(5) tail d assms(6)]
  have "\<exists>act t' log. tc_ingress T t = Some (act, t') \<and> sent t' = sent t @ log \<and> distinct (map fst log) \<and>
    (\<forall>(i, f)\<in>set log. i \<noteq> ingress_ifindex (ctx s) \<and>
      (\<exists>out. iface_config_map s i = Some out \<and> ifc_mode (ici_config out) = IF_MODE_L2 \<and>
         egress_member (ifc_l2 (ici_config out)) vid))"
  proof (cases "h_tc_tail_call T TC_INGRESS_ID_L2")
    case True
    then have "tc_ingress T t = fdb_flood T (tc_meta t) t"
      using m(1-3) by (simp add: tc_ingress_run)
    with fdb_flood_confined [OF assms(2) m(3), of "tc_meta t"] m assms(4) show ?thesis by simp blast
  next
    case False
    have "DP_META_L2 \<noteq> DP_META_L3" by (simp add: DP_META_L2_def DP_META_L3_def)
    with False m(1-3) show ?thesis by (simp add: tc_ingress_run)
  qed
  with a show ?thesis by blast
qed

text \<open>Port 2 is congested here.\<close>

theorem flooded_frame_stays_in_its_vlan_witness:
  "\<exists>s' act t' log. xdp_process (ref_helpers 0) sample_start = Some (XDP_PASS, s') \<and>
    tc_ingress (ref_tc_helpers [2]) (hand_over s') = Some (act, t') \<and> sent t' = log \<and> 1 \<notin> fst ` set log"
proof -
  obtain s' where s': "xdp_process (ref_helpers 0) sample_start = Some (XDP_PASS, s')"
    using sample_passes by blast
  have "held sample_start = None" "well_configured (iface_config_map sample_start)" by simp_all
  from flooded_frame_stays_in_its_vlan [OF ref_helpers_laws ref_tc_laws this s' passed_hand_over, of "[2]"] s'
  show ?thesis by fastforce
qed

text \<open>C5: an address that was seen on a port is sent to through that port. After a frame from \<open>A\<close> has
  been admitted to a VLAN on one port, a frame to \<open>A\<close> admitted to the same VLAN on another port is
  rewritten for the first port and its redirect requested, when the egress rule and the kernel
  allow; and yet the verdict is \<open>XDP_DROP\<close>, so that the redirect is not carried out.\<close>

theorem reply_goes_to_learned_port:
  assumes "xdp_laws H" and "h_tail_call H XDP_ID_L2" and "fdb_ok H (fdb_table s)"
    and "admitted s fc inn tagged vid" and "fdb_room H (src_key s vid) (fdb_table s)"
    and "ingress_ifindex (ctx s) \<noteq> 0" and "xdp_process H s = Some (act, s')"
    and "admitted s2 fc2 inn2 tagged2 vid" and "fdb_table s2 = fdb_table s'"
    and "iface_config_map s2 (ingress_ifindex (ctx s)) = Some out"
    and "dst_key s2 vid = src_key s vid" and "src_key s2 vid \<noteq> dst_key s2 vid"
  shows "\<exists>s3. xdp_process H s2 = Some (XDP_DROP, s3) \<and>
    (if sendable H (ici_config inn2) out vid tagged2 s2
     then frame s3 = out_frame (l2_egress (ici_config out) (ici_config inn2) vid tagged2) vid (frame s2) \<and>
       redirect_to s3 = Some (port_of out)
     else redirect_to s3 = redirect_to s2)"
proof -
  have t: "fdb_table s' = learned_table H s vid"
    using admitted_learns [OF assms(1,2,4)] assms(7) by simp
  have ok: "fdb_ok H (fdb_table s2)"
    using assms(3,9) t by (simp add: learned_table_def mac.inv_learn)
  have "found (dst_key s2 vid) (learned_table H s2 vid) = found (dst_key s2 vid) (fdb_table s2)"
    unfolding learned_table_def by (rule mac.find_learn_other [OF ok]) (use assms(12) in simp)
  also have "\<dots> = Some (ingress_ifindex (ctx s))"
    using mac.find_learn [OF assms(3,5), of "(ingress_ifindex (ctx s), ktime s)"] assms(6,9,11) t
    by (simp add: learned_table_def)
  finally have "l2_decide H (fc2\<lparr>fc_in_if_config := ici_config inn2\<rparr>) (entered fc2 inn2 s2) =
      Forward tagged2 vid (ingress_ifindex (ctx s))"
    using admitted_decide [OF assms(8), of H] by simp
  with admitted_run [OF assms(1,2,8)] assms(10) show ?thesis
    by (auto simp: succeeds_iff l2_outcome_def)
qed

theorem reply_goes_to_learned_port_witness:
  "\<exists>act s' s3. xdp_process (ref_helpers 0) sample_start = Some (act, s') \<and>
    xdp_process (ref_helpers 0) (sample_state (plain_frame mac_b mac_a) 2 (fdb_table s') zero_cache) =
      Some (XDP_DROP, s3) \<and> frame s3 = plain_frame mac_b mac_a \<and> redirect_to s3 = Some 1"
proof -
  obtain s' where s': "xdp_process (ref_helpers 0) sample_start = Some (XDP_PASS, s')"
    using sample_passes by blast
  let ?s2 = "sample_state (plain_frame mac_b mac_a) 2 (fdb_table s') zero_cache"
  have a2: "admitted ?s2 zero_cache (sample_item 2 VLAN_ACCESS 5) False 5"
    by (simp add: admitted_def plain_frame_untagged admit_def frame_tag_def sample_item_def sample_config_def
      sample_l2_def port_of_def)
  have keys: "dst_key ?s2 5 = src_key sample_start 5" "src_key ?s2 5 \<noteq> dst_key ?s2 5"
    by (simp_all add: dst_key_def src_key_def plain_frame_def mac_a_def mac_b_def)
  have e: "l2_egress (ici_config (sample_item 1 VLAN_ACCESS 5)) (ici_config (sample_item 2 VLAN_ACCESS 5)) 5 False = Direct"
    "sendable (ref_helpers 0) (ici_config (sample_item 2 VLAN_ACCESS 5)) (sample_item 1 VLAN_ACCESS 5) 5 False ?s2"
    by (simp_all add: sendable_def l2_egress_def eligible_def egress_member_def sample_item_def sample_config_def
      sample_l2_def port_of_def redirects_def ref_redirect_def)
  have "\<exists>s3. xdp_process (ref_helpers 0) ?s2 = Some (XDP_DROP, s3) \<and>
    (if sendable (ref_helpers 0) (ici_config (sample_item 2 VLAN_ACCESS 5)) (sample_item 1 VLAN_ACCESS 5) 5 False ?s2
     then frame s3 = out_frame (l2_egress (ici_config (sample_item 1 VLAN_ACCESS 5))
         (ici_config (sample_item 2 VLAN_ACCESS 5)) 5 False) 5 (frame ?s2) \<and>
       redirect_to s3 = Some (port_of (sample_item 1 VLAN_ACCESS 5))
     else redirect_to s3 = redirect_to ?s2)"
    by (rule reply_goes_to_learned_port [OF ref_helpers_laws _ _ sample_admitted _ _ s' a2 _ _ keys])
       (simp_all add: prog_array_defs fdb_ok_def fdb_room_def ref_fdb_update_law ref_fdb_update_def
         fdb_table_max_entries_def)
  with s' e show ?thesis by (auto simp: out_frame_def)
qed

text \<open>C22: the cached lookup result outlives its frame. After a frame whose destination was found at
  port \<open>p\<close>, the next frame on this CPU whose destination is not in the table is not flooded: it is
  dropped, or sent to \<open>p\<close>.\<close>

theorem stale_result_replaces_flood:
  assumes "xdp_laws H" and "h_tail_call H XDP_ID_L2" and "admitted s fc inn tagged vid"
    and "found (dst_key s vid) (learned_table H s vid) = Some p" and "xdp_process H s = Some (act, s')"
    and "admitted s2 fc2 inn2 tagged2 vid2" and "xdp_forward_config_cache s2 = xdp_forward_config_cache s'"
    and "found (dst_key s2 vid2) (learned_table H s2 vid2) = None"
    and "iface_config_map s2 p = Some out"
  shows "\<exists>s3. xdp_process H s2 = Some (XDP_DROP, s3) \<and>
    (if sendable H (ici_config inn2) out vid2 tagged2 s2 then redirect_to s3 = Some (port_of out)
     else redirect_to s3 = redirect_to s2)"
proof -
  have "cached_port s' = p"
    using admitted_learns [OF assms(1-3)] assms(4,5) by simp
  then have "fv_ifindex (fc_fdb_value fc2) = p"
    using assms(6,7) by (simp add: cached_port_def admitted_def)
  moreover have "p \<noteq> 0" using assms(4) by (rule found_nonzero)
  ultimately have "l2_decide H (fc2\<lparr>fc_in_if_config := ici_config inn2\<rparr>) (entered fc2 inn2 s2) =
      Forward tagged2 vid2 p"
    using admitted_decide [OF assms(6), of H] assms(8) by simp
  with admitted_run [OF assms(1,2,6)] assms(9) show ?thesis
    by (auto simp: succeeds_iff l2_outcome_def split: if_splits)
qed

text \<open>The first frame goes to a known address at port 2; the second, to an unknown address, follows it.\<close>

theorem stale_result_replaces_flood_witness:
  "\<exists>act s' s3. xdp_process (ref_helpers 0) (sample_state (plain_frame mac_a mac_b) 1
      [\<lparr>fk_mac = mac_a, fk_vlan_id = 5\<rparr> \<mapsto> new_item 2 0] zero_cache) = Some (act, s') \<and>
    xdp_process (ref_helpers 0)
      (sample_start\<lparr>xdp_forward_config_cache := xdp_forward_config_cache s'\<rparr>) = Some (XDP_DROP, s3) \<and>
    redirect_to s3 = Some 2"
proof -
  let ?t = "[\<lparr>fk_mac = mac_a, fk_vlan_id = 5\<rparr> \<mapsto> new_item 2 0]"
  let ?s = "sample_state (plain_frame mac_a mac_b) 1 ?t zero_cache"
  let ?i = "sample_item 1 VLAN_ACCESS 5" and ?o = "sample_item 2 VLAN_ACCESS 5"
  have tail: "h_tail_call (ref_helpers 0) XDP_ID_L2" by (simp add: prog_array_defs)
  have a: "admitted ?s zero_cache ?i False 5"
    using sample_admitted by (simp add: admitted_def frame_tag_def)
  have k: "dst_key ?s 5 = \<lparr>fk_mac = mac_a, fk_vlan_id = 5\<rparr>" "dst_key ?s 5 \<noteq> src_key ?s 5"
    by (simp_all add: dst_key_def src_key_def plain_frame_def mac_a_def mac_b_def)
  then have f: "found (dst_key ?s 5) (learned_table (ref_helpers 0) ?s 5) = Some 2"
    by (simp add: found_def learned_table_def learned_other [OF ref_fdb_update_law] new_item_def)
  obtain act s' where s': "xdp_process (ref_helpers 0) ?s = Some (act, s')" and "cached_port s' = 2"
    using admitted_learns [OF ref_helpers_laws tail a] f by (auto simp: succeeds_iff)
  then obtain fc where fc: "xdp_forward_config_cache s' 0 = Some fc"
    by (auto simp: cached_port_def split: option.splits)
  let ?s2 = "sample_start\<lparr>xdp_forward_config_cache := xdp_forward_config_cache s'\<rparr>"
  have a2: "admitted ?s2 fc ?i False 5"
    using sample_admitted fc by (simp add: admitted_def frame_tag_def)
  have u: "found (dst_key ?s2 5) (learned_table (ref_helpers 0) ?s2 5) = None"
    using sample_unknown by (simp add: dst_key_def learned_table_def src_key_def)
  have e: "sendable (ref_helpers 0) (ici_config ?i) ?o 5 False ?s2"
    by (simp add: sendable_def l2_egress_def eligible_def egress_member_def sample_item_def sample_config_def
      sample_l2_def port_of_def redirects_def ref_redirect_def)
  have "\<exists>s3. xdp_process (ref_helpers 0) ?s2 = Some (XDP_DROP, s3) \<and>
    (if sendable (ref_helpers 0) (ici_config ?i) ?o 5 False ?s2 then redirect_to s3 = Some (port_of ?o)
     else redirect_to s3 = redirect_to ?s2)"
    by (rule stale_result_replaces_flood [OF ref_helpers_laws tail a f s' a2 _ u]) simp_all
  with s' e show ?thesis by auto
qed

text \<open>Unicast and flood put the same frame on the wire where a tag is added: the XDP function
  that writes the tag into the packet and the TC function that has the kernel push it give the same
  bytes, for every frame and every 12-bit VLAN number.\<close>

theorem both_paths_tag_alike:
  assumes "xdp_laws H" and "held s = None" and "14 \<le> pkt_len (ctx s)"
    and "sc_ether_header_orignal sc = decode_ethhdr (take 14 (frame s))" and "sc_vlan_id sc = vid"
    and "xdp_can H (ifc_ifindex (sc_out_config sc)) Encap s"
    and "tc_laws T" and "held t = None" and "packet t = frame s" and "tc_can T i vid Encap t"
    and "unat vid \<le> 4095"
  shows "\<exists>s' t'. xdp_l2_encap_vlan_and_send H sc s = Some (0, s') \<and>
    tc_l2_encap_vlan_and_send T \<lparr>tsc_out_if_index = i, tsc_vlan_id = vid\<rparr> t = Some (0, t') \<and>
    sent t' = sent t @ [(i, frame s')]"
proof -
  have "vid AND 0xFFF = vid" by (rule and_0xFFF_small [OF assms(11)])
  then have same: "tag_frame vid f = push_tag (bpf_htons True ETH_P_8021Q) (ucast vid) f" for f
    by (simp add: tag_frame_def push_tag_def)
  obtain s' where s': "xdp_l2_encap_vlan_and_send H sc s = Some (0, s')" "frame s' = tag_frame vid (frame s)"
    using encap_contract [OF xdp_lawsD(1) [OF assms(1)] assms(2-4)] assms(5,6)
    by (auto simp: sends_def succeeds_iff)
  obtain t' where t': "tc_l2_encap_vlan_and_send T \<lparr>tsc_out_if_index = i, tsc_vlan_id = vid\<rparr> t = Some (0, t')"
    "sent t' = sent t @ [(i, push_tag (bpf_htons True ETH_P_8021Q) (ucast vid) (packet t))]"
    using tc_encap_contract [OF tc_lawsD(1) [OF assms(7)] assms(8), of i vid True] assms(3,9,10)
    by (auto simp: tc_emitted_def succeeds_iff simp del: tc_can.simps)
  from s' t' same assms(9) show ?thesis by auto
qed

theorem both_paths_tag_alike_witness:
  "\<exists>s' t'. xdp_l2_encap_vlan_and_send (ref_helpers 0)
      \<lparr>sc_flages = 0, sc_ether_header_orignal = decode_ethhdr (take 14 (frame sample_start)),
       sc_vlan_header_orignal = decode_vlan_hdr (replicate 4 0), sc_out_config = sample_config 3 VLAN_TRUNK 5,
       sc_vlan_id = 12\<rparr> sample_start = Some (0, s') \<and>
    tc_l2_encap_vlan_and_send (ref_tc_helpers []) \<lparr>tsc_out_if_index = 3, tsc_vlan_id = 12\<rparr>
      (sample_tc (plain_frame mac_a mac_b) 1 sample_ifaces) = Some (0, t') \<and>
    sent t' = [(3, frame s')]"
proof -
  let ?sc = "\<lparr>sc_flages = 0, sc_ether_header_orignal = decode_ethhdr (take 14 (frame sample_start)),
      sc_vlan_header_orignal = decode_vlan_hdr (replicate 4 0), sc_out_config = sample_config 3 VLAN_TRUNK 5,
      sc_vlan_id = 12\<rparr>"
  have "xdp_can (ref_helpers 0) (ifc_ifindex (sc_out_config ?sc)) Encap sample_start"
    by (simp add: moves_head_def redirects_def ref_adjust_head_def ref_redirect_def sample_config_def)
  moreover have "tc_can (ref_tc_helpers []) 3 12 Encap (sample_tc (plain_frame mac_a mac_b) 1 sample_ifaces)"
    by (rule accepting_can) simp
  ultimately show ?thesis
    using both_paths_tag_alike [of "ref_helpers 0" sample_start ?sc 12 "ref_tc_helpers []"
      "sample_tc (plain_frame mac_a mac_b) 1 sample_ifaces" 3]
    by (simp del: xdp_can.simps tc_can.simps)
qed

end
